(* ===== verification/Prelude.thy ===== *)
theory Prelude
  imports Complex_Main "HOL-Library.AList"
begin

section \<open>Prelude: names, dictionaries and text\<close>

text \<open>
  What every component of the development shares: the collections of facts its
  proofs are driven by, dictionaries (a Python dict with string keys and values, a
  Redis hash) as association lists, and the printing of numbers in Python's
  f-strings.
\<close>

named_theorems keeps_rules \<open>an invariant is kept by each way of composing programs\<close>
named_theorems wp_rules \<open>weakest preconditions of the programs of the effect language\<close>
named_theorems handler_defs \<open>definitions of handlers, to be unfolded by symbolic execution\<close>
named_theorems key_simps \<open>injectivity and disjointness of the Redis key names\<close>

type_synonym dict = "(string \<times> string) list"

subsection \<open>Dictionaries\<close>

text \<open>Python's \<^verbatim>\<open>d.get(k)\<close>, and the truth value of what it returns:
  \<^verbatim>\<open>None\<close> and the empty string are both false.\<close>

abbreviation dict_get :: "dict \<Rightarrow> string \<Rightarrow> string option" where
  "dict_get d k \<equiv> map_of d k"

definition truthy :: "string option \<Rightarrow> bool" where
  "truthy x = (case x of None \<Rightarrow> False | Some s \<Rightarrow> s \<noteq> [])"

text \<open>Python's \<^verbatim>\<open>str(d.get(k) or "")\<close>.\<close>

definition or_empty :: "string option \<Rightarrow> string" where
  "or_empty x = (case x of None \<Rightarrow> [] | Some s \<Rightarrow> s)"

text \<open>Python's \<^verbatim>\<open>x or None\<close>.\<close>

definition or_none :: "string option \<Rightarrow> string option" where
  "or_none x = (if truthy x then x else None)"

text \<open>Writing the entries of a mapping, in order, over a dictionary (\<^verbatim>\<open>HSET key mapping\<close>).\<close>

fun dict_update :: "dict \<Rightarrow> dict \<Rightarrow> dict" where
  "dict_update [] d = d"
| "dict_update ((k, v) # m) d = dict_update m (AList.update k v d)"

lemma truthy_simps [simp]:
  "\<not> truthy None"
  "truthy (Some s) \<longleftrightarrow> s \<noteq> []"
  by (simp_all add: truthy_def)

lemma or_empty_simps [simp]:
  "or_empty None = []"
  "or_empty (Some s) = s"
  by (simp_all add: or_empty_def)

lemma truthy_or_empty: "or_empty x \<noteq> [] \<longleftrightarrow> truthy x"
  by (cases x) auto

lemma or_none_simps [simp]:
  "or_none None = None"
  "or_none (Some s) = (if s = [] then None else Some s)"
  by (simp_all add: or_none_def)

lemma map_of_dict_update:
  "map_of (dict_update m d) k = (case map_of (rev m) k of None \<Rightarrow> map_of d k | Some v \<Rightarrow> Some v)"
  by (induction m d rule: dict_update.induct)
    (auto simp: update_conv' map_add_def split: option.splits)

lemma dict_update_nonempty [simp]: "m \<noteq> [] \<Longrightarrow> dict_update m d \<noteq> []"
proof (induction m d rule: dict_update.induct)
  case (2 k v m d)
  then show ?case by (cases "m = []") (auto simp: update_nonempty)
qed simp

lemma dict_update_single [simp]: "dict_update [(k, v)] d = AList.update k v d"
  by simp

lemma map_of_update_apply [simp]:
  "map_of (AList.update k v d) k' = (if k' = k then Some v else map_of d k')"
  by (simp add: update_conv')

lemma map_of_nonempty: "map_of d k = Some v \<Longrightarrow> d \<noteq> []"
  by auto

subsection \<open>Numbers as text\<close>

definition digit :: "nat \<Rightarrow> char" where
  "digit d = char_of (48 + d)"

fun show_nat :: "nat \<Rightarrow> string" where
  "show_nat n = (if n < 10 then [digit n] else show_nat (n div 10) @ [digit (n mod 10)])"

declare show_nat.simps [simp del]

definition show_int :: "int \<Rightarrow> string" where
  "show_int i = (if i < 0 then ''-'' @ show_nat (nat (- i)) else show_nat (nat i))"

subsection \<open>Results\<close>

lemma sum_case_if: "case_sum f g (if b then x else y) = (if b then case_sum f g x else case_sum f g y)"
  by simp

lemma prod_case_if: "case_prod f (if b then x else y) = (if b then case_prod f x else case_prod f y)"
  by simp

end
