(* ===== verification/Py_Exn.thy ===== *)
theory Py_Exn
  imports Prelude
begin

section \<open>Exceptions\<close>

text \<open>
  An exception is a value: the name of its class, the classes it is an instance of
  (the part of its \<^verbatim>\<open>__mro__\<close> that the source ever tests with \<^verbatim>\<open>except\<close> or
  \<^verbatim>\<open>isinstance\<close>), its text and, for \<^verbatim>\<open>CircuitOpenError\<close>, the delay it carries.
  Carrying the classes in the value keeps the class hierarchies of the packages the
  service imports (asyncprawcore, aiohttp, redis, sqlalchemy) out of the model: they
  are whatever the value says.
\<close>

datatype pyclass =
    Base_Exception | Py_Exception | Cancelled_Error
  \<comment> \<open>builtins\<close>
  | Value_Error | Key_Error | Runtime_Error | Os_Error | Connection_Error | Timeout_Error
  \<comment> \<open>asyncprawcore and aiohttp\<close>
  | Bad_Request | Forbidden | Invalid_Token | Not_Found | Oauth_Exception
  | Request_Exception | Response_Exception | Too_Many_Requests | Client_Connection_Error
  \<comment> \<open>sqlalchemy, botocore, pydantic\<close>
  | Operational_Error | Dbapi_Error | Client_Error | No_Credentials_Error | Validation_Error
  \<comment> \<open>src/stream/exceptions.py and src/repositories/stream_registry.py\<close>
  | Kafka_Delivery_Error | Circuit_Open_Error | Lock_Lost_Error
  | Stream_Exists_Error | Stream_Not_Found_Error
  \<comment> \<open>fastapi\<close>
  | Http_Exception

record pyexn =
  etype :: string
  emro :: "pyclass list"
  estr :: string
  eretry :: int

text \<open>\<^verbatim>\<open>isinstance(error, (C1, C2, ...))\<close>.\<close>

definition isinstance :: "pyexn \<Rightarrow> pyclass list \<Rightarrow> bool" where
  "isinstance e cs = list_ex (\<lambda>c. List.member (emro e) c) cs"

text \<open>What an \<^verbatim>\<open>except Exception\<close> clause catches; \<^verbatim>\<open>asyncio.CancelledError\<close> is not an
  \<^verbatim>\<open>Exception\<close>.\<close>

abbreviation is_exception :: "pyexn \<Rightarrow> bool" where
  "is_exception e \<equiv> isinstance e [Py_Exception]"

abbreviation is_cancelled :: "pyexn \<Rightarrow> bool" where
  "is_cancelled e \<equiv> isinstance e [Cancelled_Error]"

lemma isinstance_simps [simp]:
  "isinstance e [] = False"
  "isinstance e (c # cs) = (c \<in> set (emro e) \<or> isinstance e cs)"
  by (simp_all add: isinstance_def)

lemma isinstance_append [simp]: "isinstance e (cs @ ds) = (isinstance e cs \<or> isinstance e ds)"
  by (simp add: isinstance_def)

lemma isinstance_iff: "isinstance e cs \<longleftrightarrow> (\<exists>c \<in> set cs. c \<in> set (emro e))"
  by (simp add: isinstance_def list_ex_iff)

subsection \<open>The exceptions the service defines and raises\<close>

definition cancelled_error :: pyexn where
  "cancelled_error = \<lparr>etype = ''CancelledError'', emro = [Cancelled_Error, Base_Exception],
     estr = [], eretry = 0\<rparr>"

definition runtime_error :: "string \<Rightarrow> pyexn" where
  "runtime_error m = \<lparr>etype = ''RuntimeError'',
     emro = [Runtime_Error, Py_Exception, Base_Exception], estr = m, eretry = 0\<rparr>"

definition value_error :: "string \<Rightarrow> pyexn" where
  "value_error m = \<lparr>etype = ''ValueError'',
     emro = [Value_Error, Py_Exception, Base_Exception], estr = m, eretry = 0\<rparr>"

definition timeout_error :: "string \<Rightarrow> pyexn" where
  "timeout_error m = \<lparr>etype = ''TimeoutError'',
     emro = [Timeout_Error, Os_Error, Py_Exception, Base_Exception], estr = m, eretry = 0\<rparr>"

text \<open>src/stream/exceptions.py.\<close>

definition kafka_delivery_error :: "string \<Rightarrow> pyexn" where
  "kafka_delivery_error m = \<lparr>etype = ''KafkaDeliveryError'',
     emro = [Kafka_Delivery_Error, Runtime_Error, Py_Exception, Base_Exception],
     estr = m, eretry = 0\<rparr>"

definition circuit_open_error :: "int \<Rightarrow> pyexn" where
  "circuit_open_error retry_after = \<lparr>etype = ''CircuitOpenError'',
     emro = [Circuit_Open_Error, Runtime_Error, Py_Exception, Base_Exception],
     estr = ''Circuit breaker OPEN. Retry in '' @ show_int retry_after @ ''s'',
     eretry = retry_after\<rparr>"

definition lock_lost_error :: "string \<Rightarrow> pyexn" where
  "lock_lost_error m = \<lparr>etype = ''LockLostError'',
     emro = [Lock_Lost_Error, Runtime_Error, Py_Exception, Base_Exception], estr = m, eretry = 0\<rparr>"

text \<open>src/repositories/stream_registry.py.\<close>

definition stream_exists_error :: "string \<Rightarrow> pyexn" where
  "stream_exists_error m = \<lparr>etype = ''StreamExistsError'',
     emro = [Stream_Exists_Error, Py_Exception, Base_Exception], estr = m, eretry = 0\<rparr>"

definition stream_not_found_error :: "string \<Rightarrow> pyexn" where
  "stream_not_found_error stream_id = \<lparr>etype = ''StreamNotFoundError'',
     emro = [Stream_Not_Found_Error, Py_Exception, Base_Exception], estr = stream_id, eretry = 0\<rparr>"

text \<open>What a client library raises when a server answers with something the call cannot
  mean (a Redis WRONGTYPE reply); its class is in no \<^verbatim>\<open>except\<close> clause but the general one.\<close>

definition response_error :: pyexn where
  "response_error = \<lparr>etype = ''ResponseError'', emro = [Py_Exception, Base_Exception],
     estr = [], eretry = 0\<rparr>"

lemmas exn_defs =
  cancelled_error_def runtime_error_def value_error_def timeout_error_def
  kafka_delivery_error_def circuit_open_error_def lock_lost_error_def
  stream_exists_error_def stream_not_found_error_def response_error_def

lemma emro_simps [simp]:
  "emro cancelled_error = [Cancelled_Error, Base_Exception]"
  "emro (runtime_error m) = [Runtime_Error, Py_Exception, Base_Exception]"
  "emro (value_error m) = [Value_Error, Py_Exception, Base_Exception]"
  "emro (timeout_error m) = [Timeout_Error, Os_Error, Py_Exception, Base_Exception]"
  "emro (kafka_delivery_error m) = [Kafka_Delivery_Error, Runtime_Error, Py_Exception, Base_Exception]"
  "emro (circuit_open_error n) = [Circuit_Open_Error, Runtime_Error, Py_Exception, Base_Exception]"
  "emro (lock_lost_error m) = [Lock_Lost_Error, Runtime_Error, Py_Exception, Base_Exception]"
  "emro (stream_exists_error m) = [Stream_Exists_Error, Py_Exception, Base_Exception]"
  "emro (stream_not_found_error m) = [Stream_Not_Found_Error, Py_Exception, Base_Exception]"
  "emro response_error = [Py_Exception, Base_Exception]"
  by (simp_all add: exn_defs)

end
