(* ===== verification/Iso_Time.thy ===== *)
theory Iso_Time
  imports Prelude
begin

section \<open>Timestamps: Python's datetime and its ISO-8601 text\<close>

text \<open>
  The service stamps everything it stores with
  \<^verbatim>\<open>datetime.now(UTC).replace(tzinfo=None).isoformat() + "Z"\<close> (\<^verbatim>\<open>_now_iso\<close> in
  src/repositories/stream_registry.py and its copies in the worker and the error
  handler) and reads such text back with \<^verbatim>\<open>datetime.fromisoformat\<close>. This theory
  models the part of the standard library's \<^verbatim>\<open>datetime\<close> the code uses: the record of
  fields, its validity, \<^verbatim>\<open>isoformat\<close>, \<^verbatim>\<open>fromisoformat\<close> on the extended format
  (date, any separator, time with an optional fraction, optional Z or offset) and the
  difference of two values in microseconds. Text in the other formats that
  \<^verbatim>\<open>fromisoformat\<close> knows (basic format, week dates) is outside the model: the
  service never writes it.
\<close>

datatype datetime = DateTime
  (year: nat) (month: nat) (day: nat) (hour: nat) (minute: nat) (second: nat) (micro: nat)
  (tz: "int option")  \<comment> \<open>offset from UTC in minutes; \<open>None\<close> for a naive value\<close>

definition leap_year :: "nat \<Rightarrow> bool" where
  "leap_year y = (y mod 4 = 0 \<and> (y mod 100 \<noteq> 0 \<or> y mod 400 = 0))"

definition days_in_month :: "nat \<Rightarrow> nat \<Rightarrow> nat" where
  "days_in_month y m =
     (if m = 2 then (if leap_year y then 29 else 28)
      else if m \<in> {4, 6, 9, 11} then 30 else 31)"

definition valid_fields :: "nat \<Rightarrow> nat \<Rightarrow> nat \<Rightarrow> nat \<Rightarrow> nat \<Rightarrow> nat \<Rightarrow> nat \<Rightarrow> bool" where
  "valid_fields y mo d h mi s us =
     (1 \<le> y \<and> y \<le> 9999 \<and> 1 \<le> mo \<and> mo \<le> 12 \<and> 1 \<le> d \<and> d \<le> days_in_month y mo
      \<and> h < 24 \<and> mi < 60 \<and> s < 60 \<and> us < 1000000)"

definition valid_datetime :: "datetime \<Rightarrow> bool" where
  "valid_datetime t =
     valid_fields (year t) (month t) (day t) (hour t) (minute t) (second t) (micro t)"

text \<open>The naive value: \<^verbatim>\<open>t.replace(tzinfo=None)\<close>.\<close>

definition naive :: "datetime \<Rightarrow> datetime" where
  "naive t = DateTime (year t) (month t) (day t) (hour t) (minute t) (second t) (micro t) None"

definition with_tz :: "int \<Rightarrow> datetime \<Rightarrow> datetime" where
  "with_tz z t = DateTime (year t) (month t) (day t) (hour t) (minute t) (second t) (micro t) (Some z)"

lemma naive_sel [simp]:
  "year (naive t) = year t" "month (naive t) = month t" "day (naive t) = day t"
  "hour (naive t) = hour t" "minute (naive t) = minute t" "second (naive t) = second t"
  "micro (naive t) = micro t" "tz (naive t) = None"
  by (simp_all add: naive_def)

lemma with_tz_sel [simp]:
  "year (with_tz z t) = year t" "month (with_tz z t) = month t" "day (with_tz z t) = day t"
  "hour (with_tz z t) = hour t" "minute (with_tz z t) = minute t"
  "second (with_tz z t) = second t" "micro (with_tz z t) = micro t" "tz (with_tz z t) = Some z"
  by (simp_all add: with_tz_def)

lemma valid_naive [simp]: "valid_datetime (naive t) = valid_datetime t"
  by (simp add: valid_datetime_def)

subsection \<open>Fixed-width decimal fields\<close>

primrec pad :: "nat \<Rightarrow> nat \<Rightarrow> string" where
  "pad 0 n = []"
| "pad (Suc w) n = pad w (n div 10) @ [digit (n mod 10)]"

definition is_digit :: "char \<Rightarrow> bool" where
  "is_digit c = (48 \<le> (of_char c :: nat) \<and> (of_char c :: nat) \<le> 57)"

definition digit_val :: "char \<Rightarrow> nat" where
  "digit_val c = of_char c - 48"

definition read_nat :: "string \<Rightarrow> nat" where
  "read_nat cs = foldl (\<lambda>a c. 10 * a + digit_val c) 0 cs"

lemma of_char_digit: "d < 10 \<Longrightarrow> (of_char (digit d) :: nat) = 48 + d"
  by (simp add: digit_def)

lemma is_digit_digit [simp]: "d < 10 \<Longrightarrow> is_digit (digit d)"
  by (simp add: is_digit_def of_char_digit)

lemma digit_val_digit [simp]: "d < 10 \<Longrightarrow> digit_val (digit d) = d"
  by (simp add: digit_val_def of_char_digit)

lemma length_pad [simp]: "length (pad w n) = w"
  by (induction w arbitrary: n) auto

lemma pad_digits [simp]: "list_all is_digit (pad w n)"
  by (induction w arbitrary: n) auto

lemma read_nat_append: "read_nat (cs @ [c]) = 10 * read_nat cs + digit_val c"
  by (simp add: read_nat_def)

lemma read_nat_pad [simp]: "n < 10 ^ w \<Longrightarrow> read_nat (pad w n) = n"
proof (induction w arbitrary: n)
  case 0
  then show ?case by (simp add: read_nat_def)
next
  case (Suc w)
  then have "n div 10 < 10 ^ w" by (simp add: div_less_iff_less_mult mult.commute)
  then show ?case by (simp add: read_nat_append Suc.IH)
qed

subsection \<open>isoformat\<close>

definition iso_date :: "datetime \<Rightarrow> string" where
  "iso_date t = pad 4 (year t) @ ''-'' @ pad 2 (month t) @ ''-'' @ pad 2 (day t)"

definition iso_clock :: "datetime \<Rightarrow> string" where
  "iso_clock t = pad 2 (hour t) @ '':'' @ pad 2 (minute t) @ '':'' @ pad 2 (second t)"

definition iso_fraction :: "datetime \<Rightarrow> string" where
  "iso_fraction t = (if micro t = 0 then [] else ''.'' @ pad 6 (micro t))"

text \<open>\<^verbatim>\<open>isoformat()\<close> of a naive value: no fraction when the microseconds are zero.\<close>

definition isoformat :: "datetime \<Rightarrow> string" where
  "isoformat t = iso_date t @ ''T'' @ iso_clock t @ iso_fraction t"

text \<open>\<^verbatim>\<open>datetime.now(UTC).replace(tzinfo=None).isoformat() + "Z"\<close> of a moment.\<close>

definition stamp :: "datetime \<Rightarrow> string" where
  "stamp d = isoformat (naive d) @ ''Z''"

lemma stamp_nonempty [simp]: "stamp d \<noteq> []"
  by (simp add: stamp_def)

subsection \<open>fromisoformat\<close>

definition field :: "nat \<Rightarrow> nat \<Rightarrow> string \<Rightarrow> string" where
  "field i n s = take n (drop i s)"

definition num_field :: "nat \<Rightarrow> nat \<Rightarrow> string \<Rightarrow> nat option" where
  "num_field i n s =
     (if length (field i n s) = n \<and> list_all is_digit (field i n s)
      then Some (read_nat (field i n s)) else None)"

text \<open>A fraction of one or more digits: the first six count, missing ones are zeros.\<close>

definition read_fraction :: "string \<Rightarrow> nat" where
  "read_fraction ds = read_nat (take 6 (ds @ replicate 6 CHR ''0''))"

text \<open>The zone suffix: none, \<^verbatim>\<open>Z\<close>, or \<^verbatim>\<open>+HH:MM\<close> / \<^verbatim>\<open>-HH:MM\<close>.\<close>

definition read_zone :: "string \<Rightarrow> int option option" where
  "read_zone s =
     (if s = [] then Some None
      else if s = ''Z'' then Some (Some 0)
      else if length s = 6 \<and> field 3 1 s = '':'' \<and> (hd s = CHR ''+'' \<or> hd s = CHR ''-'') then
        (case (num_field 1 2 s, num_field 4 2 s) of
           (Some h, Some m) \<Rightarrow>
             if h < 24 \<and> m < 60 then
               Some (Some ((if hd s = CHR ''-'' then -1 else 1) * int (60 * h + m)))
             else None
         | _ \<Rightarrow> None)
      else None)"

text \<open>The optional fraction and the zone, after the seconds.\<close>

definition read_tail :: "string \<Rightarrow> (nat \<times> int option) option" where
  "read_tail s =
     (case s of
        c # r \<Rightarrow>
          if c = CHR ''.'' then
            (let ds = takeWhile is_digit r
             in if ds = [] then None
                else map_option (\<lambda>z. (read_fraction ds, z)) (read_zone (dropWhile is_digit r)))
          else map_option (\<lambda>z. (0, z)) (read_zone s)
      | [] \<Rightarrow> Some (0, None))"

definition fromisoformat :: "string \<Rightarrow> datetime option" where
  "fromisoformat s =
     (case (num_field 0 4 s, num_field 5 2 s, num_field 8 2 s,
            num_field 11 2 s, num_field 14 2 s, num_field 17 2 s) of
        (Some y, Some mo, Some d, Some h, Some mi, Some se) \<Rightarrow>
          if field 4 1 s = ''-'' \<and> field 7 1 s = ''-'' \<and> field 13 1 s = '':'' \<and> field 16 1 s = '':'' then
            (case read_tail (drop 19 s) of
               None \<Rightarrow> None
             | Some (us, z) \<Rightarrow>
                 if valid_fields y mo d h mi se us then Some (DateTime y mo d h mi se us z) else None)
          else None
      | _ \<Rightarrow> None)"

subsection \<open>Reading back what was written\<close>

lemma digit_not_sign [simp]: "\<not> is_digit CHR ''.''" "\<not> is_digit CHR ''Z''" "\<not> is_digit CHR ''+''"
  by (simp_all add: is_digit_def)

lemma takeWhile_pad [simp]:
  "takeWhile is_digit (pad w n @ s) = pad w n @ takeWhile is_digit s"
  "dropWhile is_digit (pad w n @ s) = dropWhile is_digit s"
  using pad_digits [of w n]
  by (auto simp: list_all_iff takeWhile_append dropWhile_append)

lemma read_fraction_pad [simp]: "n < 1000000 \<Longrightarrow> read_fraction (pad 6 n) = n"
  by (simp add: read_fraction_def del: pad.simps)

lemma pad_ne_Nil [simp]: "pad 6 n \<noteq> []"
  by (metis length_pad list.size(3) zero_neq_numeral)

lemma read_tail_written:
  assumes "micro t < 1000000"
    and "read_zone z = Some o'" and "takeWhile is_digit z = []" and "z = [] \<or> hd z \<noteq> CHR ''.''"
  shows "read_tail (iso_fraction t @ z) = Some (micro t, o')"
proof -
  have z: "dropWhile is_digit z = z"
    using assms(3) by (metis append_Nil takeWhile_dropWhile_id)
  have "z = [] \<Longrightarrow> o' = None"
    using assms(2) by (simp add: read_zone_def)
  with assms z show ?thesis
    by (auto simp: read_tail_def iso_fraction_def Let_def simp del: pad.simps split: list.splits)
qed

lemma length_iso_date [simp]: "length (iso_date t) = 10"
  by (simp add: iso_date_def del: pad.simps)

lemma length_iso_clock [simp]: "length (iso_clock t) = 8"
  by (simp add: iso_clock_def del: pad.simps)

lemma num_field_at:
  assumes "s = a @ pad w n @ b" and "length a = i" and "n < 10 ^ w"
  shows "num_field i w s = Some n"
  using assms by (simp add: num_field_def field_def del: pad.simps)

lemma field_at:
  assumes "s = a @ m @ b" and "length a = i" and "length m = w"
  shows "field i w s = m"
  using assms by (simp add: field_def)

lemma days_in_month_le: "days_in_month y m \<le> 31"
  by (simp add: days_in_month_def)

lemma fromisoformat_written:
  assumes v: "valid_datetime t"
    and z: "read_zone z = Some o'" "takeWhile is_digit z = []" "z = [] \<or> hd z \<noteq> CHR ''.''"
  shows "fromisoformat (isoformat t @ z) =
           Some (DateTime (year t) (month t) (day t) (hour t) (minute t) (second t) (micro t) o')"
proof -
  let ?tail = "iso_fraction t @ z"
  let ?s = "isoformat t @ z"
  have b: "year t < 10 ^ 4" "month t < 10 ^ 2" "day t < 10 ^ 2" "hour t < 10 ^ 2"
    "minute t < 10 ^ 2" "second t < 10 ^ 2" "micro t < 1000000"
    using v days_in_month_le [of "year t" "month t"]
    by (simp_all add: valid_datetime_def valid_fields_def)
  note defs = isoformat_def iso_date_def iso_clock_def
  have "num_field 0 4 ?s = Some (year t)" "num_field 5 2 ?s = Some (month t)"
    "num_field 8 2 ?s = Some (day t)" "num_field 11 2 ?s = Some (hour t)"
    "num_field 14 2 ?s = Some (minute t)" "num_field 17 2 ?s = Some (second t)"
    using b by (simp_all add: num_field_def field_def defs del: pad.simps)
  moreover have "field 4 1 ?s = ''-''" "field 7 1 ?s = ''-''" "field 13 1 ?s = '':''" "field 16 1 ?s = '':''"
    by (simp_all add: field_def defs del: pad.simps)
  moreover have "drop 19 ?s = ?tail"
    by (simp add: isoformat_def)
  moreover have "read_tail ?tail = Some (micro t, o')"
    using b(7) z by (rule read_tail_written)
  ultimately show ?thesis
    using v by (simp add: fromisoformat_def valid_datetime_def)
qed

subsection \<open>Differences in microseconds\<close>

definition days_before_year :: "nat \<Rightarrow> nat" where
  "days_before_year y = (let p = y - 1 in 365 * p + p div 4 - p div 100 + p div 400)"

definition days_before_month :: "nat \<Rightarrow> nat \<Rightarrow> nat" where
  "days_before_month y m = (\<Sum>k \<in> {1..<m}. days_in_month y k)"

definition toordinal :: "datetime \<Rightarrow> nat" where
  "toordinal t = days_before_year (year t) + days_before_month (year t) (month t) + day t"

text \<open>Microseconds from the start of the calendar to the instant; a naive value counts as
  UTC, as every reader of the service's text treats it.\<close>

definition to_micros :: "datetime \<Rightarrow> int" where
  "to_micros t =
     (((int (toordinal t) * 24 + int (hour t)) * 60 + int (minute t)) * 60 + int (second t)) * 1000000
     + int (micro t) - (case tz t of None \<Rightarrow> 0 | Some z \<Rightarrow> z * 60000000)"

end
