(* ===== verification/Comment_Message.thy ===== *)
theory Comment_Message
  imports Py_Exn Iso_Time
begin

section \<open>The message published for a comment\<close>

text \<open>
  \<^verbatim>\<open>RedditCommentMessage\<close> of src/models/reddit\_comment.py: a record whose construction
  validates the four fields. Construction is a function into a sum: the validation error
  (pydantic's \<^verbatim>\<open>ValidationError\<close>, which is a \<^verbatim>\<open>ValueError\<close>) or the message. Which of several
  errors its text names is left out.
\<close>

record reddit_comment_message =
  cm_subreddit :: string
  cm_author_id :: string
  cm_text :: string
  cm_timestamp :: string

definition validation_error :: "string \<Rightarrow> pyexn" where
  "validation_error m = \<lparr>etype = ''ValidationError'',
     emro = [Validation_Error, Value_Error, Py_Exception, Base_Exception], estr = m, eretry = 0\<rparr>"

lemma emro_validation_error [simp]:
  "emro (validation_error m) = [Validation_Error, Value_Error, Py_Exception, Base_Exception]"
  by (simp add: validation_error_def)

subsection \<open>The validators\<close>

text \<open>\<^verbatim>\<open>^\d{4}-\d{2}-\d{2}T\d{2}:\d{2}:\d{2}(?:\.\d{1,6})?Z$\<close>, matched in full.\<close>

definition digits_at :: "nat \<Rightarrow> nat \<Rightarrow> string \<Rightarrow> bool" where
  "digits_at i n s = (length (field i n s) = n \<and> list_all is_digit (field i n s))"

definition pattern_tail :: "string \<Rightarrow> bool" where
  "pattern_tail s =
     (s = ''Z'' \<or>
      (case s of
         c # r \<Rightarrow> c = CHR ''.'' \<and>
           (let ds = takeWhile is_digit r
            in 1 \<le> length ds \<and> length ds \<le> 6 \<and> dropWhile is_digit r = ''Z'')
       | [] \<Rightarrow> False))"

definition utc_timestamp_pattern :: "string \<Rightarrow> bool" where
  "utc_timestamp_pattern s =
     (digits_at 0 4 s \<and> field 4 1 s = ''-'' \<and> digits_at 5 2 s \<and> field 7 1 s = ''-'' \<and> digits_at 8 2 s \<and>
      field 10 1 s = ''T'' \<and> digits_at 11 2 s \<and> field 13 1 s = '':'' \<and> digits_at 14 2 s \<and>
      field 16 1 s = '':'' \<and> digits_at 17 2 s \<and> pattern_tail (drop 19 s))"

definition validate_timestamp :: "string \<Rightarrow> pyexn + string" where
  "validate_timestamp value =
     (if \<not> utc_timestamp_pattern value then
        Inl (value_error (''Timestamp must use ISO-8601 UTC format 'YYYY-MM-DDTHH:MM:SS[.ffffff]Z'' @ [CHR 0x27]))
      else case fromisoformat value of
        None \<Rightarrow> Inl (value_error ''Invalid ISO-8601 timestamp format'')
      | Some parsed \<Rightarrow>
          if tz parsed \<noteq> Some 0 then Inl (value_error ''Timestamp must be in UTC'') else Inr value)"

definition validate_subreddit :: "string \<Rightarrow> pyexn + string" where
  "validate_subreddit value =
     (if length value = 0 then Inl (value_error ''Subreddit cannot be empty'')
      else if length value > 255 then Inl (value_error ''Subreddit name too long (max 255 characters)'')
      else Inr value)"

definition validate_author_id :: "string \<Rightarrow> pyexn + string" where
  "validate_author_id value =
     (if length value = 0 then Inl (value_error ''Author ID cannot be empty'')
      else if length value > 255 then Inl (value_error ''Author ID too long (max 255 characters)'')
      else Inr value)"

text \<open>\<^verbatim>\<open>Field(..., min_length=1)\<close>.\<close>

definition validate_text :: "string \<Rightarrow> pyexn + string" where
  "validate_text value =
     (if length value < 1 then Inl (value_error ''String should have at least 1 character'') else Inr value)"

fun first_error :: "(pyexn + string) list \<Rightarrow> pyexn option" where
  "first_error [] = None"
| "first_error (Inl e # rs) = Some e"
| "first_error (Inr x # rs) = first_error rs"

definition comment_message :: "string \<Rightarrow> string \<Rightarrow> string \<Rightarrow> string \<Rightarrow> pyexn + reddit_comment_message" where
  "comment_message subreddit author_id text timestamp =
     (case first_error [validate_subreddit subreddit, validate_author_id author_id,
                        validate_text text, validate_timestamp timestamp] of
        Some e \<Rightarrow> Inl (validation_error (estr e))
      | None \<Rightarrow> Inr \<lparr>cm_subreddit = subreddit, cm_author_id = author_id, cm_text = text,
                      cm_timestamp = timestamp\<rparr>)"

subsection \<open>What a message guarantees\<close>

definition message_ok :: "reddit_comment_message \<Rightarrow> bool" where
  "message_ok m =
     (cm_subreddit m \<noteq> [] \<and> length (cm_subreddit m) \<le> 255 \<and>
      cm_author_id m \<noteq> [] \<and> length (cm_author_id m) \<le> 255 \<and> cm_text m \<noteq> [] \<and>
      (\<exists>d. fromisoformat (cm_timestamp m) = Some d \<and> valid_datetime d \<and> tz d = Some 0))"

lemma fromisoformat_valid: "fromisoformat s = Some d \<Longrightarrow> valid_datetime d"
  by (auto simp: fromisoformat_def valid_datetime_def split: option.splits if_splits)

lemma validators_ok:
  "validate_subreddit x = Inr y \<longleftrightarrow> x = y \<and> x \<noteq> [] \<and> length x \<le> 255"
  "validate_author_id x = Inr y \<longleftrightarrow> x = y \<and> x \<noteq> [] \<and> length x \<le> 255"
  "validate_text x = Inr y \<longleftrightarrow> x = y \<and> x \<noteq> []"
  by (auto simp: validate_subreddit_def validate_author_id_def validate_text_def)

lemma validate_timestamp_ok:
  "validate_timestamp x = Inr y \<longleftrightarrow>
     x = y \<and> utc_timestamp_pattern x \<and> (\<exists>d. fromisoformat x = Some d \<and> tz d = Some 0)"
  by (auto simp: validate_timestamp_def split: option.splits)

lemma first_error_None: "first_error rs = None \<longleftrightarrow> (\<forall>r \<in> set rs. \<exists>x. r = Inr x)"
  by (induction rs rule: first_error.induct) auto

lemma comment_message_Inr:
  "comment_message sub a txt ts = Inr m \<longleftrightarrow>
     m = \<lparr>cm_subreddit = sub, cm_author_id = a, cm_text = txt, cm_timestamp = ts\<rparr> \<and>
     sub \<noteq> [] \<and> length sub \<le> 255 \<and> a \<noteq> [] \<and> length a \<le> 255 \<and> txt \<noteq> [] \<and>
     utc_timestamp_pattern ts \<and> (\<exists>d. fromisoformat ts = Some d \<and> tz d = Some 0)"
  using first_error_None [of "[validate_subreddit sub, validate_author_id a, validate_text txt, validate_timestamp ts]"]
  by (auto simp: comment_message_def validators_ok validate_timestamp_ok simp del: first_error.simps
      split: option.splits)

lemma message_is_ok: "comment_message sub a txt ts = Inr m \<Longrightarrow> message_ok m"
  by (auto simp: comment_message_Inr message_ok_def intro: fromisoformat_valid)

subsection \<open>The timestamps the service writes\<close>

lemma pattern_written:
  assumes "valid_datetime t"
  shows "utc_timestamp_pattern (isoformat t @ ''Z'')"
proof -
  let ?s = "isoformat t @ ''Z''"
  have b: "micro t < 1000000"
    using assms by (simp add: valid_datetime_def valid_fields_def)
  note defs = isoformat_def iso_date_def iso_clock_def
  have "digits_at 0 4 ?s" "digits_at 5 2 ?s" "digits_at 8 2 ?s" "digits_at 11 2 ?s" "digits_at 14 2 ?s"
    "digits_at 17 2 ?s"
    by (simp_all add: digits_at_def field_def defs del: pad.simps)
  moreover have "field 4 1 ?s = ''-''" "field 7 1 ?s = ''-''" "field 10 1 ?s = ''T''"
    "field 13 1 ?s = '':''" "field 16 1 ?s = '':''"
    by (simp_all add: field_def defs del: pad.simps)
  moreover have "pattern_tail (iso_fraction t @ ''Z'')"
    by (auto simp: pattern_tail_def iso_fraction_def simp del: pad.simps)
  moreover have "drop 19 ?s = iso_fraction t @ ''Z''"
    by (simp add: isoformat_def)
  ultimately show ?thesis by (simp add: utc_timestamp_pattern_def)
qed

lemma read_zone_Z [simp]: "read_zone ''Z'' = Some (Some 0)"
  by (simp add: read_zone_def)

lemma stamp_read:
  "valid_datetime t \<Longrightarrow> fromisoformat (stamp t) =
     Some (DateTime (year t) (month t) (day t) (hour t) (minute t) (second t) (micro t) (Some 0))"
  using fromisoformat_written [of "naive t" "''Z''" "Some 0"] by (simp add: stamp_def)

lemma stamp_valid: "valid_datetime t \<Longrightarrow> validate_timestamp (stamp t) = Inr (stamp t)"
  using pattern_written [of "naive t"] stamp_read [of t]
  by (simp add: validate_timestamp_ok) (simp add: stamp_def)

lemma stamped_message:
  assumes "valid_datetime t" and "sub \<noteq> []" "length sub \<le> 255" and "a \<noteq> []" "length a \<le> 255" and "txt \<noteq> []"
  shows "comment_message sub a txt (stamp t) =
    Inr \<lparr>cm_subreddit = sub, cm_author_id = a, cm_text = txt, cm_timestamp = stamp t\<rparr>"
  using assms stamp_valid [of t] by (simp add: comment_message_Inr validate_timestamp_ok)

end
