(* ===== verification/Redis_Store.thy ===== *)
theory Redis_Store
  imports Prelude
begin

section \<open>Redis: what its documentation promises for the commands the service sends\<close>

text \<open>
  Redis is not part of the repository. This theory writes down the documented reply and
  effect of each command the source sends, as a function on a view of the key space.
  It is the content of a hypothesis (\<open>documented\<close> in theory Services), never the
  definition of the server: the programs are run against a server that is a
  parameter, and the theorems assume only that its replies agree with this view.

  The view keeps the live keys with their values, the expiry deadline of the keys that
  have one, and the server's clock in milliseconds.
\<close>

datatype rval = VStr string | VHash dict | VSet "string list" | VList "string list"

record rdb =
  rkeys :: "string \<Rightarrow> rval option"
  rttl :: "string \<Rightarrow> int option"
  rclock :: int

text \<open>The Lua scripts of the source, each with its KEYS and ARGV in their order
  (src/stream/lock.py and src/repositories/stream_registry.py); theory Lua\_Scripts
  translates their bodies.\<close>

datatype script =
    Refresh_If_Owner string string int
  | Delete_If_Owner string string
  | Delete_Stream_If_Unchanged string string string string string string string string string string
  | Heartbeat_If_Active string string string string string
  | Update_Status_If_Owner string string string string
  | Finalize_Stop_If_Unowned string string string string

datatype rcmd =
    Get string
  | Set_Plain string string
  | Set_Nx string string "int option"
  | Exists string
  | Del "string list"
  | Hget string string
  | Hgetall string
  | Hset string dict
  | Sadd string string
  | Srem string "string list"
  | Smembers string
  | Pipeline_Hgetall "string list"
  | Expire string int
  | Lpush string string
  | Ltrim string int int
  | Llen string
  | Lrange string int int
  | Ping
  | Eval script

datatype rreply =
    RNil | ROk | RInt int | RBulk string | RHash dict | RSet "string list"
  | RList "string list" | RHashes "dict list"

subsection \<open>Time and expiry\<close>

definition expired :: "int \<Rightarrow> rdb \<Rightarrow> string \<Rightarrow> bool" where
  "expired t s k = (case rttl s k of None \<Rightarrow> False | Some d \<Rightarrow> d \<le> t)"

text \<open>The key space when the server's clock reaches \<open>t\<close>: keys whose deadline has passed
  are gone.\<close>

definition at_time :: "int \<Rightarrow> rdb \<Rightarrow> rdb" where
  "at_time t s =
     \<lparr>rkeys = (\<lambda>k. if expired t s k then None else rkeys s k),
      rttl = (\<lambda>k. if expired t s k then None else rttl s k),
      rclock = t\<rparr>"

subsection \<open>Key space primitives\<close>

definition put_key :: "string \<Rightarrow> rval \<Rightarrow> rdb \<Rightarrow> rdb" where
  "put_key k v s = s\<lparr>rkeys := (rkeys s)(k \<mapsto> v)\<rparr>"

definition set_ttl :: "string \<Rightarrow> int option \<Rightarrow> rdb \<Rightarrow> rdb" where
  "set_ttl k d s = s\<lparr>rttl := (rttl s)(k := d)\<rparr>"

definition del_key :: "string \<Rightarrow> rdb \<Rightarrow> rdb" where
  "del_key k s = s\<lparr>rkeys := (rkeys s)(k := None), rttl := (rttl s)(k := None)\<rparr>"

definition live :: "rdb \<Rightarrow> string \<Rightarrow> bool" where
  "live s k = (rkeys s k \<noteq> None)"

definition str_at :: "rdb \<Rightarrow> string \<Rightarrow> string option" where
  "str_at s k = (case rkeys s k of Some (VStr v) \<Rightarrow> Some v | _ \<Rightarrow> None)"

definition hash_at :: "rdb \<Rightarrow> string \<Rightarrow> dict" where
  "hash_at s k = (case rkeys s k of Some (VHash h) \<Rightarrow> h | _ \<Rightarrow> [])"

definition set_at :: "rdb \<Rightarrow> string \<Rightarrow> string list" where
  "set_at s k = (case rkeys s k of Some (VSet m) \<Rightarrow> m | _ \<Rightarrow> [])"

definition list_at :: "rdb \<Rightarrow> string \<Rightarrow> string list" where
  "list_at s k = (case rkeys s k of Some (VList l) \<Rightarrow> l | _ \<Rightarrow> [])"

text \<open>The value of a key when it has the type the command expects, absent keys reading as
  the empty value; otherwise the command fails with WRONGTYPE.\<close>

definition is_str :: "rdb \<Rightarrow> string \<Rightarrow> bool" where
  "is_str s k = (case rkeys s k of None \<Rightarrow> True | Some (VStr _) \<Rightarrow> True | _ \<Rightarrow> False)"

definition is_hash :: "rdb \<Rightarrow> string \<Rightarrow> bool" where
  "is_hash s k = (case rkeys s k of None \<Rightarrow> True | Some (VHash _) \<Rightarrow> True | _ \<Rightarrow> False)"

definition is_set :: "rdb \<Rightarrow> string \<Rightarrow> bool" where
  "is_set s k = (case rkeys s k of None \<Rightarrow> True | Some (VSet _) \<Rightarrow> True | _ \<Rightarrow> False)"

definition is_list :: "rdb \<Rightarrow> string \<Rightarrow> bool" where
  "is_list s k = (case rkeys s k of None \<Rightarrow> True | Some (VList _) \<Rightarrow> True | _ \<Rightarrow> False)"

text \<open>Writing back a collection: an empty collection is no key at all.\<close>

definition put_set :: "string \<Rightarrow> string list \<Rightarrow> rdb \<Rightarrow> rdb" where
  "put_set k m s = (if m = [] then del_key k s else put_key k (VSet m) s)"

definition put_list :: "string \<Rightarrow> string list \<Rightarrow> rdb \<Rightarrow> rdb" where
  "put_list k l s = (if l = [] then del_key k s else put_key k (VList l) s)"

text \<open>LRANGE and LTRIM: indices from 0, negative ones from the end, both ends inclusive.\<close>

definition list_range :: "int \<Rightarrow> int \<Rightarrow> 'a list \<Rightarrow> 'a list" where
  "list_range a b l =
     (let n = int (length l);
          i = (if a < 0 then max 0 (n + a) else a);
          j = (if b < 0 then n + b else b)
      in take (nat (j - i + 1)) (drop (nat i) l))"

subsection \<open>Replies and effects\<close>

text \<open>\<open>None\<close> for the reply is an error reply (WRONGTYPE); the key space is then unchanged.\<close>

fun redis_prim :: "rcmd \<Rightarrow> rdb \<Rightarrow> rreply option \<times> rdb" where
  "redis_prim (Get k) s =
     (if is_str s k then (Some (case str_at s k of None \<Rightarrow> RNil | Some v \<Rightarrow> RBulk v), s)
      else (None, s))"
| "redis_prim (Set_Plain k v) s = (Some ROk, set_ttl k None (put_key k (VStr v) s))"
| "redis_prim (Set_Nx k v ex) s =
     (if live s k then (Some RNil, s)
      else (Some ROk, set_ttl k (map_option (\<lambda>e. rclock s + 1000 * e) ex) (put_key k (VStr v) s)))"
| "redis_prim (Exists k) s = (Some (RInt (if live s k then 1 else 0)), s)"
| "redis_prim (Del ks) s =
     (Some (RInt (int (length (filter (live s) (remdups ks))))), fold del_key ks s)"
| "redis_prim (Hget k f) s =
     (if is_hash s k
      then (Some (case map_of (hash_at s k) f of None \<Rightarrow> RNil | Some v \<Rightarrow> RBulk v), s)
      else (None, s))"
| "redis_prim (Hgetall k) s = (if is_hash s k then (Some (RHash (hash_at s k)), s) else (None, s))"
| "redis_prim (Hset k m) s =
     (if is_hash s k \<and> m \<noteq> []
      then (Some (RInt (int (length (dict_update m (hash_at s k))) - int (length (hash_at s k)))),
            put_key k (VHash (dict_update m (hash_at s k))) s)
      else (None, s))"
| "redis_prim (Sadd k x) s =
     (if is_set s k
      then (Some (RInt (if x \<in> set (set_at s k) then 0 else 1)),
            put_set k (List.insert x (set_at s k)) s)
      else (None, s))"
| "redis_prim (Srem k xs) s =
     (if is_set s k
      then (Some (RInt (int (length (filter (\<lambda>x. x \<in> set xs) (set_at s k))))),
            put_set k (filter (\<lambda>x. x \<notin> set xs) (set_at s k)) s)
      else (None, s))"
| "redis_prim (Smembers k) s = (if is_set s k then (Some (RSet (set_at s k)), s) else (None, s))"
| "redis_prim (Pipeline_Hgetall ks) s =
     (if list_all (is_hash s) ks then (Some (RHashes (map (hash_at s) ks)), s) else (None, s))"
| "redis_prim (Expire k e) s =
     (if \<not> live s k then (Some (RInt 0), s)
      else if e \<le> 0 then (Some (RInt 1), del_key k s)
      else (Some (RInt 1), set_ttl k (Some (rclock s + 1000 * e)) s))"
| "redis_prim (Lpush k x) s =
     (if is_list s k
      then (Some (RInt (int (length (list_at s k)) + 1)), put_list k (x # list_at s k) s)
      else (None, s))"
| "redis_prim (Ltrim k a b) s =
     (if is_list s k then (Some ROk, put_list k (list_range a b (list_at s k)) s) else (None, s))"
| "redis_prim (Llen k) s =
     (if is_list s k then (Some (RInt (int (length (list_at s k)))), s) else (None, s))"
| "redis_prim (Lrange k a b) s =
     (if is_list s k then (Some (RList (list_range a b (list_at s k))), s) else (None, s))"
| "redis_prim Ping s = (Some ROk, s)"
| "redis_prim (Eval sc) s = (None, s)"  \<comment> \<open>a script cannot call EVAL\<close>

text \<open>Sets and hashes are unordered: a reply may list them in any order.\<close>

fun same_reply :: "rreply \<Rightarrow> rreply \<Rightarrow> bool" where
  "same_reply (RSet xs) (RSet ys) = (distinct xs \<and> set xs = set ys)"
| "same_reply (RHash d) (RHash e) = (map_of d = map_of e)"
| "same_reply (RHashes ds) (RHashes es) = list_all2 (\<lambda>d e. map_of d = map_of e) ds es"
| "same_reply r r' = (r = r')"

subsection \<open>Reading a key after a write\<close>

lemma at_time_sel [simp]:
  "rclock (at_time t s) = t"
  "rkeys (at_time t s) k = (if expired t s k then None else rkeys s k)"
  "rttl (at_time t s) k = (if expired t s k then None else rttl s k)"
  by (simp_all add: at_time_def)

lemma no_ttl_not_expired [simp]: "rttl s k = None \<Longrightarrow> \<not> expired t s k"
  by (simp add: expired_def)

lemma put_key_sel [simp]:
  "rkeys (put_key k v s) k' = (if k' = k then Some v else rkeys s k')"
  "rttl (put_key k v s) = rttl s"
  "rclock (put_key k v s) = rclock s"
  by (simp_all add: put_key_def)

lemma set_ttl_sel [simp]:
  "rkeys (set_ttl k d s) = rkeys s"
  "rttl (set_ttl k d s) k' = (if k' = k then d else rttl s k')"
  "rclock (set_ttl k d s) = rclock s"
  by (simp_all add: set_ttl_def)

lemma del_key_sel [simp]:
  "rkeys (del_key k s) k' = (if k' = k then None else rkeys s k')"
  "rttl (del_key k s) k' = (if k' = k then None else rttl s k')"
  "rclock (del_key k s) = rclock s"
  by (simp_all add: del_key_def)

lemma fold_del_key_sel [simp]:
  "rkeys (fold del_key ks s) k' = (if k' \<in> set ks then None else rkeys s k')"
  "rttl (fold del_key ks s) k' = (if k' \<in> set ks then None else rttl s k')"
  "rclock (fold del_key ks s) = rclock s"
  by (induction ks arbitrary: s) auto

lemma put_set_sel [simp]:
  "k' \<noteq> k \<Longrightarrow> rkeys (put_set k m s) k' = rkeys s k'"
  "k' \<noteq> k \<Longrightarrow> rttl (put_set k m s) k' = rttl s k'"
  "rclock (put_set k m s) = rclock s"
  by (simp_all add: put_set_def)

lemma put_list_sel [simp]:
  "k' \<noteq> k \<Longrightarrow> rkeys (put_list k m s) k' = rkeys s k'"
  "k' \<noteq> k \<Longrightarrow> rttl (put_list k m s) k' = rttl s k'"
  "rclock (put_list k m s) = rclock s"
  by (simp_all add: put_list_def)

lemma set_at_put_set [simp]: "set_at (put_set k m s) k = m"
  by (simp add: put_set_def set_at_def)

lemma list_at_put_list [simp]: "list_at (put_list k l s) k = l"
  by (simp add: put_list_def list_at_def)

text \<open>The typed readings depend on the key alone.\<close>

lemma readings_cong:
  "rkeys s k = rkeys s' k \<Longrightarrow> str_at s k = str_at s' k"
  "rkeys s k = rkeys s' k \<Longrightarrow> hash_at s k = hash_at s' k"
  "rkeys s k = rkeys s' k \<Longrightarrow> set_at s k = set_at s' k"
  "rkeys s k = rkeys s' k \<Longrightarrow> list_at s k = list_at s' k"
  "rkeys s k = rkeys s' k \<Longrightarrow> live s k = live s' k"
  by (simp_all add: str_at_def hash_at_def set_at_def list_at_def live_def)

lemmas readings = str_at_def hash_at_def set_at_def list_at_def live_def
  is_str_def is_hash_def is_set_def is_list_def

lemma redis_prim_clock: "rclock (snd (redis_prim c s)) = rclock s"
  by (cases c) auto

lemma length_list_range_le: "length (list_range a b l) \<le> nat (b - a + 1)" if "0 \<le> a" "0 \<le> b"
  using that by (simp add: list_range_def Let_def)

lemma list_range_from_0: "0 \<le> n \<Longrightarrow> list_range 0 (n - 1) l = take (nat n) l" if "0 < n"
  using that by (simp add: list_range_def Let_def)

end
