(* ===== verification/Lua_Scripts.thy ===== *)
theory Lua_Scripts
  imports Redis_Store
begin

section \<open>The Lua scripts\<close>

text \<open>
  The six scripts that src/stream/lock.py and src/repositories/stream_registry.py send
  with EVAL. Each is translated statement by statement over a function \<open>call\<close> that
  stands for \<^verbatim>\<open>redis.call\<close>; a failing command aborts the script. A bulk reply equals an
  ARGV string exactly when it carries that string; a missing field reads as \<^verbatim>\<open>false\<close>, which
  differs from every string.
\<close>

type_synonym key = string
type_synonym argument = string
type_synonym ('s, 'a) lua = "'s \<Rightarrow> 'a option \<times> 's"

definition lua_ret :: "'a \<Rightarrow> ('s, 'a) lua" where
  "lua_ret x s = (Some x, s)"

definition lua_bind :: "('s, 'a) lua \<Rightarrow> ('a \<Rightarrow> ('s, 'b) lua) \<Rightarrow> ('s, 'b) lua" where
  "lua_bind m f s = (case m s of (None, s') \<Rightarrow> (None, s') | (Some x, s') \<Rightarrow> f x s')"

text \<open>\<^verbatim>\<open>ARGV[i] ~= "" and redis.call("hget", key, field) ~= ARGV[i]\<close>.\<close>

definition expected_differs ::
    "(rcmd \<Rightarrow> ('s, rreply) lua) \<Rightarrow> string \<Rightarrow> string \<Rightarrow> string \<Rightarrow> ('s, bool) lua" where
  "expected_differs call key fld argv =
     (if argv = [] then lua_ret False
      else lua_bind (call (Hget key fld)) (\<lambda>r. lua_ret (r \<noteq> RBulk argv)))"

definition refresh_if_owner_script ::
    "(rcmd \<Rightarrow> ('s, rreply) lua) \<Rightarrow> string \<Rightarrow> string \<Rightarrow> int \<Rightarrow> ('s, rreply) lua" where
  "refresh_if_owner_script call key1 argv1 argv2 =
     lua_bind (call (Get key1)) (\<lambda>r.
       if r = RBulk argv1 then call (Expire key1 argv2) else lua_ret (RInt 0))"

definition delete_if_owner_script ::
    "(rcmd \<Rightarrow> ('s, rreply) lua) \<Rightarrow> string \<Rightarrow> string \<Rightarrow> ('s, rreply) lua" where
  "delete_if_owner_script call key1 argv1 =
     lua_bind (call (Get key1)) (\<lambda>r.
       if r = RBulk argv1 then call (Del [key1]) else lua_ret (RInt 0))"

definition delete_stream_if_unchanged_script ::
    "(rcmd \<Rightarrow> ('s, rreply) lua) \<Rightarrow> key \<Rightarrow> key \<Rightarrow> key \<Rightarrow> key \<Rightarrow> key \<Rightarrow> key
      \<Rightarrow> argument \<Rightarrow> argument \<Rightarrow> argument \<Rightarrow> argument \<Rightarrow> ('s, rreply) lua" where
  "delete_stream_if_unchanged_script call key1 key2 key3 key4 key5 key6 argv1 argv2 argv3 argv4 =
     lua_bind (call (Exists key1)) (\<lambda>r.
       if r = RInt 0 then lua_ret (RInt 0) else
     lua_bind (expected_differs call key1 ''status'' argv2) (\<lambda>changed.
       if changed then lua_ret (RInt 0) else
     lua_bind (expected_differs call key1 ''updated_at'' argv3) (\<lambda>changed.
       if changed then lua_ret (RInt 0) else
     lua_bind (lua_bind (call (Get key4)) (\<lambda>r.
       if r = RBulk argv1 then call (Del [key4]) else lua_ret RNil)) (\<lambda>_.
     lua_bind (call (Set_Plain key6 argv1)) (\<lambda>_.
     lua_bind (call (Del [key1, key3])) (\<lambda>_.
     lua_bind (call (Srem key5 [argv1])) (\<lambda>_.
     lua_bind (if argv4 = ''1'' then call (Del [key2, key6]) else lua_ret RNil) (\<lambda>_.
     lua_ret (RInt 1)))))))))"

definition heartbeat_if_active_script ::
    "(rcmd \<Rightarrow> ('s, rreply) lua) \<Rightarrow> string \<Rightarrow> string \<Rightarrow> string \<Rightarrow> string \<Rightarrow> string
      \<Rightarrow> ('s, rreply) lua" where
  "heartbeat_if_active_script call key1 key2 argv1 argv2 argv3 =
     lua_bind (call (Hget key1 ''instance_id'')) (\<lambda>r.
       if r \<noteq> RBulk argv1 then lua_ret (RInt 0) else
     lua_bind (call (Hget key1 ''status'')) (\<lambda>r.
       if r \<noteq> RBulk ''active'' then lua_ret (RInt 0) else
     lua_bind (call (Hset key1 [(''updated_at'', argv2)])) (\<lambda>_.
     lua_bind (call (Sadd key2 argv3)) (\<lambda>_.
     lua_ret (RInt 1)))))"

definition update_status_if_owner_script ::
    "(rcmd \<Rightarrow> ('s, rreply) lua) \<Rightarrow> string \<Rightarrow> string \<Rightarrow> string \<Rightarrow> string \<Rightarrow> ('s, rreply) lua" where
  "update_status_if_owner_script call key1 argv1 argv2 argv3 =
     lua_bind (call (Exists key1)) (\<lambda>r.
       if r = RInt 0 then lua_ret (RInt 0) else
     lua_bind (call (Hget key1 ''instance_id'')) (\<lambda>r.
       if r \<noteq> RBulk argv1 then lua_ret (RInt 0) else
     lua_bind (call (Hset key1 [(''status'', argv2), (''updated_at'', argv3)])) (\<lambda>_.
     lua_ret (RInt 1))))"

definition finalize_stop_if_unowned_script ::
    "(rcmd \<Rightarrow> ('s, rreply) lua) \<Rightarrow> string \<Rightarrow> string \<Rightarrow> string \<Rightarrow> string \<Rightarrow> ('s, rreply) lua" where
  "finalize_stop_if_unowned_script call key1 key2 argv1 argv2 =
     lua_bind (call (Exists key1)) (\<lambda>r.
       if r = RInt 0 then lua_ret (RInt 0) else
     lua_bind (call (Hget key1 ''status'')) (\<lambda>r.
       if r \<noteq> RBulk ''stopping'' then lua_ret (RInt 0) else
     lua_bind (call (Hget key1 ''updated_at'')) (\<lambda>r.
       if r \<noteq> RBulk argv1 then lua_ret (RInt 0) else
     lua_bind (call (Exists key2)) (\<lambda>r.
       if r = RInt 1 then lua_ret (RInt 0) else
     lua_bind (call (Hset key1 [(''status'', ''stopped''), (''updated_at'', argv2)])) (\<lambda>_.
     lua_ret (RInt 1))))))"

fun eval_script :: "(rcmd \<Rightarrow> ('s, rreply) lua) \<Rightarrow> script \<Rightarrow> ('s, rreply) lua" where
  "eval_script call (Refresh_If_Owner k a1 a2) = refresh_if_owner_script call k a1 a2"
| "eval_script call (Delete_If_Owner k a1) = delete_if_owner_script call k a1"
| "eval_script call (Delete_Stream_If_Unchanged k1 k2 k3 k4 k5 k6 a1 a2 a3 a4) =
     delete_stream_if_unchanged_script call k1 k2 k3 k4 k5 k6 a1 a2 a3 a4"
| "eval_script call (Heartbeat_If_Active k1 k2 a1 a2 a3) =
     heartbeat_if_active_script call k1 k2 a1 a2 a3"
| "eval_script call (Update_Status_If_Owner k1 a1 a2 a3) =
     update_status_if_owner_script call k1 a1 a2 a3"
| "eval_script call (Finalize_Stop_If_Unowned k1 k2 a1 a2) =
     finalize_stop_if_unowned_script call k1 k2 a1 a2"

text \<open>What the server does with a command: a script runs as one atomic step.\<close>

fun redis_doc :: "rcmd \<Rightarrow> rdb \<Rightarrow> rreply option \<times> rdb" where
  "redis_doc (Eval sc) s = eval_script redis_prim sc s"
| "redis_doc c s = redis_prim c s"

subsection \<open>The scripts in closed form\<close>

lemmas lua_simps = lua_ret_def lua_bind_def expected_differs_def

lemma bulk_case [simp]:
  "((case x of None \<Rightarrow> RNil | Some v \<Rightarrow> RBulk v) = RBulk a) = (x = Some a)"
  by (cases x) auto

lemma refresh_closed:
  assumes "0 < e"
  shows "redis_doc (Eval (Refresh_If_Owner k a e)) s =
    (if \<not> is_str s k then (None, s)
     else if str_at s k = Some a then (Some (RInt 1), set_ttl k (Some (rclock s + 1000 * e)) s)
     else (Some (RInt 0), s))"
  using assms by (auto simp: refresh_if_owner_script_def lua_simps str_at_def live_def split: option.splits)

lemma delete_owner_closed:
  "redis_doc (Eval (Delete_If_Owner k a)) s =
    (if \<not> is_str s k then (None, s)
     else if str_at s k = Some a then (Some (RInt 1), del_key k s)
     else (Some (RInt 0), s))"
  by (auto simp: delete_if_owner_script_def lua_simps str_at_def live_def split: option.splits)

definition hash_field :: "rdb \<Rightarrow> string \<Rightarrow> string \<Rightarrow> string option" where
  "hash_field s k f = map_of (hash_at s k) f"

text \<open>The stream's snapshot is the one the caller saw: an empty expectation is no
  expectation.\<close>

definition unchanged :: "rdb \<Rightarrow> string \<Rightarrow> string \<Rightarrow> string \<Rightarrow> bool" where
  "unchanged s k st up =
     ((st = [] \<or> hash_field s k ''status'' = Some st) \<and>
      (up = [] \<or> hash_field s k ''updated_at'' = Some up))"

lemma delete_stream_closed:
  assumes "is_hash s k1" and "is_str s k4" and "is_set s k5" and "distinct [k1, k2, k3, k4, k5, k6]"
  shows "redis_doc (Eval (Delete_Stream_If_Unchanged k1 k2 k3 k4 k5 k6 sid st up purge)) s =
    (if live s k1 \<and> unchanged s k1 st up
     then (Some (RInt 1),
       (let s1 = (if str_at s k4 = Some sid then del_key k4 s else s);
            s2 = set_ttl k6 None (put_key k6 (VStr sid) s1);
            s3 = del_key k3 (del_key k1 s2);
            s4 = put_set k5 (filter (\<lambda>x. x \<noteq> sid) (set_at s k5)) s3
        in if purge = ''1'' then del_key k6 (del_key k2 s4) else s4))
     else (Some (RInt 0), s))"
proof -
  have d: "k1 \<noteq> k4" "k1 \<noteq> k5" "k1 \<noteq> k6" "k3 \<noteq> k5" "k4 \<noteq> k5" "k5 \<noteq> k6"
    using assms(4) by auto
  have set5: "set_at (del_key k3 (del_key k1 (set_ttl k6 None (put_key k6 (VStr sid)
      (if b then del_key k4 s else s))))) k5 = set_at s k5"
    and is5: "is_set (del_key k3 (del_key k1 (set_ttl k6 None (put_key k6 (VStr sid)
      (if b then del_key k4 s else s))))) k5" for b
    using d assms(3) by (auto simp: set_at_def is_set_def)
  show ?thesis
    using assms(1,2) set5 [of True] set5 [of False] is5 [of True] is5 [of False]
    by (simp add: delete_stream_if_unchanged_script_def lua_simps unchanged_def hash_field_def Let_def)
qed

lemma heartbeat_closed:
  assumes "k1 \<noteq> k2"
  shows "redis_doc (Eval (Heartbeat_If_Active k1 k2 inst up sid)) s =
    (if \<not> is_hash s k1 then (None, s)
     else if hash_field s k1 ''instance_id'' = Some inst \<and> hash_field s k1 ''status'' = Some ''active''
     then (let s1 = put_key k1 (VHash (AList.update ''updated_at'' up (hash_at s k1))) s
           in if is_set s k2 then (Some (RInt 1), put_set k2 (List.insert sid (set_at s k2)) s1)
              else (None, s1))
     else (Some (RInt 0), s))"
  using assms
  by (auto simp: heartbeat_if_active_script_def lua_simps hash_field_def is_set_def set_at_def Let_def)

lemma update_owner_closed:
  "redis_doc (Eval (Update_Status_If_Owner k1 inst st up)) s =
    (if \<not> is_hash s k1 then (None, s)
     else if hash_field s k1 ''instance_id'' = Some inst
     then (Some (RInt 1),
       put_key k1 (VHash (dict_update [(''status'', st), (''updated_at'', up)] (hash_at s k1))) s)
     else (Some (RInt 0), s))"
  by (auto simp: update_status_if_owner_script_def lua_simps hash_field_def live_def hash_at_def is_hash_def
      simp del: dict_update.simps split: option.splits rval.splits)

lemma finalize_closed:
  "redis_doc (Eval (Finalize_Stop_If_Unowned k1 k2 up now)) s =
    (if \<not> is_hash s k1 then (None, s)
     else if hash_field s k1 ''status'' = Some ''stopping'' \<and> hash_field s k1 ''updated_at'' = Some up
        \<and> \<not> live s k2
     then (Some (RInt 1),
       put_key k1 (VHash (dict_update [(''status'', ''stopped''), (''updated_at'', now)] (hash_at s k1))) s)
     else (Some (RInt 0), s))"
  by (auto simp: finalize_stop_if_unowned_script_def lua_simps hash_field_def live_def hash_at_def is_hash_def
      simp del: dict_update.simps split: option.splits rval.splits)

text \<open>A script is reasoned about through its closed form, never by unfolding its body.\<close>

declare redis_doc.simps(1) [simp del]

end
