(* ===== verification/Postgres_Store.thy ===== *)
theory Postgres_Store
  imports Iso_Time
begin

section \<open>PostgreSQL: the tables and the statements the service sends\<close>

text \<open>
  The database server is not part of the repository, but the schema
  (migrations/001\_initial\_schema.sql, src/models/stream\_models.py) and the text of every
  statement are. This theory gives each statement its SQL meaning on a view of the
  tables; like theory Redis\_Store it is used only inside the hypothesis
  \<open>documented\<close>. The \<^verbatim>\<open>NOW()\<close> columns are left out: nothing in the source reads them.
\<close>

record stream_row =
  sr_subreddit :: string
  sr_status :: string
  sr_instance :: "string option"
  sr_config :: string

record checkpoint_row =
  cr_id :: string
  cr_last_comment_id :: "string option"
  cr_last_processed_at :: "datetime option"

record error_row =
  er_id :: string
  er_stream_id :: string
  er_error_type :: string
  er_error_message :: string
  er_retry_count :: int
  er_is_recoverable :: int
  er_timestamp :: datetime

text \<open>\<open>pg_streams\<close> is keyed by the primary key, \<open>pg_checkpoints\<close> by the unique
  \<^verbatim>\<open>stream_id\<close>.\<close>

record pgdb =
  pg_streams :: "(string \<times> stream_row) list"
  pg_checkpoints :: "(string \<times> checkpoint_row) list"
  pg_errors :: "error_row list"

text \<open>One parameter set of the checkpoint upsert.\<close>

record checkpoint_param =
  cp_id :: string
  cp_stream_id :: string
  cp_last_comment_id :: "string option"
  cp_last_processed_at :: "datetime option"

datatype sql =
    Insert_Stream string string string "string option" string
  | Update_Stream_Status string string "string option"
  | Update_Stream_Status_If_Owner string string string
  | Finalize_Stream_Stop string
  | Upsert_Checkpoints "checkpoint_param list"
  | Insert_Error error_row
  | Select_1

subsection \<open>The statements\<close>

text \<open>\<^verbatim>\<open>INSERT ... ON CONFLICT (id) DO NOTHING\<close>; the subreddit column is UNIQUE.\<close>

definition insert_stream_sql ::
    "string \<Rightarrow> string \<Rightarrow> string \<Rightarrow> string option \<Rightarrow> string \<Rightarrow> pgdb \<Rightarrow> pgdb option" where
  "insert_stream_sql sid sub st inst cfg db =
     (if map_of (pg_streams db) sid \<noteq> None then Some db
      else if list_ex (\<lambda>(_, r). sr_subreddit r = sub) (pg_streams db) then None
      else Some (db\<lparr>pg_streams := (sid, \<lparr>sr_subreddit = sub, sr_status = st, sr_instance = inst,
                                        sr_config = cfg\<rparr>) # pg_streams db\<rparr>))"

definition update_rows :: "(string \<Rightarrow> stream_row \<Rightarrow> bool) \<Rightarrow> (stream_row \<Rightarrow> stream_row) \<Rightarrow> pgdb \<Rightarrow> pgdb" where
  "update_rows cond f db =
     db\<lparr>pg_streams := map (\<lambda>(i, r). (i, if cond i r then f r else r)) (pg_streams db)\<rparr>"

definition update_status_sql :: "string \<Rightarrow> string \<Rightarrow> string option \<Rightarrow> pgdb \<Rightarrow> pgdb" where
  "update_status_sql sid st inst =
     update_rows (\<lambda>i r. i = sid) (\<lambda>r. r\<lparr>sr_status := st, sr_instance := inst\<rparr>)"

definition update_status_if_owner_sql :: "string \<Rightarrow> string \<Rightarrow> string \<Rightarrow> pgdb \<Rightarrow> pgdb" where
  "update_status_if_owner_sql sid st inst =
     update_rows (\<lambda>i r. i = sid \<and> sr_instance r = Some inst) (\<lambda>r. r\<lparr>sr_status := st\<rparr>)"

definition finalize_stop_sql :: "string \<Rightarrow> pgdb \<Rightarrow> pgdb" where
  "finalize_stop_sql sid =
     update_rows (\<lambda>i r. i = sid \<and> sr_status r = ''stopping'') (\<lambda>r. r\<lparr>sr_status := ''stopped''\<rparr>)"

text \<open>\<^verbatim>\<open>INSERT ... ON CONFLICT (stream_id) DO UPDATE\<close> for one parameter set; a conflict on
  the primary key alone is an error.\<close>

definition upsert_checkpoint_sql :: "checkpoint_param \<Rightarrow> pgdb \<Rightarrow> pgdb option" where
  "upsert_checkpoint_sql p db =
     (case map_of (pg_checkpoints db) (cp_stream_id p) of
        Some r \<Rightarrow>
          Some (db\<lparr>pg_checkpoints := AList.update (cp_stream_id p)
                    (r\<lparr>cr_last_comment_id := cp_last_comment_id p,
                       cr_last_processed_at := cp_last_processed_at p\<rparr>) (pg_checkpoints db)\<rparr>)
      | None \<Rightarrow>
          if list_ex (\<lambda>(_, r). cr_id r = cp_id p) (pg_checkpoints db) then None
          else Some (db\<lparr>pg_checkpoints := AList.update (cp_stream_id p)
                    \<lparr>cr_id = cp_id p, cr_last_comment_id = cp_last_comment_id p,
                     cr_last_processed_at = cp_last_processed_at p\<rparr> (pg_checkpoints db)\<rparr>))"

fun upsert_checkpoints_sql :: "checkpoint_param list \<Rightarrow> pgdb \<Rightarrow> pgdb option" where
  "upsert_checkpoints_sql [] db = Some db"
| "upsert_checkpoints_sql (p # ps) db =
     (case upsert_checkpoint_sql p db of None \<Rightarrow> None | Some db' \<Rightarrow> upsert_checkpoints_sql ps db')"

definition insert_error_sql :: "error_row \<Rightarrow> pgdb \<Rightarrow> pgdb option" where
  "insert_error_sql r db =
     (if list_ex (\<lambda>r'. er_id r' = er_id r) (pg_errors db) then None
      else Some (db\<lparr>pg_errors := r # pg_errors db\<rparr>))"

text \<open>A statement executed and committed in a session of its own; \<open>None\<close> is a constraint
  violation, after which the transaction leaves nothing behind.\<close>

fun pg_exec :: "sql \<Rightarrow> pgdb \<Rightarrow> pgdb option" where
  "pg_exec (Insert_Stream i sub st inst cfg) db = insert_stream_sql i sub st inst cfg db"
| "pg_exec (Update_Stream_Status i st inst) db = Some (update_status_sql i st inst db)"
| "pg_exec (Update_Stream_Status_If_Owner i st inst) db = Some (update_status_if_owner_sql i st inst db)"
| "pg_exec (Finalize_Stream_Stop i) db = Some (finalize_stop_sql i db)"
| "pg_exec (Upsert_Checkpoints ps) db = upsert_checkpoints_sql ps db"
| "pg_exec (Insert_Error r) db = insert_error_sql r db"
| "pg_exec Select_1 db = Some db"

subsection \<open>Lookups after a statement\<close>

lemma map_of_update_rows:
  "map_of (pg_streams (update_rows cond f db)) i =
     map_option (\<lambda>r. if cond i r then f r else r) (map_of (pg_streams db) i)"
proof -
  have "map_of (map (\<lambda>(i, r). (i, if cond i r then f r else r)) xs) i =
      map_option (\<lambda>r. if cond i r then f r else r) (map_of xs i)" for xs :: "(string \<times> stream_row) list"
    by (induction xs) auto
  then show ?thesis by (simp add: update_rows_def)
qed

lemma update_rows_frame [simp]:
  "pg_checkpoints (update_rows cond f db) = pg_checkpoints db"
  "pg_errors (update_rows cond f db) = pg_errors db"
  by (simp_all add: update_rows_def)

lemma upsert_checkpoint_frame:
  "upsert_checkpoint_sql p db = Some db' \<Longrightarrow> pg_streams db' = pg_streams db \<and> pg_errors db' = pg_errors db"
  by (auto simp: upsert_checkpoint_sql_def split: option.splits if_splits)

lemma upsert_checkpoints_frame:
  "upsert_checkpoints_sql ps db = Some db' \<Longrightarrow> pg_streams db' = pg_streams db \<and> pg_errors db' = pg_errors db"
  by (induction ps arbitrary: db) (auto dest: upsert_checkpoint_frame split: option.splits)

definition checkpoint_of :: "pgdb \<Rightarrow> string \<Rightarrow> (string option \<times> datetime option) option" where
  "checkpoint_of db sid =
     map_option (\<lambda>r. (cr_last_comment_id r, cr_last_processed_at r)) (map_of (pg_checkpoints db) sid)"

lemma upsert_checkpoint_of:
  "upsert_checkpoint_sql p db = Some db' \<Longrightarrow>
     checkpoint_of db' sid =
       (if sid = cp_stream_id p then Some (cp_last_comment_id p, cp_last_processed_at p)
        else checkpoint_of db sid)"
  by (auto simp: upsert_checkpoint_sql_def checkpoint_of_def update_conv' split: option.splits if_splits)

text \<open>After a batch each stream has the last parameter set given for it.\<close>

lemma upsert_checkpoints_of:
  "upsert_checkpoints_sql ps db = Some db' \<Longrightarrow>
     checkpoint_of db' sid =
       (case map_of (rev (map (\<lambda>p. (cp_stream_id p, (cp_last_comment_id p, cp_last_processed_at p))) ps)) sid of
          Some c \<Rightarrow> Some c | None \<Rightarrow> checkpoint_of db sid)"
proof (induction ps arbitrary: db)
  case Nil
  then show ?case by simp
next
  case (Cons p ps)
  then obtain db1 where "upsert_checkpoint_sql p db = Some db1" and "upsert_checkpoints_sql ps db1 = Some db'"
    by (auto split: option.splits)
  with Cons.IH [of db1] upsert_checkpoint_of [of p db db1 sid] show ?case
    by (auto simp: map_add_def split: option.splits)
qed

text \<open>The tables' own integrity: primary keys are keys, and a checkpoint row's id is its
  stream's id, as every writer in the source makes it.\<close>

definition checkpoints_ok :: "pgdb \<Rightarrow> bool" where
  "checkpoints_ok db = (\<forall>(sid, r) \<in> set (pg_checkpoints db). cr_id r = sid)"

lemma upsert_checkpoint_total:
  assumes "checkpoints_ok db" and "cp_id p = cp_stream_id p"
  shows "\<exists>db'. upsert_checkpoint_sql p db = Some db' \<and> checkpoints_ok db'"
proof -
  have no: "map_of (pg_checkpoints db) (cp_stream_id p) = None \<Longrightarrow>
      \<not> list_ex (\<lambda>(_, r). cr_id r = cp_id p) (pg_checkpoints db)"
    using assms by (fastforce simp: checkpoints_ok_def list_ex_iff map_of_eq_None_iff image_iff)
  have upd: "(sid, r) \<in> set (AList.update k r' xs) \<Longrightarrow> (sid, r) \<in> set xs \<or> (sid = k \<and> r = r')"
    for sid k :: string and r r' :: checkpoint_row and xs
    by (induction xs) (auto split: if_splits)
  show ?thesis
  proof (cases "map_of (pg_checkpoints db) (cp_stream_id p)")
    case None
    with no assms show ?thesis
      by (fastforce simp: upsert_checkpoint_sql_def checkpoints_ok_def dest!: upd)
  next
    case (Some r)
    then have "cr_id r = cp_stream_id p"
      using assms(1) by (auto simp: checkpoints_ok_def dest: map_of_SomeD)
    with Some assms show ?thesis
      by (fastforce simp: upsert_checkpoint_sql_def checkpoints_ok_def dest!: upd)
  qed
qed

lemma upsert_checkpoints_total:
  assumes "checkpoints_ok db" and "\<forall>p \<in> set ps. cp_id p = cp_stream_id p"
  shows "\<exists>db'. upsert_checkpoints_sql ps db = Some db' \<and> checkpoints_ok db'"
  using assms
proof (induction ps arbitrary: db)
  case Nil
  then show ?case by simp
next
  case (Cons p ps)
  then obtain db1 where "upsert_checkpoint_sql p db = Some db1" and "checkpoints_ok db1"
    using upsert_checkpoint_total [of db p] by auto
  with Cons show ?case by simp
qed

end
