(* ===== verification/Services.thy ===== *)
theory Services
  imports Comment_Message Lua_Scripts Postgres_Store
begin

section \<open>The services around the process and what is assumed of them\<close>

text \<open>
  Redis, PostgreSQL, Reddit, Kafka, the serializer's libraries, the clock, \<^verbatim>\<open>uuid4\<close> and the
  event loop are outside the repository. A call is what the code asks of one of them; its answer is a reply or an
  exception raised at the \<^verbatim>\<open>await\<close>. \<open>documented\<close> relates a call to the answers its
  documentation allows, on a view of what the services hold:
  \<^item> any Redis or PostgreSQL call may raise; it then took effect or it did not;
  \<^item> time passes between Redis calls, so a key with a deadline may be gone;
  \<^item> \<^verbatim>\<open>datetime.now(UTC)\<close> answers a valid UTC value and cannot raise;
  \<^item> \<^verbatim>\<open>uuid4()\<close> answers text never answered before and cannot raise;
  \<^item> \<^verbatim>\<open>asyncio.sleep\<close> returns or is cancelled;
  \<^item> Reddit yields a comment, a pause or the end of the stream, or raises;
  \<^item> the serializer answers bytes or nothing, or raises an \<^verbatim>\<open>Exception\<close>;
  \<^item> the Kafka producer takes a message into its queue or raises; a delivery report
    without an error means that the broker has the message, and what the broker has it keeps;
  \<^item> a probe answers or raises, closing a client returns or raises, and neither changes what is stored;
  \<^item> flushing the producer may bring the broker further messages and takes none away;
  \<^item> waiting for other tasks of the event loop ends with any of their outcomes; what those
    tasks do meanwhile are their own calls (theory Interleaving).
\<close>

datatype metric =
    Inc string "string list"
  | Inc_By string "string list" nat
  | Gauge_Inc string "string list"
  | Gauge_Dec string "string list"
  | Gauge_Set string "string list" nat
  | Gauge_Now string
  | Observe string "string list"

text \<open>What the code reads of a comment of asyncpraw: its author may be gone.\<close>

record comment =
  c_id :: string
  c_author :: "string option"
  c_body :: string

datatype comment_event = Comment comment | No_Comment | Stream_End

text \<open>A delivery report: the message it is about, the broker's error, the payload's size.\<close>

record delivery_report =
  dr_handle :: nat
  dr_error :: "string option"
  dr_size :: nat

text \<open>How the wait for a main task and its watcher ends: a stream's runner and its stop
  watcher in src/stream/manager.py, a worker's stream loop and its lock refresher in
  src/stream/worker.py. A watcher that is done is looked at first.\<close>

datatype task_event = Runner_Returned | Runner_Raised pyexn | Stop_Seen | Watcher_Raised pyexn

datatype call =
    Redis rcmd
  | Pg sql
  | Now
  | Uuid4
  | Sleep int  \<comment> \<open>milliseconds\<close>
  | Reddit_Subreddit string
  | Load_Subreddit string
  | Next_Comment string bool
  | Serialize reddit_comment_message
  | Produce string string string  \<comment> \<open>topic, key, payload\<close>
  | Poll
  | Wait_Deliveries "nat list" int  \<comment> \<open>handles, microseconds\<close>
  | List_Topics
  | Loop_Time
  | Wait_Tasks string
  | Cancel_Task string
  | Join_Task string
  | Gather "string list"  \<comment> \<open>\<^verbatim>\<open>asyncio.gather(..., return_exceptions=True)\<close>\<close>
  | Timed_Out
  | Task_Done string
  | Probe string  \<comment> \<open>a client's check that its server answers\<close>
  | Close_Client string
  | Flush_Producer int  \<comment> \<open>milliseconds; answers how many messages are still queued\<close>

datatype reply =
    Redis_Reply rreply
  | Unit_Reply
  | Time_Reply datetime
  | Text_Reply string
  | Comment_Reply comment_event
  | Payload_Reply "string option"
  | Handle_Reply nat
  | Reports_Reply "delivery_report list"
  | Clock_Reply int  \<comment> \<open>microseconds\<close>
  | Task_Reply task_event
  | Bool_Reply bool

text \<open>\<open>sent\<close> is what the producer's queue has taken, in order: a message's handle is its
  place; \<open>acked\<close> says what the broker has; \<open>loop_clock\<close> is the event loop's monotonic clock
  in microseconds, as it was last read.\<close>

record view =
  rdb :: rdb
  pgd :: pgdb
  uuids :: "string list"
  metrics :: "metric list"
  sent :: "(string \<times> string \<times> string) list"
  acked :: "nat \<Rightarrow> bool"
  loop_clock :: int

definition truthful :: "view \<Rightarrow> delivery_report list \<Rightarrow> (nat \<Rightarrow> bool) \<Rightarrow> bool" where
  "truthful v rs a =
     ((\<forall>h. acked v h \<longrightarrow> a h) \<and> (\<forall>r \<in> set rs. dr_error r = None \<longrightarrow> a (dr_handle r)))"

text \<open>The bodies of the two storage calls: the effect of a call that took effect.\<close>

definition redis_effect :: "rcmd \<Rightarrow> rdb \<Rightarrow> rdb" where
  "redis_effect c s = snd (redis_doc c s)"

definition redis_answer :: "rcmd \<Rightarrow> rdb \<Rightarrow> rreply \<Rightarrow> bool" where
  "redis_answer c s r = (\<exists>r0. fst (redis_doc c s) = Some r0 \<and> same_reply r r0)"

fun documented :: "call \<Rightarrow> view \<Rightarrow> pyexn + reply \<Rightarrow> view \<Rightarrow> bool" where
  "documented (Redis c) v r v' =
     (\<exists>t \<ge> rclock (rdb v).
        case r of
          Inl e \<Rightarrow> v' = v\<lparr>rdb := at_time t (rdb v)\<rparr>
                 \<or> v' = v\<lparr>rdb := redis_effect c (at_time t (rdb v))\<rparr>
        | Inr x \<Rightarrow> (\<exists>y. x = Redis_Reply y \<and> redis_answer c (at_time t (rdb v)) y)
                 \<and> v' = v\<lparr>rdb := redis_effect c (at_time t (rdb v))\<rparr>)"
| "documented (Pg q) v r v' =
     (case r of
        Inl e \<Rightarrow> v' = v \<or> (\<exists>db. pg_exec q (pgd v) = Some db \<and> v' = v\<lparr>pgd := db\<rparr>)
      | Inr x \<Rightarrow> x = Unit_Reply \<and> (\<exists>db. pg_exec q (pgd v) = Some db \<and> v' = v\<lparr>pgd := db\<rparr>))"
| "documented Now v r v' =
     (v' = v \<and> (\<exists>d. r = Inr (Time_Reply d) \<and> valid_datetime d \<and> tz d = Some 0))"
| "documented Uuid4 v r v' =
     (\<exists>u. r = Inr (Text_Reply u) \<and> u \<noteq> [] \<and> u \<notin> set (uuids v) \<and> v' = v\<lparr>uuids := u # uuids v\<rparr>)"
| "documented (Sleep ms) v r v' =
     (v' = v \<and> (r = Inr Unit_Reply \<or> (\<exists>e. r = Inl e \<and> is_cancelled e \<and> \<not> is_exception e)))"
| "documented (Reddit_Subreddit sub) v r v' = (v' = v \<and> (r = Inr Unit_Reply \<or> (\<exists>e. r = Inl e)))"
| "documented (Load_Subreddit sub) v r v' = (v' = v \<and> (r = Inr Unit_Reply \<or> (\<exists>e. r = Inl e)))"
| "documented List_Topics v r v' = (v' = v \<and> ((\<exists>b. r = Inr (Bool_Reply b)) \<or> (\<exists>e. r = Inl e)))"
| "documented (Next_Comment sub sk) v r v' =
     (v' = v \<and> ((\<exists>c. r = Inr (Comment_Reply c)) \<or> (\<exists>e. r = Inl e)))"
| "documented (Serialize m) v r v' =
     (v' = v \<and> ((\<exists>b. r = Inr (Payload_Reply b)) \<or> (\<exists>e. r = Inl e \<and> is_exception e)))"
| "documented (Produce topic key x) v r v' =
     (v' = v \<and> (\<exists>e. r = Inl e \<and> is_exception e) \<or>
      r = Inr (Handle_Reply (length (sent v))) \<and> v' = v\<lparr>sent := sent v @ [(topic, key, x)]\<rparr>)"
| "documented Poll v r v' =
     (v' = v \<and> (\<exists>e. r = Inl e \<and> is_exception e) \<or>
      (\<exists>rs a. r = Inr (Reports_Reply rs) \<and> truthful v rs a \<and> v' = v\<lparr>acked := a\<rparr>))"
| "documented (Wait_Deliveries hs timeout) v r v' =
     (v' = v \<and> (\<exists>e. r = Inl e \<and> is_cancelled e \<and> \<not> is_exception e) \<or>
      (\<exists>rs a t. r = Inr (Reports_Reply rs) \<and> truthful v rs a \<and> loop_clock v \<le> t \<and>
         (loop_clock v + timeout \<le> t \<or> (\<exists>d \<in> set rs. dr_handle d \<in> set hs)) \<and>
         v' = v\<lparr>acked := a, loop_clock := t\<rparr>))"
| "documented Loop_Time v r v' =
     (\<exists>t \<ge> loop_clock v. r = Inr (Clock_Reply t) \<and> v' = v\<lparr>loop_clock := t\<rparr>)"
| "documented (Wait_Tasks i) v r v' =
     (v' = v \<and> ((\<exists>t. r = Inr (Task_Reply t)) \<or> (\<exists>e. r = Inl e \<and> is_cancelled e \<and> \<not> is_exception e)))"
| "documented (Cancel_Task i) v r v' = (v' = v \<and> r = Inr Unit_Reply)"
| "documented (Join_Task i) v r v' = (v' = v \<and> (r = Inr Unit_Reply \<or> (\<exists>e. r = Inl e)))"
| "documented (Gather is) v r v' =
     (v' = v \<and> (r = Inr Unit_Reply \<or> (\<exists>e. r = Inl e \<and> is_cancelled e \<and> \<not> is_exception e)))"
| "documented Timed_Out v r v' = (v' = v \<and> (\<exists>b. r = Inr (Bool_Reply b)))"
| "documented (Task_Done i) v r v' = (v' = v \<and> (\<exists>b. r = Inr (Bool_Reply b)))"
| "documented (Probe i) v r v' = (v' = v \<and> ((\<exists>b. r = Inr (Bool_Reply b)) \<or> (\<exists>e. r = Inl e)))"
| "documented (Close_Client i) v r v' = (v' = v \<and> (r = Inr Unit_Reply \<or> (\<exists>e. r = Inl e)))"
| "documented (Flush_Producer timeout) v r v' =
     (\<exists>a. truthful v [] a \<and> v' = v\<lparr>acked := a\<rparr> \<and> ((\<exists>n. r = Inr (Handle_Reply n)) \<or> (\<exists>e. r = Inl e)))"

text \<open>The services a process runs against: how they answer a call and how the process's
  metrics registry takes an observation, on a state of which nothing is known but the view.\<close>

record 'w services =
  ask :: "call \<Rightarrow> 'w \<Rightarrow> (pyexn + reply) \<times> 'w"
  tell :: "metric \<Rightarrow> 'w \<Rightarrow> 'w"

locale documented_services =
  fixes S :: "'w services" and V :: "'w \<Rightarrow> view"
  assumes ask_doc: "documented c (V w) (fst (ask S c w)) (V (snd (ask S c w)))"
    and tell_doc: "V (tell S m w) = (V w)\<lparr>metrics := m # metrics (V w)\<rparr>"

subsection \<open>A reference implementation of the services\<close>

text \<open>
  An in-memory Redis and PostgreSQL that answer every call as documented, with a schedule
  of faults and delays: each entry is the exception the next call raises, if any, and the
  milliseconds that pass before it. It shows that \<open>documented_services\<close> can hold and is
  what the witnesses of the properties run on.
\<close>

record ref_world =
  rview :: view
  schedule :: "(pyexn option \<times> nat) list"
  wall :: "datetime list"
  feed :: "comment_event list"
  reports :: "delivery_report list list"
  outcomes :: "task_event list"

definition default_time :: datetime where
  "default_time = DateTime 2026 1 1 0 0 0 0 (Some 0)"

definition next_wall :: "ref_world \<Rightarrow> datetime" where
  "next_wall w = (case wall w of
      d # _ \<Rightarrow> if valid_datetime d \<and> tz d = Some 0 then d else default_time
    | [] \<Rightarrow> default_time)"

definition fresh_uuid :: "string list \<Rightarrow> string" where
  "fresh_uuid us = replicate (Suc (foldr (\<lambda>u n. max (length u) n) us 0)) CHR ''u''"

definition next_fault :: "ref_world \<Rightarrow> pyexn option" where
  "next_fault w = (case schedule w of [] \<Rightarrow> None | (f, _) # _ \<Rightarrow> f)"

definition next_delay :: "ref_world \<Rightarrow> nat" where
  "next_delay w = (case schedule w of [] \<Rightarrow> 0 | (_, d) # _ \<Rightarrow> d)"

fun ordered_reply :: "rreply \<Rightarrow> rreply" where
  "ordered_reply (RSet xs) = RSet (remdups xs)"
| "ordered_reply r = r"

definition ref_redis :: "rcmd \<Rightarrow> ref_world \<Rightarrow> (pyexn + reply) \<times> ref_world" where
  "ref_redis c w =
     (let v = rview w; s = at_time (rclock (rdb v) + int (next_delay w)) (rdb v);
          w' = w\<lparr>schedule := tl (schedule w)\<rparr>
      in case next_fault w of
           Some e \<Rightarrow> (Inl e, w'\<lparr>rview := v\<lparr>rdb := s\<rparr>\<rparr>)
         | None \<Rightarrow> (case redis_doc c s of
               (None, s') \<Rightarrow> (Inl response_error, w'\<lparr>rview := v\<lparr>rdb := s'\<rparr>\<rparr>)
             | (Some r, s') \<Rightarrow> (Inr (Redis_Reply (ordered_reply r)), w'\<lparr>rview := v\<lparr>rdb := s'\<rparr>\<rparr>)))"

definition ref_pg :: "sql \<Rightarrow> ref_world \<Rightarrow> (pyexn + reply) \<times> ref_world" where
  "ref_pg q w =
     (let w' = w\<lparr>schedule := tl (schedule w)\<rparr>
      in case next_fault w of
           Some e \<Rightarrow> (Inl e, w')
         | None \<Rightarrow> (case pg_exec q (pgd (rview w)) of
               None \<Rightarrow> (Inl response_error, w')
             | Some db \<Rightarrow> (Inr Unit_Reply, w'\<lparr>rview := (rview w)\<lparr>pgd := db\<rparr>\<rparr>)))"

definition ref_reports :: "ref_world \<Rightarrow> (pyexn + reply) \<times> ref_world" where
  "ref_reports w =
     (case reports w of [] \<Rightarrow> (Inr (Reports_Reply []), w)
      | rs # rss \<Rightarrow>
          (Inr (Reports_Reply rs),
           w\<lparr>reports := rss, rview := (rview w)\<lparr>acked := (\<lambda>h. acked (rview w) h \<or>
              list_ex (\<lambda>r. dr_error r = None \<and> dr_handle r = h) rs)\<rparr>\<rparr>))"

fun ref_ask :: "call \<Rightarrow> ref_world \<Rightarrow> (pyexn + reply) \<times> ref_world" where
  "ref_ask (Redis c) w = ref_redis c w"
| "ref_ask (Pg q) w = ref_pg q w"
| "ref_ask Now w = (Inr (Time_Reply (next_wall w)), w\<lparr>wall := tl (wall w)\<rparr>)"
| "ref_ask Uuid4 w =
     (Inr (Text_Reply (fresh_uuid (uuids (rview w)))),
      w\<lparr>rview := (rview w)\<lparr>uuids := fresh_uuid (uuids (rview w)) # uuids (rview w)\<rparr>\<rparr>)"
| "ref_ask (Sleep ms) w =
     (let w' = w\<lparr>schedule := tl (schedule w)\<rparr>
      in case next_fault w of
           Some e \<Rightarrow> (if is_cancelled e \<and> \<not> is_exception e then Inl e else Inr Unit_Reply, w')
         | None \<Rightarrow> (Inr Unit_Reply, w'))"
| "ref_ask (Reddit_Subreddit sub) w = (Inr Unit_Reply, w)"
| "ref_ask (Load_Subreddit sub) w = (Inr Unit_Reply, w)"
| "ref_ask List_Topics w = (Inr (Bool_Reply True), w)"
| "ref_ask (Next_Comment sub sk) w =
     (case feed w of [] \<Rightarrow> (Inr (Comment_Reply Stream_End), w)
      | c # cs \<Rightarrow> (Inr (Comment_Reply c), w\<lparr>feed := cs\<rparr>))"
| "ref_ask (Serialize m) w = (Inr (Payload_Reply (Some (cm_text m))), w)"
| "ref_ask (Produce topic key x) w =
     (Inr (Handle_Reply (length (sent (rview w)))),
      w\<lparr>rview := (rview w)\<lparr>sent := sent (rview w) @ [(topic, key, x)]\<rparr>\<rparr>)"
| "ref_ask Poll w = ref_reports w"
| "ref_ask (Wait_Deliveries hs timeout) w =
     (case ref_reports w of (r, w') \<Rightarrow>
        (r, w'\<lparr>rview := (rview w')\<lparr>loop_clock := loop_clock (rview w) + max 0 timeout\<rparr>\<rparr>))"
| "ref_ask Loop_Time w = (Inr (Clock_Reply (loop_clock (rview w))), w)"
| "ref_ask (Wait_Tasks i) w =
     (case outcomes w of [] \<Rightarrow> (Inr (Task_Reply Runner_Returned), w)
      | t # ts \<Rightarrow> (Inr (Task_Reply t), w\<lparr>outcomes := ts\<rparr>))"
| "ref_ask (Cancel_Task i) w = (Inr Unit_Reply, w)"
| "ref_ask (Join_Task i) w = (Inr Unit_Reply, w)"
| "ref_ask (Gather is) w = (Inr Unit_Reply, w)"
| "ref_ask Timed_Out w = (Inr (Bool_Reply False), w)"
| "ref_ask (Task_Done i) w = (Inr (Bool_Reply True), w)"
| "ref_ask (Probe i) w = (Inr (Bool_Reply True), w)"
| "ref_ask (Close_Client i) w = (Inr Unit_Reply, w)"
| "ref_ask (Flush_Producer timeout) w = (Inr (Handle_Reply 0), w)"

definition ref_services :: "ref_world services" where
  "ref_services = \<lparr>ask = ref_ask,
     tell = (\<lambda>m w. w\<lparr>rview := (rview w)\<lparr>metrics := m # metrics (rview w)\<rparr>\<rparr>)\<rparr>"

lemma ref_services_sel [simp]:
  "ask ref_services = ref_ask"
  "tell ref_services m w = w\<lparr>rview := (rview w)\<lparr>metrics := m # metrics (rview w)\<rparr>\<rparr>"
  by (simp_all add: ref_services_def)

lemma fresh_uuid_fresh: "fresh_uuid us \<notin> set us"
proof
  assume "fresh_uuid us \<in> set us"
  moreover have "u \<in> set us \<Longrightarrow> length u \<le> foldr (\<lambda>u n. max (length u) n) us 0" for u
    by (induction us) auto
  ultimately have "length (fresh_uuid us) \<le> foldr (\<lambda>u n. max (length u) n) us 0" by blast
  then show False by (simp add: fresh_uuid_def)
qed

lemma fresh_uuid_nonempty: "fresh_uuid us \<noteq> []"
  by (simp add: fresh_uuid_def)

lemma default_time_ok: "valid_datetime default_time" "tz default_time = Some 0"
  by (simp_all add: default_time_def valid_datetime_def valid_fields_def days_in_month_def)

lemma next_wall_ok: "valid_datetime (next_wall w)" "tz (next_wall w) = Some 0"
  using default_time_ok by (auto simp: next_wall_def split: list.splits)

lemma same_ordered_reply: "same_reply (ordered_reply r) r"
  by (cases r) (auto simp: list_all2_refl)

lemma ref_redis_documented:
  "documented (Redis c) (rview w) (fst (ref_redis c w)) (rview (snd (ref_redis c w)))"
proof -
  let ?t = "rclock (rdb (rview w)) + int (next_delay w)"
  have "?t \<ge> rclock (rdb (rview w))" by simp
  then show ?thesis
    by (auto intro!: exI [of _ ?t] same_ordered_reply
        simp: ref_redis_def redis_answer_def redis_effect_def Let_def split: option.splits prod.splits)
qed

lemma ref_reports_documented:
  "\<exists>rs a w'. ref_reports w = (Inr (Reports_Reply rs), w') \<and> truthful (rview w) rs a \<and>
     rview w' = (rview w)\<lparr>acked := a\<rparr>"
proof (cases "reports w")
  case Nil
  then show ?thesis
    by (intro exI [of _ "[]"] exI [of _ "acked (rview w)"] exI [of _ w]) (simp add: ref_reports_def truthful_def)
next
  case (Cons rs rss)
  then show ?thesis
    by (intro exI [of _ rs] exI [of _ "\<lambda>h. acked (rview w) h \<or> list_ex (\<lambda>r. dr_error r = None \<and> dr_handle r = h) rs"]
        exI [of _ "snd (ref_reports w)"])
       (auto simp: ref_reports_def truthful_def list_ex_iff)
qed

interpretation ref: documented_services ref_services rview
proof
  fix c :: call and w :: ref_world
  obtain rs a w' where rep: "ref_reports w = (Inr (Reports_Reply rs), w')" "truthful (rview w) rs a"
    "rview w' = (rview w)\<lparr>acked := a\<rparr>"
    using ref_reports_documented [of w] by blast
  show "documented c (rview w) (fst (ask ref_services c w)) (rview (snd (ask ref_services c w)))"
  proof (cases c)
    case (Redis c)
    with ref_redis_documented [of c w] show ?thesis by (simp del: documented.simps)
  next
    case Poll
    with rep show ?thesis by auto
  next
    case (Wait_Deliveries hs timeout)
    with rep show ?thesis
      by (auto intro!: exI [of _ "loop_clock (rview w) + max 0 timeout"] exI [of _ a])
  next
    case (Flush_Producer timeout)
    then show ?thesis by (auto simp: truthful_def intro!: exI [of _ "acked (rview w)"])
  qed (auto simp: ref_pg_def next_wall_ok fresh_uuid_fresh fresh_uuid_nonempty Let_def
      intro!: exI [of _ "loop_clock (rview w)"] split: option.split list.split)
qed simp

text \<open>A world in which nothing is stored and nothing fails, and one with a schedule.\<close>

definition empty_view :: view where
  "empty_view = \<lparr>rdb = \<lparr>rkeys = (\<lambda>_. None), rttl = (\<lambda>_. None), rclock = 0\<rparr>,
     pgd = \<lparr>pg_streams = [], pg_checkpoints = [], pg_errors = []\<rparr>, uuids = [], metrics = [],
     sent = [], acked = (\<lambda>_. False), loop_clock = 0\<rparr>"

definition ref_start :: "view \<Rightarrow> (pyexn option \<times> nat) list \<Rightarrow> ref_world" where
  "ref_start v sch = \<lparr>rview = v, schedule = sch, wall = [], feed = [], reports = [], outcomes = []\<rparr>"

lemma ref_start_sel [simp]:
  "rview (ref_start v sch) = v" "schedule (ref_start v sch) = sch" "wall (ref_start v sch) = []"
  "feed (ref_start v sch) = []" "reports (ref_start v sch) = []" "outcomes (ref_start v sch) = []"
  by (simp_all add: ref_start_def)

end
