(* ===== verification/Effects.thy ===== *)
theory Effects
  imports Services
begin

section \<open>Programs: coroutines as trees of service calls\<close>

text \<open>
  A coroutine of the source becomes a program: it returns a value, raises, awaits a
  service call and goes on with its answer or the exception it raised, reads or writes
  the attributes of its object (\<open>'l\<close>), or records a metric. Between two calls a
  coroutine runs without interruption, as on an event loop; at a call every other
  coroutine and every other process may run.

  \<open>run\<close> executes a program alone against given services; theory Interleaving runs the
  calls of any number of programs in any order. \<open>wp\<close> is the weakest precondition over all documented
  answers; \<open>wp_run\<close> shows that what it establishes holds of every run.
\<close>

datatype (dead 'l, 'a) prog =
    Ret 'a
  | Raise pyexn
  | Call call "pyexn + reply \<Rightarrow> ('l, 'a) prog"
  | Get_Local "'l \<Rightarrow> ('l, 'a) prog"
  | Put_Local 'l "('l, 'a) prog"
  | Emit metric "('l, 'a) prog"

subsection \<open>Sequencing and exception handling\<close>

primrec bind :: "('l, 'a) prog \<Rightarrow> ('a \<Rightarrow> ('l, 'b) prog) \<Rightarrow> ('l, 'b) prog" where
  "bind (Ret x) f = f x"
| "bind (Raise e) f = Raise e"
| "bind (Call c k) f = Call c (\<lambda>r. bind (k r) f)"
| "bind (Get_Local k) f = Get_Local (\<lambda>l. bind (k l) f)"
| "bind (Put_Local l p) f = Put_Local l (bind p f)"
| "bind (Emit m p) f = Emit m (bind p f)"

text \<open>\<^verbatim>\<open>try: p except C as e: h e\<close>, with the guard of the clause; several clauses nest
  through \<open>h\<close>.\<close>

primrec except :: "(pyexn \<Rightarrow> bool) \<Rightarrow> ('l, 'a) prog \<Rightarrow> (pyexn \<Rightarrow> ('l, 'a) prog) \<Rightarrow> ('l, 'a) prog" where
  "except g (Ret x) h = Ret x"
| "except g (Raise e) h = (if g e then h e else Raise e)"
| "except g (Call c k) h = Call c (\<lambda>r. except g (k r) h)"
| "except g (Get_Local k) h = Get_Local (\<lambda>l. except g (k l) h)"
| "except g (Put_Local l p) h = Put_Local l (except g p h)"
| "except g (Emit m p) h = Emit m (except g p h)"

text \<open>\<^verbatim>\<open>try: p finally: q\<close>: an exception of \<open>q\<close> replaces the outcome of \<open>p\<close>.\<close>

primrec finally_do :: "('l, 'a) prog \<Rightarrow> ('l, unit) prog \<Rightarrow> ('l, 'a) prog" where
  "finally_do (Ret x) q = bind q (\<lambda>_. Ret x)"
| "finally_do (Raise e) q = bind q (\<lambda>_. Raise e)"
| "finally_do (Call c k) q = Call c (\<lambda>r. finally_do (k r) q)"
| "finally_do (Get_Local k) q = Get_Local (\<lambda>l. finally_do (k l) q)"
| "finally_do (Put_Local l p) q = Put_Local l (finally_do p q)"
| "finally_do (Emit m p) q = Emit m (finally_do p q)"

text \<open>The outcome of \<open>p\<close> as a value, for handlers that go on in every case.\<close>

definition attempt :: "('l, 'a) prog \<Rightarrow> ('l, pyexn + 'a) prog" where
  "attempt p = except (\<lambda>_. True) (bind p (\<lambda>x. Ret (Inr x))) (\<lambda>e. Ret (Inl e))"

definition andthen :: "('l, 'a) prog \<Rightarrow> ('l, 'b) prog \<Rightarrow> ('l, 'b) prog" where
  "andthen p q = bind p (\<lambda>_. q)"

definition emit :: "metric \<Rightarrow> ('l, unit) prog" where
  "emit m = Emit m (Ret ())"

definition skip :: "('l, unit) prog" where
  "skip = Ret ()"

definition get_local :: "('l, 'l) prog" where
  "get_local = Get_Local Ret"

definition modify_local :: "('l \<Rightarrow> 'l) \<Rightarrow> ('l, unit) prog" where
  "modify_local f = Get_Local (\<lambda>l. Put_Local (f l) (Ret ()))"

lemma andthen_skip [simp]: "andthen skip p = p"
  by (simp add: andthen_def skip_def)

text \<open>A \<^verbatim>\<open>for\<close> loop over a list already in hand.\<close>

fun for_each :: "'b list \<Rightarrow> ('b \<Rightarrow> ('l, unit) prog) \<Rightarrow> ('l, unit) prog" where
  "for_each [] f = Ret ()"
| "for_each (x # xs) f = bind (f x) (\<lambda>_. for_each xs f)"

subsection \<open>Calls with typed results\<close>

definition redis :: "rcmd \<Rightarrow> ('l, rreply) prog" where
  "redis c = Call (Redis c) (\<lambda>r. case r of
       Inl e \<Rightarrow> Raise e
     | Inr (Redis_Reply x) \<Rightarrow> Ret x
     | _ \<Rightarrow> Raise response_error)"

text \<open>\<^verbatim>\<open>GET\<close> and \<^verbatim>\<open>HGET\<close>: a string or \<^verbatim>\<open>None\<close>.\<close>

definition as_text :: "rreply \<Rightarrow> ('l, string option) prog" where
  "as_text r = (case r of RNil \<Rightarrow> Ret None | RBulk x \<Rightarrow> Ret (Some x) | _ \<Rightarrow> Raise response_error)"

text \<open>\<^verbatim>\<open>EXISTS\<close>, \<^verbatim>\<open>DEL\<close>, scripts: an integer read as a truth value.\<close>

definition as_bool :: "rreply \<Rightarrow> ('l, bool) prog" where
  "as_bool r = (case r of RInt i \<Rightarrow> Ret (i \<noteq> 0) | _ \<Rightarrow> Raise response_error)"

text \<open>\<^verbatim>\<open>SET ... NX\<close>: \<^verbatim>\<open>True\<close> or \<^verbatim>\<open>None\<close>.\<close>

definition as_ok :: "rreply \<Rightarrow> ('l, bool) prog" where
  "as_ok r = (case r of ROk \<Rightarrow> Ret True | RNil \<Rightarrow> Ret False | _ \<Rightarrow> Raise response_error)"

definition as_hash :: "rreply \<Rightarrow> ('l, dict) prog" where
  "as_hash r = (case r of RHash d \<Rightarrow> Ret d | _ \<Rightarrow> Raise response_error)"

definition as_hashes :: "rreply \<Rightarrow> ('l, dict list) prog" where
  "as_hashes r = (case r of RHashes ds \<Rightarrow> Ret ds | _ \<Rightarrow> Raise response_error)"

definition as_members :: "rreply \<Rightarrow> ('l, string list) prog" where
  "as_members r = (case r of RSet xs \<Rightarrow> Ret xs | _ \<Rightarrow> Raise response_error)"

definition as_list :: "rreply \<Rightarrow> ('l, string list) prog" where
  "as_list r = (case r of RList xs \<Rightarrow> Ret xs | _ \<Rightarrow> Raise response_error)"

definition as_int :: "rreply \<Rightarrow> ('l, int) prog" where
  "as_int r = (case r of RInt i \<Rightarrow> Ret i | _ \<Rightarrow> Raise response_error)"

definition redis_get where "redis_get k = bind (redis (Get k)) as_text"
definition redis_hget where "redis_hget k f = bind (redis (Hget k f)) as_text"
definition redis_exists where "redis_exists k = bind (redis (Exists k)) as_bool"
definition redis_setnx where "redis_setnx k v ex = bind (redis (Set_Nx k v ex)) as_ok"
definition redis_hgetall where "redis_hgetall k = bind (redis (Hgetall k)) as_hash"
definition redis_hgetalls where "redis_hgetalls ks = bind (redis (Pipeline_Hgetall ks)) as_hashes"
definition redis_smembers where "redis_smembers k = bind (redis (Smembers k)) as_members"
definition redis_eval where "redis_eval sc = bind (redis (Eval sc)) as_bool"
definition redis_do :: "rcmd \<Rightarrow> ('l, unit) prog" where "redis_do c = bind (redis c) (\<lambda>_. Ret ())"

definition pg_transaction :: "sql \<Rightarrow> ('l, unit) prog" where
  "pg_transaction q = Call (Pg q) (\<lambda>r. case r of Inl e \<Rightarrow> Raise e | Inr _ \<Rightarrow> Ret ())"

definition datetime_now :: "('l, datetime) prog" where
  "datetime_now = Call Now (\<lambda>r. case r of
       Inr (Time_Reply d) \<Rightarrow> Ret d | Inl e \<Rightarrow> Raise e | _ \<Rightarrow> Raise response_error)"

definition uuid4 :: "('l, string) prog" where
  "uuid4 = Call Uuid4 (\<lambda>r. case r of
       Inr (Text_Reply u) \<Rightarrow> Ret u | Inl e \<Rightarrow> Raise e | _ \<Rightarrow> Raise response_error)"

definition sleep_ms :: "int \<Rightarrow> ('l, unit) prog" where
  "sleep_ms ms = Call (Sleep ms) (\<lambda>r. case r of Inl e \<Rightarrow> Raise e | Inr _ \<Rightarrow> Ret ())"

definition unit_call :: "call \<Rightarrow> ('l, unit) prog" where
  "unit_call c = Call c (\<lambda>r. case r of Inl e \<Rightarrow> Raise e | Inr _ \<Rightarrow> Ret ())"

definition next_comment :: "string \<Rightarrow> bool \<Rightarrow> ('l, comment_event) prog" where
  "next_comment sub skip_existing = Call (Next_Comment sub skip_existing) (\<lambda>r. case r of
       Inr (Comment_Reply c) \<Rightarrow> Ret c | Inl e \<Rightarrow> Raise e | _ \<Rightarrow> Raise response_error)"

definition serialize :: "reddit_comment_message \<Rightarrow> ('l, string option) prog" where
  "serialize m = Call (Serialize m) (\<lambda>r. case r of
       Inr (Payload_Reply b) \<Rightarrow> Ret b | Inl e \<Rightarrow> Raise e | _ \<Rightarrow> Raise response_error)"

definition produce :: "string \<Rightarrow> string \<Rightarrow> string \<Rightarrow> ('l, nat) prog" where
  "produce topic key payload = Call (Produce topic key payload) (\<lambda>r. case r of
       Inr (Handle_Reply h) \<Rightarrow> Ret h | Inl e \<Rightarrow> Raise e | _ \<Rightarrow> Raise response_error)"

definition reports_call :: "call \<Rightarrow> ('l, delivery_report list) prog" where
  "reports_call c = Call c (\<lambda>r. case r of
       Inr (Reports_Reply rs) \<Rightarrow> Ret rs | Inl e \<Rightarrow> Raise e | _ \<Rightarrow> Raise response_error)"

definition loop_time :: "('l, int) prog" where
  "loop_time = Call Loop_Time (\<lambda>r. case r of
       Inr (Clock_Reply t) \<Rightarrow> Ret t | Inl e \<Rightarrow> Raise e | _ \<Rightarrow> Raise response_error)"

definition wait_tasks :: "string \<Rightarrow> ('l, task_event) prog" where
  "wait_tasks i = Call (Wait_Tasks i) (\<lambda>r. case r of
       Inr (Task_Reply t) \<Rightarrow> Ret t | Inl e \<Rightarrow> Raise e | _ \<Rightarrow> Raise response_error)"

definition list_topics :: "('l, bool) prog" where
  "list_topics = Call List_Topics (\<lambda>r. case r of
       Inr (Bool_Reply b) \<Rightarrow> Ret b | Inl e \<Rightarrow> Raise e | _ \<Rightarrow> Raise response_error)"

definition timed_out :: "('l, bool) prog" where
  "timed_out = Call Timed_Out (\<lambda>r. case r of
       Inr (Bool_Reply b) \<Rightarrow> Ret b | Inl e \<Rightarrow> Raise e | _ \<Rightarrow> Raise response_error)"

definition task_done :: "string \<Rightarrow> ('l, bool) prog" where
  "task_done i = Call (Task_Done i) (\<lambda>r. case r of
       Inr (Bool_Reply b) \<Rightarrow> Ret b | Inl e \<Rightarrow> Raise e | _ \<Rightarrow> Raise response_error)"

definition probe :: "string \<Rightarrow> ('l, bool) prog" where
  "probe i = Call (Probe i) (\<lambda>r. case r of
       Inr (Bool_Reply b) \<Rightarrow> Ret b | Inl e \<Rightarrow> Raise e | _ \<Rightarrow> Raise response_error)"

definition flush_producer :: "int \<Rightarrow> ('l, nat) prog" where
  "flush_producer timeout = Call (Flush_Producer timeout) (\<lambda>r. case r of
       Inr (Handle_Reply n) \<Rightarrow> Ret n | Inl e \<Rightarrow> Raise e | _ \<Rightarrow> Raise response_error)"

text \<open>\<^verbatim>\<open>asyncio.wait_for(p, timeout)\<close>: at the deadline \<open>p\<close> is cancelled and
  \<^verbatim>\<open>TimeoutError\<close> raised in its place; a cancellation from outside passes through.\<close>

definition wait_for :: "('l, 'a) prog \<Rightarrow> ('l, 'a) prog" where
  "wait_for p = except is_cancelled p (\<lambda>e.
     bind timed_out (\<lambda>b. if b then Raise (timeout_error []) else Raise e))"

text \<open>\<^verbatim>\<open>_now_iso()\<close> of src/repositories/stream_registry.py.\<close>

definition now_iso :: "('l, string) prog" where
  "now_iso = bind datetime_now (\<lambda>d. Ret (isoformat (naive d) @ ''Z''))"

text \<open>A best-effort copy in PostgreSQL: \<^verbatim>\<open>async with self._session_maker() as session: ... except Exception: logger.exception(...)\<close>.\<close>

definition persist :: "bool \<Rightarrow> sql \<Rightarrow> ('l, unit) prog" where
  "persist db q = (if db then except is_exception (pg_transaction q) (\<lambda>_. skip) else skip)"

subsection \<open>Running a program alone\<close>

primrec run :: "'w services \<Rightarrow> ('l, 'a) prog \<Rightarrow> 'l \<Rightarrow> 'w \<Rightarrow> (pyexn + 'a) \<times> 'l \<times> 'w" where
  "run S (Ret x) l w = (Inr x, l, w)"
| "run S (Raise e) l w = (Inl e, l, w)"
| "run S (Call c k) l w = (case ask S c w of (r, w') \<Rightarrow> run S (k r) l w')"
| "run S (Get_Local k) l w = run S (k l) l w"
| "run S (Put_Local l' p) l w = run S p l' w"
| "run S (Emit m p) l w = run S p l (tell S m w)"

subsection \<open>Weakest preconditions over the documented answers\<close>

primrec wp :: "('l, 'a) prog \<Rightarrow> (pyexn + 'a \<Rightarrow> 'l \<Rightarrow> view \<Rightarrow> bool) \<Rightarrow> 'l \<Rightarrow> view \<Rightarrow> bool" where
  "wp (Ret x) Q l v = Q (Inr x) l v"
| "wp (Raise e) Q l v = Q (Inl e) l v"
| "wp (Call c k) Q l v = (\<forall>r v'. documented c v r v' \<longrightarrow> wp (k r) Q l v')"
| "wp (Get_Local k) Q l v = wp (k l) Q l v"
| "wp (Put_Local l' p) Q l v = wp p Q l' v"
| "wp (Emit m p) Q l v = wp p Q l (v\<lparr>metrics := m # metrics v\<rparr>)"

context documented_services
begin

lemma wp_run:
  "wp p Q l (V w) \<Longrightarrow> (case run S p l w of (r, l', w') \<Rightarrow> Q r l' (V w'))"
proof (induction p arbitrary: l w)
  case (Call c k)
  obtain r w' where a: "ask S c w = (r, w')" by (cases "ask S c w")
  with ask_doc [of c w] have "documented c (V w) r (V w')" by simp
  with Call.prems have "wp (k r) Q l (V w')" by auto
  then have "case run S (k r) l w' of (r, l', w') \<Rightarrow> Q r l' (V w')"
    by (rule Call.IH [OF rangeI])
  with a show ?case by simp
qed (auto simp: tell_doc)

lemma run_wp:
  assumes "run S p l w = (r, l', w')" and "wp p Q l (V w)"
  shows "Q r l' (V w')"
  using wp_run [OF assms(2)] assms(1) by simp

end

lemma wp_mono:
  assumes "wp p Q l v" and "\<And>r l v. Q r l v \<Longrightarrow> Q' r l v"
  shows "wp p Q' l v"
  using assms(1) by (induction p arbitrary: l v) (auto intro: assms(2))

lemma wp_conj: "wp p (\<lambda>r l v. Q r l v \<and> Q' r l v) l v \<longleftrightarrow> wp p Q l v \<and> wp p Q' l v"
  by (induction p arbitrary: l v) auto

lemma wp_bind [wp_rules]:
  "wp (bind p f) Q l v =
     wp p (\<lambda>r l v. case r of Inl e \<Rightarrow> Q (Inl e) l v | Inr x \<Rightarrow> wp (f x) Q l v) l v"
  by (induction p arbitrary: l v) auto

lemma wp_seq:
  assumes "wp p R l v" and "\<And>e l v. R (Inl e) l v \<Longrightarrow> Q (Inl e) l v"
    and "\<And>x l v. R (Inr x) l v \<Longrightarrow> wp (f x) Q l v"
  shows "wp (bind p f) Q l v"
  unfolding wp_bind using assms(1) by (rule wp_mono) (auto intro: assms split: sum.splits)

lemma wp_seq_andthen:
  assumes "wp p R l v" and "\<And>e l v. R (Inl e) l v \<Longrightarrow> Q (Inl e) l v"
    and "\<And>x l v. R (Inr x) l v \<Longrightarrow> wp q Q l v"
  shows "wp (andthen p q) Q l v"
  unfolding andthen_def using assms by (rule wp_seq)

lemma wp_except [wp_rules]:
  "wp (except g p h) Q l v =
     wp p (\<lambda>r l v. case r of
        Inl e \<Rightarrow> if g e then wp (h e) Q l v else Q (Inl e) l v | Inr x \<Rightarrow> Q (Inr x) l v) l v"
  by (induction p arbitrary: l v) auto

lemma wp_finally [wp_rules]:
  "wp (finally_do p q) Q l v =
     wp p (\<lambda>r. wp q (\<lambda>r' l v. case r' of Inl e \<Rightarrow> Q (Inl e) l v | Inr _ \<Rightarrow> Q r l v)) l v"
  by (induction p arbitrary: l v) (simp_all add: wp_bind cong: sum.case_cong)

lemma wp_attempt [wp_rules]: "wp (attempt p) Q l v = wp p (\<lambda>r. Q (Inr r)) l v"
proof -
  have "(\<lambda>r l v. case r of Inl e \<Rightarrow> Q (Inr (Inl e)) l v | Inr x \<Rightarrow> Q (Inr (Inr x)) l v) = (\<lambda>r. Q (Inr r))"
    by (auto simp: fun_eq_iff split: sum.splits)
  then show ?thesis by (simp add: attempt_def wp_except wp_bind cong: sum.case_cong)
qed

lemma wp_andthen [wp_rules]:
  "wp (andthen p q) Q l v =
     wp p (\<lambda>r l v. case r of Inl e \<Rightarrow> Q (Inl e) l v | Inr _ \<Rightarrow> wp q Q l v) l v"
  by (simp add: andthen_def wp_bind)

lemma wp_basic [wp_rules]:
  "wp (emit m) Q l v = Q (Inr ()) l (v\<lparr>metrics := m # metrics v\<rparr>)"
  "wp skip Q l v = Q (Inr ()) l v"
  "wp get_local Q' l v = Q' (Inr l) l v"
  "wp (modify_local f) Q l v = Q (Inr ()) (f l) v"
  by (simp_all add: emit_def skip_def get_local_def modify_local_def)

lemma all_reply:
  "(\<forall>x. P x) \<longleftrightarrow> (\<forall>y. P (Redis_Reply y)) \<and> P Unit_Reply \<and> (\<forall>d. P (Time_Reply d)) \<and>
     (\<forall>u. P (Text_Reply u)) \<and> (\<forall>c. P (Comment_Reply c)) \<and> (\<forall>b. P (Payload_Reply b)) \<and>
     (\<forall>h. P (Handle_Reply h)) \<and> (\<forall>rs. P (Reports_Reply rs)) \<and> (\<forall>t. P (Clock_Reply t)) \<and>
     (\<forall>t. P (Task_Reply t)) \<and> (\<forall>b. P (Bool_Reply b))"
  by (metis reply.exhaust)

text \<open>One rule per kind of call. A Redis call happens at some later time \<open>t\<close>.\<close>

lemma wp_redis:
  "wp (redis c) Q l v =
     (\<forall>t \<ge> rclock (rdb v).
        (\<forall>e. Q (Inl e) l (v\<lparr>rdb := at_time t (rdb v)\<rparr>)
           \<and> Q (Inl e) l (v\<lparr>rdb := redis_effect c (at_time t (rdb v))\<rparr>))
      \<and> (\<forall>y. redis_answer c (at_time t (rdb v)) y \<longrightarrow>
             Q (Inr y) l (v\<lparr>rdb := redis_effect c (at_time t (rdb v))\<rparr>)))"
  by (auto simp: redis_def split_sum_all all_reply) blast

lemma wp_pg [wp_rules]:
  "wp (pg_transaction q) Q l v =
     ((\<forall>e. Q (Inl e) l v) \<and>
      (\<forall>db. pg_exec q (pgd v) = Some db \<longrightarrow>
         (\<forall>e. Q (Inl e) l (v\<lparr>pgd := db\<rparr>)) \<and> Q (Inr ()) l (v\<lparr>pgd := db\<rparr>)))"
  by (auto simp: pg_transaction_def split_sum_all all_reply)

lemma wp_now [wp_rules]:
  "wp datetime_now Q l v = (\<forall>d. valid_datetime d \<and> tz d = Some 0 \<longrightarrow> Q (Inr d) l v)"
  by (auto simp: datetime_now_def split_sum_all all_reply)

definition issued :: "string \<Rightarrow> view \<Rightarrow> view" where
  "issued u v = v\<lparr>uuids := u # uuids v\<rparr>"

lemma issued_sel [simp]:
  "rdb (issued u v) = rdb v" "pgd (issued u v) = pgd v"
  "uuids (issued u v) = u # uuids v" "metrics (issued u v) = metrics v"
  by (simp_all add: issued_def)

lemma wp_uuid4 [wp_rules]:
  "wp uuid4 Q l v = (\<forall>u. u \<noteq> [] \<and> u \<notin> set (uuids v) \<longrightarrow> Q (Inr u) l (issued u v))"
  by (auto simp: uuid4_def split_sum_all all_reply issued_def)

lemma wp_sleep [wp_rules]:
  "wp (sleep_ms ms) Q l v =
     (Q (Inr ()) l v \<and> (\<forall>e. is_cancelled e \<and> \<not> is_exception e \<longrightarrow> Q (Inl e) l v))"
  by (auto simp: sleep_ms_def split_sum_all all_reply)

lemma wp_next_comment [wp_rules]:
  "wp (next_comment sub sk) Q l v = ((\<forall>e. Q (Inl e) l v) \<and> (\<forall>c. Q (Inr c) l v))"
  by (auto simp: next_comment_def split_sum_all all_reply)

lemma wp_serialize [wp_rules]:
  "wp (serialize m) Q l v = ((\<forall>e. is_exception e \<longrightarrow> Q (Inl e) l v) \<and> (\<forall>b. Q (Inr b) l v))"
  by (auto simp: serialize_def split_sum_all all_reply)

lemma wp_produce [wp_rules]:
  "wp (produce topic key x) Q l v =
     ((\<forall>e. is_exception e \<longrightarrow> Q (Inl e) l v) \<and>
      Q (Inr (length (sent v))) l (v\<lparr>sent := sent v @ [(topic, key, x)]\<rparr>))"
  by (auto simp: produce_def split_sum_all all_reply)

lemma wp_loop_time [wp_rules]:
  "wp loop_time Q l v = (\<forall>t \<ge> loop_clock v. Q (Inr t) l (v\<lparr>loop_clock := t\<rparr>))"
  by (auto simp: loop_time_def split_sum_all all_reply)

lemma wp_timed_out [wp_rules]:
  "wp timed_out Q l v = (\<forall>b. Q (Inr b) l v)" "wp (task_done i) Q l v = (\<forall>b. Q (Inr b) l v)"
  by (auto simp: timed_out_def task_done_def split_sum_all all_reply)

text \<open>Reports arrive: the broker's acknowledgements only grow, and a report without an
  error is the broker's word that it has the message.\<close>

lemma wp_poll [wp_rules]:
  "wp (reports_call Poll) Q l v =
     ((\<forall>e. is_exception e \<longrightarrow> Q (Inl e) l v) \<and>
      (\<forall>rs a. truthful v rs a \<longrightarrow> Q (Inr rs) l (v\<lparr>acked := a\<rparr>)))"
  by (auto simp: reports_call_def split_sum_all all_reply)

lemma wp_wait_deliveries [wp_rules]:
  "wp (reports_call (Wait_Deliveries hs timeout)) Q l v =
     ((\<forall>e. is_cancelled e \<and> \<not> is_exception e \<longrightarrow> Q (Inl e) l v) \<and>
      (\<forall>rs a t. truthful v rs a \<and> loop_clock v \<le> t \<and>
          (loop_clock v + timeout \<le> t \<or> (\<exists>d \<in> set rs. dr_handle d \<in> set hs)) \<longrightarrow>
         Q (Inr rs) l (v\<lparr>acked := a, loop_clock := t\<rparr>)))"
  by (auto simp: reports_call_def split_sum_all all_reply) blast+

lemma wp_subreddit [wp_rules]:
  "wp (unit_call (Reddit_Subreddit sub)) Q l v = ((\<forall>e. Q (Inl e) l v) \<and> Q (Inr ()) l v)"
  by (auto simp: unit_call_def split_sum_all all_reply)

lemma wp_load [wp_rules]:
  "wp (unit_call (Load_Subreddit sub)) Q l v = ((\<forall>e. Q (Inl e) l v) \<and> Q (Inr ()) l v)"
  "wp list_topics Q' l v = ((\<forall>e. Q' (Inl e) l v) \<and> (\<forall>b. Q' (Inr b) l v))"
  by (auto simp: unit_call_def list_topics_def split_sum_all all_reply)

lemma wp_wait_tasks [wp_rules]:
  "wp (wait_tasks i) Q l v =
     ((\<forall>e. is_cancelled e \<and> \<not> is_exception e \<longrightarrow> Q (Inl e) l v) \<and> (\<forall>t. Q (Inr t) l v))"
  by (auto simp: wait_tasks_def split_sum_all all_reply)

lemma wp_tasks [wp_rules]:
  "wp (unit_call (Cancel_Task i)) Q l v = Q (Inr ()) l v"
  "wp (unit_call (Join_Task i)) Q l v = ((\<forall>e. Q (Inl e) l v) \<and> Q (Inr ()) l v)"
  "wp (unit_call (Gather is)) Q l v =
     ((\<forall>e. is_cancelled e \<and> \<not> is_exception e \<longrightarrow> Q (Inl e) l v) \<and> Q (Inr ()) l v)"
  by (auto simp: unit_call_def split_sum_all all_reply)

lemma wp_clients [wp_rules]:
  "wp (probe i) Q l v = ((\<forall>e. Q (Inl e) l v) \<and> (\<forall>b. Q (Inr b) l v))"
  "wp (unit_call (Close_Client i)) Q' l v = ((\<forall>e. Q' (Inl e) l v) \<and> Q' (Inr ()) l v)"
  by (auto simp: probe_def unit_call_def split_sum_all all_reply)

lemma wp_flush_producer [wp_rules]:
  "wp (flush_producer timeout) Q l v =
     (\<forall>a. truthful v [] a \<longrightarrow> (\<forall>e. Q (Inl e) l (v\<lparr>acked := a\<rparr>)) \<and> (\<forall>n. Q (Inr n) l (v\<lparr>acked := a\<rparr>)))"
  by (simp add: flush_producer_def split_sum_all all_reply) blast

lemma wp_wait_for [wp_rules]:
  "wp (wait_for p) Q l v =
     wp p (\<lambda>r l v. case r of
        Inl e \<Rightarrow> if is_cancelled e then Q (Inl (timeout_error [])) l v \<and> Q (Inl e) l v else Q (Inl e) l v
      | Inr x \<Rightarrow> Q (Inr x) l v) l v"
proof -
  have "(\<forall>b. wp (if b then Raise e' else Raise e) Q l v) = (Q (Inl e') l v \<and> Q (Inl e) l v)" for e e' l v
    by (metis wp.simps(2))
  then show ?thesis
    by (simp add: wait_for_def wp_except wp_bind wp_timed_out(1) cong: sum.case_cong)
qed

lemma wp_now_iso [wp_rules]:
  "wp now_iso Q l v = (\<forall>d. valid_datetime d \<and> tz d = Some 0 \<longrightarrow> Q (Inr (stamp d)) l v)"
  by (simp add: now_iso_def wp_rules stamp_def)

lemma wp_persist [wp_rules]:
  "wp (persist db q) Q l v =
     (Q (Inr ()) l v \<and>
      (db \<longrightarrow>
        (\<forall>e. \<not> is_exception e \<longrightarrow> Q (Inl e) l v) \<and>
        (\<forall>d. pg_exec q (pgd v) = Some d \<longrightarrow>
           Q (Inr ()) l (v\<lparr>pgd := d\<rparr>) \<and> (\<forall>e. \<not> is_exception e \<longrightarrow> Q (Inl e) l (v\<lparr>pgd := d\<rparr>)))))"
proof -
  have ex: "Py_Exception \<in> set (emro response_error)" by simp
  show ?thesis
    by (auto simp: persist_def wp_rules dest: spec [of _ response_error] split: if_splits)
qed

subsection \<open>Programs that keep an invariant whatever their outcome\<close>

definition keeps :: "(view \<Rightarrow> bool) \<Rightarrow> ('l, 'a) prog \<Rightarrow> bool" where
  "keeps I p = (\<forall>l v. I v \<longrightarrow> wp p (\<lambda>_ _. I) l v)"

lemma keepsI: "(\<And>l v. I v \<Longrightarrow> wp p (\<lambda>_ _. I) l v) \<Longrightarrow> keeps I p"
  by (simp add: keeps_def)

lemma keepsD: "keeps I p \<Longrightarrow> I v \<Longrightarrow> wp p (\<lambda>_ _. I) l v"
  by (simp add: keeps_def)

lemma keeps_bind [keeps_rules]: "keeps I p \<Longrightarrow> (\<And>x. keeps I (f x)) \<Longrightarrow> keeps I (bind p f)"
  unfolding keeps_def wp_bind
  by (intro allI impI, elim allE, erule (1) impE, erule wp_mono) (auto split: sum.splits)

lemma keeps_andthen [keeps_rules]: "keeps I p \<Longrightarrow> keeps I q \<Longrightarrow> keeps I (andthen p q)"
  by (simp add: andthen_def keeps_bind)

lemma keeps_except [keeps_rules]:
  "keeps I p \<Longrightarrow> (\<And>e. keeps I (h e)) \<Longrightarrow> keeps I (except g p h)"
  unfolding keeps_def wp_except
  by (intro allI impI, elim allE, erule (1) impE, erule wp_mono) (auto split: sum.splits)

lemma keeps_finally [keeps_rules]:
  assumes "keeps I p" and "keeps I q"
  shows "keeps I (finally_do p q)"
proof (rule keepsI)
  fix l v
  assume "I v"
  then have "wp p (\<lambda>_ _. I) l v" by (rule keepsD [OF assms(1)])
  then show "wp (finally_do p q) (\<lambda>_ _. I) l v"
    unfolding wp_finally
    by (rule wp_mono) (auto simp: sum.case_eq_if intro: keepsD [OF assms(2)])
qed

lemma keeps_attempt [keeps_rules]: "keeps I p \<Longrightarrow> keeps I (attempt p)"
  by (simp add: keeps_def wp_attempt)

lemma keeps_sum [keeps_rules]:
  "(\<And>e. r = Inl e \<Longrightarrow> keeps I (f e)) \<Longrightarrow> (\<And>x. r = Inr x \<Longrightarrow> keeps I (g x)) \<Longrightarrow>
     keeps I (case r of Inl e \<Rightarrow> f e | Inr x \<Rightarrow> g x)"
  by (cases r) auto

lemma keeps_basic [keeps_rules]:
  "keeps I (Ret x)" "keeps I (Raise e)" "keeps I skip"
  "keeps I (modify_local f)"
  by (simp_all add: keeps_def wp_basic)

lemma keeps_get_local [keeps_rules]: "(\<And>l. keeps I (f l)) \<Longrightarrow> keeps I (bind get_local f)"
  by (simp add: keeps_def wp_bind wp_basic)

lemma keeps_emit: "(\<And>v. I v \<Longrightarrow> I (v\<lparr>metrics := m # metrics v\<rparr>)) \<Longrightarrow> keeps I (emit m)"
  by (simp add: keeps_def wp_basic)

lemma keeps_if [keeps_rules]: "(b \<Longrightarrow> keeps I p) \<Longrightarrow> (\<not> b \<Longrightarrow> keeps I q) \<Longrightarrow> keeps I (if b then p else q)"
  by simp

lemma keeps_option [keeps_rules]:
  "(x = None \<Longrightarrow> keeps I p) \<Longrightarrow> (\<And>y. x = Some y \<Longrightarrow> keeps I (f y)) \<Longrightarrow>
     keeps I (case x of None \<Rightarrow> p | Some y \<Rightarrow> f y)"
  by (cases x) auto

lemma keeps_let [keeps_rules]: "(\<And>x. x = t \<Longrightarrow> keeps I (f x)) \<Longrightarrow> keeps I (let x = t in f x)"
  by simp

lemma keeps_prod [keeps_rules]:
  "(\<And>x y. t = (x, y) \<Longrightarrow> keeps I (f x y)) \<Longrightarrow> keeps I (case t of (x, y) \<Rightarrow> f x y)"
  by (cases t) simp

lemma keeps_for_each [keeps_rules]:
  "(\<And>x. x \<in> set xs \<Longrightarrow> keeps I (f x)) \<Longrightarrow> keeps I (for_each xs f)"
  by (induction xs) (auto intro: keeps_rules)

lemma keeps_pure_calls [keeps_rules]:
  "keeps I now_iso" "keeps I datetime_now" "keeps I (sleep_ms ms)"
  by (simp_all add: keeps_def wp_now_iso wp_now wp_sleep)

lemma keeps_wp: "keeps I p \<Longrightarrow> I v \<Longrightarrow> wp p Q l v \<Longrightarrow> wp p (\<lambda>r l v. Q r l v \<and> I v) l v"
  by (simp add: wp_conj keepsD)

lemma keeps_run:
  assumes "documented_services S V" and "keeps I p" and "I (V w)" and "run S p l w = (r, l', w')"
  shows "I (V w')"
  by (rule documented_services.run_wp [where Q = "\<lambda>_ _. I", OF assms(1,4)]) (rule keepsD [OF assms(2,3)])

end
