(* ===== verification/Interleaving.thy ===== *)
theory Interleaving
  imports Effects
begin

section \<open>Coroutines that run together\<close>

text \<open>
  Any number of programs, tasks of one event loop that share their object's attributes or
  processes that share only the services, whose calls interleave in any order. What
  happens between two calls of a program is one uninterrupted step (\<open>settle\<close>). A schedule is
  any list of indices: the program named makes its next call. What carries over to every
  schedule is a \<open>discipline\<close>: a property of programs that each answered call leaves to the rest of its program, with an
  invariant of the services. For one, \<open>issues\<close> bounds the calls a program ever makes, whatever the answers, and an
  invariant that those calls keep (\<open>stable\<close>) holds at every moment.
\<close>

subsection \<open>Steps\<close>

primrec settle :: "'w services \<Rightarrow> ('l, 'a) prog \<Rightarrow> 'l \<Rightarrow> 'w \<Rightarrow> ('l, 'a) prog \<times> 'l \<times> 'w" where
  "settle S (Ret x) l w = (Ret x, l, w)"
| "settle S (Raise e) l w = (Raise e, l, w)"
| "settle S (Call c k) l w = (Call c k, l, w)"
| "settle S (Get_Local k) l w = settle S (k l) l w"
| "settle S (Put_Local l' p) l w = settle S p l' w"
| "settle S (Emit m p) l w = settle S p l (tell S m w)"

type_synonym ('l, 'a, 'w) pool = "('l, 'a) prog list \<times> 'l \<times> 'w"

definition pool_step :: "'w services \<Rightarrow> nat \<Rightarrow> ('l, 'a, 'w) pool \<Rightarrow> ('l, 'a, 'w) pool" where
  "pool_step S i = (\<lambda>(ps, l, w).
     if i < length ps then
       (case settle S (ps ! i) l w of
          (Call c k, l1, w1) \<Rightarrow>
            (case ask S c w1 of (r, w2) \<Rightarrow>
              (case settle S (k r) l1 w2 of (p, l2, w3) \<Rightarrow> (ps[i := p], l2, w3)))
        | (p, l1, w1) \<Rightarrow> (ps[i := p], l1, w1))
     else (ps, l, w))"

definition pool_run :: "'w services \<Rightarrow> nat list \<Rightarrow> ('l, 'a, 'w) pool \<Rightarrow> ('l, 'a, 'w) pool" where
  "pool_run S sch pool = fold (pool_step S) sch pool"

subsection \<open>The calls a program makes\<close>

primrec issues :: "(call \<Rightarrow> bool) \<Rightarrow> ('l, 'a) prog \<Rightarrow> bool" where
  "issues P (Ret x) = True"
| "issues P (Raise e) = True"
| "issues P (Call c k) = (P c \<and> (\<forall>r. issues P (k r)))"
| "issues P (Get_Local k) = (\<forall>l. issues P (k l))"
| "issues P (Put_Local l p) = issues P p"
| "issues P (Emit m p) = issues P p"

lemma issues_mono: "issues P p \<Longrightarrow> (\<And>c. P c \<Longrightarrow> Q c) \<Longrightarrow> issues Q p"
  by (induction p) auto

lemma issues_bind [keeps_rules]: "issues P p \<Longrightarrow> (\<And>x. issues P (f x)) \<Longrightarrow> issues P (bind p f)"
  by (induction p) auto

lemma issues_andthen [keeps_rules]: "issues P p \<Longrightarrow> issues P q \<Longrightarrow> issues P (andthen p q)"
  by (simp add: andthen_def issues_bind)

lemma issues_except [keeps_rules]: "issues P p \<Longrightarrow> (\<And>e. issues P (h e)) \<Longrightarrow> issues P (except g p h)"
  by (induction p) auto

lemma issues_finally [keeps_rules]: "issues P p \<Longrightarrow> issues P q \<Longrightarrow> issues P (finally_do p q)"
  by (induction p) (auto intro!: issues_bind)

lemma issues_attempt [keeps_rules]: "issues P p \<Longrightarrow> issues P (attempt p)"
  by (simp add: attempt_def issues_except issues_bind)

lemma issues_sum [keeps_rules]:
  "(\<And>e. r = Inl e \<Longrightarrow> issues P (f e)) \<Longrightarrow> (\<And>x. r = Inr x \<Longrightarrow> issues P (g x)) \<Longrightarrow>
     issues P (case r of Inl e \<Rightarrow> f e | Inr x \<Rightarrow> g x)"
  by (cases r) auto

lemma issues_basic [keeps_rules]:
  "issues P (Ret x)" "issues P (Raise e)" "issues P skip" "issues P get_local" "issues P (modify_local f)"
  "issues P (emit m)"
  by (simp_all add: skip_def get_local_def modify_local_def emit_def)

lemma issues_if [keeps_rules]:
  "(b \<Longrightarrow> issues P p) \<Longrightarrow> (\<not> b \<Longrightarrow> issues P q) \<Longrightarrow> issues P (if b then p else q)"
  by simp

lemma issues_option [keeps_rules]:
  "(x = None \<Longrightarrow> issues P p) \<Longrightarrow> (\<And>y. x = Some y \<Longrightarrow> issues P (f y)) \<Longrightarrow>
     issues P (case x of None \<Rightarrow> p | Some y \<Rightarrow> f y)"
  by (cases x) auto

lemma issues_prod [keeps_rules]:
  "(\<And>x y. t = (x, y) \<Longrightarrow> issues P (f x y)) \<Longrightarrow> issues P (case t of (x, y) \<Rightarrow> f x y)"
  by (cases t) simp

lemma issues_let [keeps_rules]: "(\<And>x. x = t \<Longrightarrow> issues P (f x)) \<Longrightarrow> issues P (let x = t in f x)"
  by simp

lemma issues_for_each [keeps_rules]:
  "(\<And>x. x \<in> set xs \<Longrightarrow> issues P (f x)) \<Longrightarrow> issues P (for_each xs f)"
  by (induction xs) (auto intro: keeps_rules)

lemma issues_redis: "P (Redis c) \<Longrightarrow> issues P (redis c)"
  by (auto simp: redis_def split: sum.split reply.split)

lemma issues_readings [keeps_rules]:
  "issues P (as_text x)" "issues P (as_bool x)" "issues P (as_ok x)" "issues P (as_hash x)"
  "issues P (as_hashes x)" "issues P (as_members x)" "issues P (as_list x)" "issues P (as_int x)"
  by (auto simp: as_text_def as_bool_def as_ok_def as_hash_def as_hashes_def as_members_def
      as_list_def as_int_def split: rreply.split)

lemma issues_redis_calls [keeps_rules]:
  "P (Redis (Get k)) \<Longrightarrow> issues P (redis_get k)"
  "P (Redis (Hget k f)) \<Longrightarrow> issues P (redis_hget k f)"
  "P (Redis (Exists k)) \<Longrightarrow> issues P (redis_exists k)"
  "P (Redis (Set_Nx k x ex)) \<Longrightarrow> issues P (redis_setnx k x ex)"
  "P (Redis (Hgetall k)) \<Longrightarrow> issues P (redis_hgetall k)"
  "P (Redis (Pipeline_Hgetall ks)) \<Longrightarrow> issues P (redis_hgetalls ks)"
  "P (Redis (Smembers k)) \<Longrightarrow> issues P (redis_smembers k)"
  "P (Redis (Eval sc)) \<Longrightarrow> issues P (redis_eval sc)"
  "P (Redis c) \<Longrightarrow> issues P (redis_do c)"
  by (auto simp: redis_get_def redis_hget_def redis_exists_def redis_setnx_def redis_hgetall_def
      redis_hgetalls_def redis_smembers_def redis_eval_def redis_do_def intro!: keeps_rules issues_redis)

lemma issues_calls [keeps_rules]:
  "P (Pg q) \<Longrightarrow> issues P (pg_transaction q)"
  "P Now \<Longrightarrow> issues P datetime_now" "P Uuid4 \<Longrightarrow> issues P uuid4"
  "P (Sleep ms) \<Longrightarrow> issues P (sleep_ms ms)"
  "P c \<Longrightarrow> issues P (unit_call c)"
  "P (Next_Comment sub sk) \<Longrightarrow> issues P (next_comment sub sk)"
  "P (Serialize m) \<Longrightarrow> issues P (serialize m)"
  "P (Produce topic key x) \<Longrightarrow> issues P (produce topic key x)"
  "P c \<Longrightarrow> issues P (reports_call c)"
  "P Loop_Time \<Longrightarrow> issues P loop_time" "P (Wait_Tasks i) \<Longrightarrow> issues P (wait_tasks i)"
  "P Timed_Out \<Longrightarrow> issues P timed_out" "P (Task_Done i) \<Longrightarrow> issues P (task_done i)" "P List_Topics \<Longrightarrow> issues P list_topics"
  "P (Probe x) \<Longrightarrow> issues P (probe x)" "P (Flush_Producer ms) \<Longrightarrow> issues P (flush_producer ms)"
  by (auto simp: pg_transaction_def datetime_now_def uuid4_def sleep_ms_def unit_call_def next_comment_def
      serialize_def produce_def reports_call_def loop_time_def wait_tasks_def timed_out_def list_topics_def task_done_def probe_def flush_producer_def
      split: sum.split reply.split)

lemma issues_now_iso [keeps_rules]: "P Now \<Longrightarrow> issues P now_iso"
  unfolding now_iso_def by (intro keeps_rules)

lemma issues_wait_for [keeps_rules]: "issues P p \<Longrightarrow> P Timed_Out \<Longrightarrow> issues P (wait_for p)"
  unfolding wait_for_def by (intro keeps_rules)

lemma issues_persist [keeps_rules]: "P (Pg q) \<Longrightarrow> issues P (persist db q)"
  unfolding persist_def by (intro keeps_rules)

text \<open>An invariant of the services' view that those calls keep.\<close>

definition stable :: "(call \<Rightarrow> bool) \<Rightarrow> (view \<Rightarrow> bool) \<Rightarrow> bool" where
  "stable P I = ((\<forall>c v r v'. P c \<longrightarrow> I v \<longrightarrow> documented c v r v' \<longrightarrow> I v') \<and>
     (\<forall>v m. I v \<longrightarrow> I (v\<lparr>metrics := m\<rparr>)))"

lemma issues_keeps: "issues P p \<Longrightarrow> stable P I \<Longrightarrow> keeps I p"
proof (rule keepsI)
  fix l v
  assume "issues P p" "stable P I" "I v"
  then show "wp p (\<lambda>_ _. I) l v"
    by (induction p arbitrary: l v) (auto simp: stable_def)
qed

subsection \<open>What carries over to every schedule\<close>

text \<open>
  A discipline of programs: a property of a program in a view of the services, an invariant of the view and
  a relation between a view and the later ones, such that the program's own steps keep the three and
  the steps of others keep the property. \<open>pool_discipline\<close> carries it to any schedule.
\<close>

locale discipline =
  fixes holds :: "('l, 'a) prog \<Rightarrow> view \<Rightarrow> bool"
    and I :: "view \<Rightarrow> bool"
    and grows :: "view \<Rightarrow> view \<Rightarrow> bool"
  assumes getting: "holds (Get_Local f) v \<Longrightarrow> holds (f l) v"
    and putting: "holds (Put_Local l p) v \<Longrightarrow> holds p v"
    and emitting: "holds (Emit m p) v \<Longrightarrow> I v \<Longrightarrow>
      holds p (v\<lparr>metrics := m # metrics v\<rparr>) \<and> I (v\<lparr>metrics := m # metrics v\<rparr>) \<and> grows v (v\<lparr>metrics := m # metrics v\<rparr>)"
    and calling: "holds (Call c k) v \<Longrightarrow> I v \<Longrightarrow> documented c v r v' \<Longrightarrow> holds (k r) v' \<and> I v' \<and> grows v v'"
    and others: "holds p v \<Longrightarrow> grows v v' \<Longrightarrow> holds p v'"
    and grows_refl: "grows v v"
    and grows_trans: "grows u v \<Longrightarrow> grows v v' \<Longrightarrow> grows u v'"

context documented_services
begin

lemma settle_discipline:
  assumes "discipline holds I grows" and "holds p (V w)" and "I (V w)" and "settle S p l w = (p', l', w')"
  shows "holds p' (V w') \<and> I (V w') \<and> grows (V w) (V w')"
  using assms(2-4)
proof (induction p arbitrary: l w)
  case (Get_Local k)
  from Get_Local.IH [OF rangeI discipline.getting [OF assms(1) Get_Local.prems(1)] Get_Local.prems(2)] Get_Local.prems(3)
  show ?case by simp
next
  case (Put_Local x p)
  from Put_Local.IH [OF discipline.putting [OF assms(1) Put_Local.prems(1)] Put_Local.prems(2)] Put_Local.prems(3)
  show ?case by simp
next
  case (Emit m p)
  from Emit.IH [of "tell S m w"] Emit.prems discipline.emitting [OF assms(1) Emit.prems(1,2)]
  show ?case by (auto simp: tell_doc intro: discipline.grows_trans [OF assms(1)])
qed (auto intro: discipline.grows_refl [OF assms(1)])

lemma step_discipline:
  assumes "discipline holds I grows" and "\<forall>p \<in> set ps. holds p (V w)" and "I (V w)"
    and "pool_step S i (ps, l, w) = (ps', l', w')"
  shows "(\<forall>p \<in> set ps'. holds p (V w')) \<and> I (V w') \<and> grows (V w) (V w')"
proof (cases "i < length ps")
  case True
  note trans = discipline.grows_trans [OF assms(1)]
  obtain p1 l1 w1 where s1: "settle S (ps ! i) l w = (p1, l1, w1)" by (rule prod_cases3)
  have p1: "holds p1 (V w1)" "I (V w1)" "grows (V w) (V w1)"
    using settle_discipline [OF assms(1) _ assms(3) s1] assms(2) True by auto
  have upd: "\<forall>q \<in> set (ps[i := p]). holds q (V u)" if "holds p (V u)" "grows (V w) (V u)" for p u
    using that assms(2) discipline.others [OF assms(1)] by (auto dest!: set_update_subset_insert [THEN subsetD])
  have call: ?thesis if c: "p1 = Call c k" for c k
  proof -
    obtain r w2 where a: "ask S c w1 = (r, w2)" by fastforce
    obtain p l2 w3 where s2: "settle S (k r) l1 w2 = (p, l2, w3)" by (rule prod_cases3)
    have "documented c (V w1) r (V w2)" using ask_doc [of c w1] a by simp
    from discipline.calling [OF assms(1) p1(1) [unfolded c] p1(2) this]
    have k: "holds (k r) (V w2)" "I (V w2)" "grows (V w1) (V w2)" by auto
    from settle_discipline [OF assms(1) k(1,2) s2] have "holds p (V w3)" "I (V w3)" "grows (V w2) (V w3)" by auto
    moreover from this p1(3) k(3) have "grows (V w) (V w3)" by (blast intro: trans)
    moreover have "ps' = ps[i := p]" "w' = w3" using assms(4) True s1 c a s2 by (auto simp: pool_step_def)
    ultimately show ?thesis using upd by simp
  qed
  show ?thesis
    using assms(4) True s1 p1 upd [OF p1(1,3)] call by (cases p1) (auto simp: pool_step_def)
qed (use assms discipline.grows_refl [OF assms(1)] in \<open>auto simp: pool_step_def\<close>)

lemma pool_discipline:
  assumes "discipline holds I grows" and "\<forall>p \<in> set ps. holds p (V w)" and "I (V w)"
    and "pool_run S sch (ps, l, w) = (ps', l', w')"
  shows "(\<forall>p \<in> set ps'. holds p (V w')) \<and> I (V w') \<and> grows (V w) (V w')"
  using assms(2-4)
proof (induction sch arbitrary: ps l w)
  case Nil
  then show ?case using discipline.grows_refl [OF assms(1)] by (auto simp: pool_run_def)
next
  case (Cons i sch)
  obtain ps1 l1 w1 where s: "pool_step S i (ps, l, w) = (ps1, l1, w1)" by (rule prod_cases3)
  with Cons.prems(3) have r: "pool_run S sch (ps1, l1, w1) = (ps', l', w')" by (simp add: pool_run_def)
  from step_discipline [OF assms(1) Cons.prems(1,2) s] Cons.IH [OF _ _ r] show ?case
    by (blast intro: discipline.grows_trans [OF assms(1)])
qed

text \<open>The calls a program makes are a discipline.\<close>

lemma discipline_issues: "stable P I \<Longrightarrow> discipline (\<lambda>p _. issues P p) I (\<lambda>_ _. True)"
  by unfold_locales (auto simp: stable_def)

lemma settle_issues:
  "issues P p \<Longrightarrow> stable P I \<Longrightarrow> I (V w) \<Longrightarrow>
     (case settle S p l w of (p', l', w') \<Rightarrow> issues P p' \<and> I (V w'))"
  using settle_discipline [OF discipline_issues, of P I p w l] by (cases "settle S p l w") auto

lemma step_issues:
  assumes "\<forall>p \<in> set ps. issues P p" and "stable P I" and "I (V w)"
    and "pool_step S i (ps, l, w) = (ps', l', w')"
  shows "(\<forall>p \<in> set ps'. issues P p) \<and> I (V w')"
  using step_discipline [OF discipline_issues [OF assms(2)] _ assms(3,4)] assms(1) by simp

lemma pool_issues:
  assumes "\<forall>p \<in> set ps. issues P p" and "stable P I" and "I (V w)"
    and "pool_run S sch (ps, l, w) = (ps', l', w')"
  shows "(\<forall>p \<in> set ps'. issues P p) \<and> I (V w')"
  using pool_discipline [OF discipline_issues [OF assms(2)] _ assms(3,4)] assms(1) by simp

end

end
