(* ===== verification/Keys.thy ===== *)
theory Keys
  imports Prelude
begin

section \<open>The layout of the Redis key space\<close>

text \<open>
  The key names of src/repositories/stream\_registry.py, src/stream/lock.py and
  src/stream/error\_handler.py, and the facts every proof about several keys needs:
  each kind of key is injective in the identifier it carries, and keys of different
  kinds never coincide, whatever the identifiers are.
\<close>

definition meta_key :: "string \<Rightarrow> string" where
  "meta_key stream_id = ''stream:meta:'' @ stream_id"

definition subreddit_key :: "string \<Rightarrow> string" where
  "subreddit_key subreddit = ''stream:subreddit:'' @ subreddit"

definition checkpoint_key :: "string \<Rightarrow> string" where
  "checkpoint_key stream_id = ''stream:checkpoint:'' @ stream_id"

definition identity_key :: "string \<Rightarrow> string" where
  "identity_key subreddit = ''stream:identity:'' @ subreddit"

definition stop_request_key :: "string \<Rightarrow> string" where
  "stop_request_key stream_id = ''stream:stop-request:'' @ stream_id"

definition lock_key :: "string \<Rightarrow> string" where
  "lock_key subreddit = ''stream:lock:'' @ subreddit"

definition error_key :: "string \<Rightarrow> string" where
  "error_key stream_id = ''stream:errors:'' @ stream_id"

definition instance_key :: "string \<Rightarrow> string" where
  "instance_key instance_id = ''streams:instance:'' @ instance_id"

definition streams_all :: string where
  "streams_all = ''streams:all''"

lemmas key_defs = meta_key_def subreddit_key_def checkpoint_key_def identity_key_def
  stop_request_key_def lock_key_def error_key_def instance_key_def streams_all_def

lemma key_inject [simp, key_simps]:
  "meta_key a = meta_key b \<longleftrightarrow> a = b"
  "subreddit_key a = subreddit_key b \<longleftrightarrow> a = b"
  "checkpoint_key a = checkpoint_key b \<longleftrightarrow> a = b"
  "identity_key a = identity_key b \<longleftrightarrow> a = b"
  "stop_request_key a = stop_request_key b \<longleftrightarrow> a = b"
  "lock_key a = lock_key b \<longleftrightarrow> a = b"
  "error_key a = error_key b \<longleftrightarrow> a = b"
  "instance_key a = instance_key b \<longleftrightarrow> a = b"
  by (simp_all add: key_defs)

text \<open>The kind of a key, read off its name: the first characters that tell the kinds apart.\<close>

datatype key_kind = Meta_Kind | Subreddit_Kind | Checkpoint_Kind | Identity_Kind
  | Stop_Kind | Lock_Kind | Error_Kind | Instance_Kind | All_Kind | Other_Kind

definition starts_with :: "string \<Rightarrow> string \<Rightarrow> bool" where
  "starts_with p k = (take (length p) k = p)"

definition kind_of :: "string \<Rightarrow> key_kind" where
  "kind_of k =
     (if starts_with ''stream:meta:'' k then Meta_Kind
      else if starts_with ''stream:subreddit:'' k then Subreddit_Kind
      else if starts_with ''stream:checkpoint:'' k then Checkpoint_Kind
      else if starts_with ''stream:identity:'' k then Identity_Kind
      else if starts_with ''stream:stop-request:'' k then Stop_Kind
      else if starts_with ''stream:lock:'' k then Lock_Kind
      else if starts_with ''stream:errors:'' k then Error_Kind
      else if starts_with ''streams:instance:'' k then Instance_Kind
      else if k = ''streams:all'' then All_Kind
      else Other_Kind)"

lemma kind_simps [simp]:
  "kind_of (meta_key a) = Meta_Kind"
  "kind_of (subreddit_key a) = Subreddit_Kind"
  "kind_of (checkpoint_key a) = Checkpoint_Kind"
  "kind_of (identity_key a) = Identity_Kind"
  "kind_of (stop_request_key a) = Stop_Kind"
  "kind_of (lock_key a) = Lock_Kind"
  "kind_of (error_key a) = Error_Kind"
  "kind_of (instance_key a) = Instance_Kind"
  "kind_of streams_all = All_Kind"
  by (simp_all add: kind_of_def key_defs starts_with_def)

lemma kind_distinct: "kind_of a \<noteq> kind_of b \<Longrightarrow> a \<noteq> b"
  by auto

lemma keys_disjoint [simp, key_simps]:
  "meta_key a \<noteq> subreddit_key b" "subreddit_key b \<noteq> meta_key a"
  "meta_key a \<noteq> checkpoint_key b" "checkpoint_key b \<noteq> meta_key a"
  "meta_key a \<noteq> identity_key b" "identity_key b \<noteq> meta_key a"
  "meta_key a \<noteq> stop_request_key b" "stop_request_key b \<noteq> meta_key a"
  "meta_key a \<noteq> lock_key b" "lock_key b \<noteq> meta_key a"
  "meta_key a \<noteq> error_key b" "error_key b \<noteq> meta_key a"
  "meta_key a \<noteq> instance_key b" "instance_key b \<noteq> meta_key a"
  "meta_key a \<noteq> streams_all" "streams_all \<noteq> meta_key a"
  "subreddit_key a \<noteq> checkpoint_key b" "checkpoint_key b \<noteq> subreddit_key a"
  "subreddit_key a \<noteq> identity_key b" "identity_key b \<noteq> subreddit_key a"
  "subreddit_key a \<noteq> stop_request_key b" "stop_request_key b \<noteq> subreddit_key a"
  "subreddit_key a \<noteq> lock_key b" "lock_key b \<noteq> subreddit_key a"
  "subreddit_key a \<noteq> error_key b" "error_key b \<noteq> subreddit_key a"
  "subreddit_key a \<noteq> instance_key b" "instance_key b \<noteq> subreddit_key a"
  "subreddit_key a \<noteq> streams_all" "streams_all \<noteq> subreddit_key a"
  "checkpoint_key a \<noteq> identity_key b" "identity_key b \<noteq> checkpoint_key a"
  "checkpoint_key a \<noteq> stop_request_key b" "stop_request_key b \<noteq> checkpoint_key a"
  "checkpoint_key a \<noteq> lock_key b" "lock_key b \<noteq> checkpoint_key a"
  "checkpoint_key a \<noteq> error_key b" "error_key b \<noteq> checkpoint_key a"
  "checkpoint_key a \<noteq> instance_key b" "instance_key b \<noteq> checkpoint_key a"
  "checkpoint_key a \<noteq> streams_all" "streams_all \<noteq> checkpoint_key a"
  "identity_key a \<noteq> stop_request_key b" "stop_request_key b \<noteq> identity_key a"
  "identity_key a \<noteq> lock_key b" "lock_key b \<noteq> identity_key a"
  "identity_key a \<noteq> error_key b" "error_key b \<noteq> identity_key a"
  "identity_key a \<noteq> instance_key b" "instance_key b \<noteq> identity_key a"
  "identity_key a \<noteq> streams_all" "streams_all \<noteq> identity_key a"
  "stop_request_key a \<noteq> lock_key b" "lock_key b \<noteq> stop_request_key a"
  "stop_request_key a \<noteq> error_key b" "error_key b \<noteq> stop_request_key a"
  "stop_request_key a \<noteq> instance_key b" "instance_key b \<noteq> stop_request_key a"
  "stop_request_key a \<noteq> streams_all" "streams_all \<noteq> stop_request_key a"
  "lock_key a \<noteq> error_key b" "error_key b \<noteq> lock_key a"
  "lock_key a \<noteq> instance_key b" "instance_key b \<noteq> lock_key a"
  "lock_key a \<noteq> streams_all" "streams_all \<noteq> lock_key a"
  "error_key a \<noteq> instance_key b" "instance_key b \<noteq> error_key a"
  "error_key a \<noteq> streams_all" "streams_all \<noteq> error_key a"
  "instance_key a \<noteq> streams_all" "streams_all \<noteq> instance_key a"
  by (auto dest: arg_cong [where f = kind_of])

lemma not_in_kind [simp]:
  "kind_of k \<noteq> Meta_Kind \<Longrightarrow> k \<notin> range meta_key"
  "kind_of k \<noteq> Instance_Kind \<Longrightarrow> k \<notin> range instance_key"
  "kind_of k \<noteq> Subreddit_Kind \<Longrightarrow> k \<notin> range subreddit_key"
  "kind_of k \<noteq> Identity_Kind \<Longrightarrow> k \<notin> range identity_key"
  "kind_of k \<noteq> Checkpoint_Kind \<Longrightarrow> k \<notin> range checkpoint_key"
  "kind_of k \<noteq> Error_Kind \<Longrightarrow> k \<notin> range error_key"
  "kind_of k \<noteq> Lock_Kind \<Longrightarrow> k \<notin> range lock_key"
  by auto

end
