(* ===== verification/Redis_Calls.thy ===== *)
theory Redis_Calls
  imports Effects Keys
begin

section \<open>Symbolic execution of Redis calls\<close>

text \<open>
  The weakest precondition of each typed Redis call, as an equation the simplifier
  can execute: the call happens at some time \<open>t\<close> not before the last one, it may raise
  with or without having taken effect, or answer as documented. \<open>later t v\<close> is the view
  at the moment of the call.
\<close>

definition later :: "int \<Rightarrow> view \<Rightarrow> view" where
  "later t v = v\<lparr>rdb := at_time t (rdb v)\<rparr>"

definition with_rdb :: "(rdb \<Rightarrow> rdb) \<Rightarrow> view \<Rightarrow> view" where
  "with_rdb f v = v\<lparr>rdb := f (rdb v)\<rparr>"

lemma later_sel [simp]:
  "rdb (later t v) = at_time t (rdb v)" "pgd (later t v) = pgd v"
  "uuids (later t v) = uuids v" "metrics (later t v) = metrics v"
  by (simp_all add: later_def)

lemma with_rdb_sel [simp]:
  "rdb (with_rdb f v) = f (rdb v)" "pgd (with_rdb f v) = pgd v"
  "uuids (with_rdb f v) = uuids v" "metrics (with_rdb f v) = metrics v"
  by (simp_all add: with_rdb_def)

lemma with_rdb_id [simp]: "with_rdb (\<lambda>s. s) v = v" "with_rdb id v = v"
  by (simp_all add: with_rdb_def)

lemma with_rdb_idem: "f (rdb v) = rdb v \<Longrightarrow> with_rdb f v = v"
  by (simp add: with_rdb_def)

lemma wp_redis_later:
  "wp (redis c) Q l v =
     (\<forall>t \<ge> rclock (rdb v).
        (\<forall>e. Q (Inl e) l (later t v) \<and> Q (Inl e) l (with_rdb (redis_effect c) (later t v)))
      \<and> (\<forall>y. redis_answer c (rdb (later t v)) y \<longrightarrow> Q (Inr y) l (with_rdb (redis_effect c) (later t v))))"
  by (simp add: wp_redis later_def with_rdb_def)

text \<open>A read: no effect.\<close>

lemma same_reply_single [simp]:
  "same_reply r RNil \<longleftrightarrow> r = RNil"
  "same_reply r ROk \<longleftrightarrow> r = ROk"
  "same_reply r (RInt i) \<longleftrightarrow> r = RInt i"
  "same_reply r (RBulk x) \<longleftrightarrow> r = RBulk x"
  "same_reply r (RList xs) \<longleftrightarrow> r = RList xs"
  "same_reply r (RSet ys) \<longleftrightarrow> (\<exists>xs. r = RSet xs \<and> distinct xs \<and> set xs = set ys)"
  "same_reply r (RHash d) \<longleftrightarrow> (\<exists>d'. r = RHash d' \<and> map_of d' = map_of d)"
  "same_reply r (RHashes ds) \<longleftrightarrow>
     (\<exists>ds'. r = RHashes ds' \<and> list_all2 (\<lambda>d e. map_of d = map_of e) ds' ds)"
  by (cases r; auto)+

lemma reply_of_text [simp]:
  "same_reply r (case x of None \<Rightarrow> RNil | Some v \<Rightarrow> RBulk v) \<longleftrightarrow>
     r = (case x of None \<Rightarrow> RNil | Some v \<Rightarrow> RBulk v)"
  by (cases x) auto

lemma as_text_reply [simp]:
  "as_text (case x of None \<Rightarrow> RNil | Some v \<Rightarrow> RBulk v) = Ret x"
  by (cases x) (simp_all add: as_text_def)

lemma wp_get [wp_rules]:
  "wp (redis_get k) Q l v =
     (\<forall>t \<ge> rclock (rdb v).
        (\<forall>e. Q (Inl e) l (later t v))
      \<and> (is_str (rdb (later t v)) k \<longrightarrow> Q (Inr (str_at (rdb (later t v)) k)) l (later t v)))"
  unfolding redis_get_def wp_bind wp_redis_later
  by (rule all_cong) (auto simp: redis_effect_def redis_answer_def with_rdb_def later_def)

lemma wp_hget [wp_rules]:
  "wp (redis_hget k f) Q l v =
     (\<forall>t \<ge> rclock (rdb v).
        (\<forall>e. Q (Inl e) l (later t v))
      \<and> (is_hash (rdb (later t v)) k \<longrightarrow> Q (Inr (hash_field (rdb (later t v)) k f)) l (later t v)))"
  unfolding redis_hget_def wp_bind wp_redis_later
  by (rule all_cong) (auto simp: redis_effect_def redis_answer_def with_rdb_def
      later_def hash_field_def)

lemma wp_exists [wp_rules]:
  "wp (redis_exists k) Q l v =
     (\<forall>t \<ge> rclock (rdb v).
        (\<forall>e. Q (Inl e) l (later t v))
      \<and> Q (Inr (live (rdb (later t v)) k)) l (later t v))"
  unfolding redis_exists_def wp_bind wp_redis_later
  by (rule all_cong) (auto simp: redis_effect_def redis_answer_def with_rdb_def
      later_def as_bool_def)

text \<open>The effect of \<^verbatim>\<open>SET NX [EX]\<close>.\<close>

definition set_absent :: "string \<Rightarrow> string \<Rightarrow> int option \<Rightarrow> rdb \<Rightarrow> rdb" where
  "set_absent k x ex s =
     (if live s k then s
      else set_ttl k (map_option (\<lambda>e. rclock s + 1000 * e) ex) (put_key k (VStr x) s))"

lemma effect_setnx [simp]: "redis_effect (Set_Nx k x ex) = set_absent k x ex"
  by (auto simp: redis_effect_def set_absent_def)

lemma wp_setnx [wp_rules]:
  "wp (redis_setnx k x ex) Q l v =
     (\<forall>t \<ge> rclock (rdb v).
        (\<forall>e. Q (Inl e) l (later t v) \<and> Q (Inl e) l (with_rdb (set_absent k x ex) (later t v)))
      \<and> Q (Inr (\<not> live (rdb (later t v)) k)) l (with_rdb (set_absent k x ex) (later t v)))"
  unfolding redis_setnx_def wp_bind wp_redis_later
  by (rule all_cong) (auto simp: redis_answer_def as_ok_def)

lemma wp_hgetall [wp_rules]:
  "wp (redis_hgetall k) Q l v =
     (\<forall>t \<ge> rclock (rdb v).
        (\<forall>e. Q (Inl e) l (later t v))
      \<and> (is_hash (rdb (later t v)) k \<longrightarrow>
           (\<forall>d. map_of d = map_of (hash_at (rdb (later t v)) k) \<longrightarrow> Q (Inr d) l (later t v))))"
  unfolding redis_hgetall_def wp_bind wp_redis_later
  by (rule all_cong) (auto simp: redis_effect_def redis_answer_def with_rdb_def
      later_def as_hash_def)

lemma wp_hgetalls [wp_rules]:
  "wp (redis_hgetalls ks) Q l v =
     (\<forall>t \<ge> rclock (rdb v).
        (\<forall>e. Q (Inl e) l (later t v))
      \<and> (list_all (is_hash (rdb (later t v))) ks \<longrightarrow>
           (\<forall>ds. list_all2 (\<lambda>d e. map_of d = map_of e) ds (map (hash_at (rdb (later t v))) ks)
              \<longrightarrow> Q (Inr ds) l (later t v))))"
  unfolding redis_hgetalls_def wp_bind wp_redis_later
  by (rule all_cong) (auto simp: redis_effect_def redis_answer_def with_rdb_def
      later_def as_hashes_def)

lemma wp_smembers [wp_rules]:
  "wp (redis_smembers k) Q l v =
     (\<forall>t \<ge> rclock (rdb v).
        (\<forall>e. Q (Inl e) l (later t v))
      \<and> (is_set (rdb (later t v)) k \<longrightarrow>
           (\<forall>xs. distinct xs \<and> set xs = set (set_at (rdb (later t v)) k) \<longrightarrow> Q (Inr xs) l (later t v))))"
  unfolding redis_smembers_def wp_bind wp_redis_later
  by (rule all_cong) (auto simp: redis_effect_def redis_answer_def with_rdb_def
      later_def as_members_def)

text \<open>A write whose reply is not looked at.\<close>

lemma wp_redis_do [wp_rules]:
  "wp (redis_do c) Q l v =
     (\<forall>t \<ge> rclock (rdb v).
        (\<forall>e. Q (Inl e) l (later t v) \<and> Q (Inl e) l (with_rdb (redis_effect c) (later t v)))
      \<and> (fst (redis_doc c (rdb (later t v))) \<noteq> None \<longrightarrow>
           Q (Inr ()) l (with_rdb (redis_effect c) (later t v))))"
proof -
  have "(\<exists>y. redis_answer c s y) = (fst (redis_doc c s) \<noteq> None)" for s
    using same_ordered_reply by (auto simp: redis_answer_def)
  then show ?thesis
    unfolding redis_do_def wp_bind wp_redis_later by auto
qed

subsection \<open>Effects of the writes\<close>

lemma effect_simps [simp]:
  "redis_effect (Set_Plain k x) s = set_ttl k None (put_key k (VStr x) s)"
  "redis_effect (Del ks) s = fold del_key ks s"
  "redis_effect (Hset k m) s =
     (if is_hash s k \<and> m \<noteq> [] then put_key k (VHash (dict_update m (hash_at s k))) s else s)"
  "redis_effect (Sadd k x) s =
     (if is_set s k then put_set k (List.insert x (set_at s k)) s else s)"
  "redis_effect (Srem k xs) s =
     (if is_set s k then put_set k (filter (\<lambda>x. x \<notin> set xs) (set_at s k)) s else s)"
  "redis_effect (Lpush k x) s = (if is_list s k then put_list k (x # list_at s k) s else s)"
  "redis_effect (Ltrim k a b) s = (if is_list s k then put_list k (list_range a b (list_at s k)) s else s)"
  "redis_effect (Expire k e) s =
     (if \<not> live s k then s else if e \<le> 0 then del_key k s
      else set_ttl k (Some (rclock s + 1000 * e)) s)"
  by (simp_all add: redis_effect_def)

lemma answered_simps [simp]:
  "fst (redis_doc (Hset k m) s) \<noteq> None \<longleftrightarrow> is_hash s k \<and> m \<noteq> []"
  "fst (redis_doc (Sadd k x) s) \<noteq> None \<longleftrightarrow> is_set s k"
  "fst (redis_doc (Srem k xs) s) \<noteq> None \<longleftrightarrow> is_set s k"
  "fst (redis_doc (Lpush k x) s) \<noteq> None \<longleftrightarrow> is_list s k"
  "fst (redis_doc (Ltrim k a b) s) \<noteq> None \<longleftrightarrow> is_list s k"
  by simp_all

text \<open>A script whose integer reply is read as a truth value.\<close>

lemma wp_eval:
  "wp (redis_eval sc) Q l v =
     (\<forall>t \<ge> rclock (rdb v).
        (\<forall>e. Q (Inl e) l (later t v) \<and> Q (Inl e) l (with_rdb (redis_effect (Eval sc)) (later t v)))
      \<and> (\<forall>y. redis_answer (Eval sc) (rdb (later t v)) y \<longrightarrow>
           (case y of RInt i \<Rightarrow> Q (Inr (i \<noteq> 0)) l (with_rdb (redis_effect (Eval sc)) (later t v))
            | _ \<Rightarrow> Q (Inl response_error) l (with_rdb (redis_effect (Eval sc)) (later t v)))))"
  by (simp add: redis_eval_def wp_bind wp_redis_later as_bool_def split: rreply.splits)

subsection \<open>Reading through the passage of time\<close>

text \<open>Keys without a deadline do not notice the time.\<close>

lemma at_time_persistent [simp]:
  assumes "rttl s k = None"
  shows "str_at (at_time t s) k = str_at s k" "hash_at (at_time t s) k = hash_at s k"
    "set_at (at_time t s) k = set_at s k" "list_at (at_time t s) k = list_at s k"
    "live (at_time t s) k = live s k" "hash_field (at_time t s) k f = hash_field s k f"
    "is_str (at_time t s) k = is_str s k" "is_hash (at_time t s) k = is_hash s k"
    "is_set (at_time t s) k = is_set s k" "is_list (at_time t s) k = is_list s k"
  using assms by (simp_all add: readings hash_field_def)

lemma at_time_at_time: "t \<le> t' \<Longrightarrow> at_time t' (at_time t s) = at_time t' s"
  by (auto simp: at_time_def expired_def fun_eq_iff split: option.splits)

text \<open>\<open>passed s s'\<close>: nothing happened to the key space but the passage of time.\<close>

definition passed :: "rdb \<Rightarrow> rdb \<Rightarrow> bool" where
  "passed s s' = (\<exists>t \<ge> rclock s. s' = at_time t s)"

lemma passed_at_time [intro]: "rclock s \<le> t \<Longrightarrow> passed s (at_time t s)"
  by (auto simp: passed_def)

lemma passed_trans: "passed s s' \<Longrightarrow> passed s' s'' \<Longrightarrow> passed s s''"
  unfolding passed_def by (metis at_time_at_time at_time_sel(1) order_trans)

lemma passed_at_time2 [intro]: "rclock s \<le> t \<Longrightarrow> t \<le> t' \<Longrightarrow> passed s (at_time t' (at_time t s))"
  by (metis at_time_at_time order_trans passed_at_time)

lemma passed_clock: "passed s s' \<Longrightarrow> rclock s \<le> rclock s'"
  by (auto simp: passed_def)

lemma passed_persistent:
  "passed s s' \<Longrightarrow> rttl s k = None \<Longrightarrow> rkeys s' k = rkeys s k \<and> rttl s' k = None"
  by (auto simp: passed_def)

text \<open>Writing one key leaves the readings of every other key.\<close>

lemma readings_put_key [simp]:
  "str_at (put_key k x s) k' = (if k' = k then (case x of VStr y \<Rightarrow> Some y | _ \<Rightarrow> None) else str_at s k')"
  "hash_at (put_key k x s) k' = (if k' = k then (case x of VHash y \<Rightarrow> y | _ \<Rightarrow> []) else hash_at s k')"
  "set_at (put_key k x s) k' = (if k' = k then (case x of VSet y \<Rightarrow> y | _ \<Rightarrow> []) else set_at s k')"
  "list_at (put_key k x s) k' = (if k' = k then (case x of VList y \<Rightarrow> y | _ \<Rightarrow> []) else list_at s k')"
  "live (put_key k x s) k' = (k' = k \<or> live s k')"
  "is_str (put_key k x s) k' = (if k' = k then (case x of VStr y \<Rightarrow> True | _ \<Rightarrow> False) else is_str s k')"
  "is_hash (put_key k x s) k' = (if k' = k then (case x of VHash y \<Rightarrow> True | _ \<Rightarrow> False) else is_hash s k')"
  "is_set (put_key k x s) k' = (if k' = k then (case x of VSet y \<Rightarrow> True | _ \<Rightarrow> False) else is_set s k')"
  "is_list (put_key k x s) k' = (if k' = k then (case x of VList y \<Rightarrow> True | _ \<Rightarrow> False) else is_list s k')"
  by (auto simp: readings split: rval.splits)

lemma readings_set_ttl [simp]:
  "str_at (set_ttl k d s) = str_at s" "hash_at (set_ttl k d s) = hash_at s"
  "set_at (set_ttl k d s) = set_at s" "list_at (set_ttl k d s) = list_at s"
  "live (set_ttl k d s) = live s" "is_str (set_ttl k d s) = is_str s"
  "is_hash (set_ttl k d s) = is_hash s" "is_set (set_ttl k d s) = is_set s"
  "is_list (set_ttl k d s) = is_list s"
  by (simp_all add: readings fun_eq_iff)

lemma readings_del_key [simp]:
  "str_at (del_key k s) k' = (if k' = k then None else str_at s k')"
  "hash_at (del_key k s) k' = (if k' = k then [] else hash_at s k')"
  "set_at (del_key k s) k' = (if k' = k then [] else set_at s k')"
  "list_at (del_key k s) k' = (if k' = k then [] else list_at s k')"
  "live (del_key k s) k' = (k' \<noteq> k \<and> live s k')"
  "is_str (del_key k s) k' = (k' = k \<or> is_str s k')"
  "is_hash (del_key k s) k' = (k' = k \<or> is_hash s k')"
  "is_set (del_key k s) k' = (k' = k \<or> is_set s k')"
  "is_list (del_key k s) k' = (k' = k \<or> is_list s k')"
  by (auto simp: readings)

lemma readings_put_set [simp]:
  "k' \<noteq> k \<Longrightarrow> str_at (put_set k m s) k' = str_at s k'"
  "k' \<noteq> k \<Longrightarrow> hash_at (put_set k m s) k' = hash_at s k'"
  "k' \<noteq> k \<Longrightarrow> set_at (put_set k m s) k' = set_at s k'"
  "k' \<noteq> k \<Longrightarrow> list_at (put_set k m s) k' = list_at s k'"
  "k' \<noteq> k \<Longrightarrow> live (put_set k m s) k' = live s k'"
  "k' \<noteq> k \<Longrightarrow> is_str (put_set k m s) k' = is_str s k'"
  "k' \<noteq> k \<Longrightarrow> is_hash (put_set k m s) k' = is_hash s k'"
  "k' \<noteq> k \<Longrightarrow> is_list (put_set k m s) k' = is_list s k'"
  "is_set (put_set k m s) k' = (k' = k \<or> is_set s k')"
  by (auto simp: put_set_def)

lemma readings_put_list [simp]:
  "k' \<noteq> k \<Longrightarrow> str_at (put_list k m s) k' = str_at s k'"
  "k' \<noteq> k \<Longrightarrow> hash_at (put_list k m s) k' = hash_at s k'"
  "k' \<noteq> k \<Longrightarrow> set_at (put_list k m s) k' = set_at s k'"
  "k' \<noteq> k \<Longrightarrow> list_at (put_list k m s) k' = list_at s k'"
  "k' \<noteq> k \<Longrightarrow> live (put_list k m s) k' = live s k'"
  "k' \<noteq> k \<Longrightarrow> is_str (put_list k m s) k' = is_str s k'"
  "k' \<noteq> k \<Longrightarrow> is_hash (put_list k m s) k' = is_hash s k'"
  "k' \<noteq> k \<Longrightarrow> is_set (put_list k m s) k' = is_set s k'"
  "is_list (put_list k m s) k' = (k' = k \<or> is_list s k')"
  by (auto simp: put_list_def)

lemma hash_field_simps [simp]:
  "hash_field (put_key k x s) k' f =
     (if k' = k then (case x of VHash y \<Rightarrow> map_of y f | _ \<Rightarrow> None) else hash_field s k' f)"
  "hash_field (set_ttl k d s) = hash_field s"
  "hash_field (del_key k s) k' f = (if k' = k then None else hash_field s k' f)"
  "k' \<noteq> k \<Longrightarrow> hash_field (put_set k m s) k' f = hash_field s k' f"
  "k' \<noteq> k \<Longrightarrow> hash_field (put_list k m s) k' f = hash_field s k' f"
  by (auto simp: hash_field_def fun_eq_iff split: rval.splits)

lemma str_at_is_str: "str_at s k = Some x \<Longrightarrow> is_str s k"
  by (auto simp: readings split: option.splits rval.splits)

lemma str_at_live: "str_at s k = Some x \<Longrightarrow> live s k"
  by (auto simp: readings split: option.splits rval.splits)

lemma hash_field_is_hash: "hash_field s k f = Some x \<Longrightarrow> is_hash s k"
  by (auto simp: readings hash_field_def split: option.splits rval.splits)

lemma hash_field_live: "hash_field s k f = Some x \<Longrightarrow> live s k"
  by (auto simp: readings hash_field_def split: option.splits rval.splits)

end
