(* ===== verification/Key_Space.thy ===== *)
theory Key_Space
  imports Redis_Calls
begin

section \<open>The key space is well formed\<close>

text \<open>
  What every command of the service keeps of the Redis key space: each key holds a value
  of the type its name promises, only locks and error lists ever expire, and a lock always
  does. \<open>command_ok\<close> says which commands do so; the service sends no other.
\<close>

fun kind_ok :: "key_kind \<Rightarrow> rval \<Rightarrow> bool" where
  "kind_ok Other_Kind _ = True"
| "kind_ok k (VStr _) = (k \<in> {Subreddit_Kind, Identity_Kind, Stop_Kind, Lock_Kind})"
| "kind_ok k (VHash _) = (k \<in> {Meta_Kind, Checkpoint_Kind})"
| "kind_ok k (VSet _) = (k \<in> {Instance_Kind, All_Kind})"
| "kind_ok k (VList _) = (k = Error_Kind)"

definition may_expire :: "string \<Rightarrow> bool" where
  "may_expire k = (kind_of k \<in> {Lock_Kind, Error_Kind, Other_Kind})"

definition sound :: "rdb \<Rightarrow> bool" where
  "sound s =
     ((\<forall>k x. rkeys s k = Some x \<longrightarrow> kind_ok (kind_of k) x) \<and>
      (\<forall>k. rttl s k \<noteq> None \<longrightarrow> may_expire k) \<and>
      (\<forall>k. kind_of k = Lock_Kind \<longrightarrow> rkeys s k \<noteq> None \<longrightarrow> rttl s k \<noteq> None))"

lemma soundD:
  assumes "sound s"
  shows "rkeys s k = Some x \<Longrightarrow> kind_ok (kind_of k) x"
    and "\<not> may_expire k \<Longrightarrow> rttl s k = None"
    and "kind_of k = Lock_Kind \<Longrightarrow> rkeys s k \<noteq> None \<Longrightarrow> rttl s k \<noteq> None"
  using assms by (auto simp: sound_def)

lemma sound_ttl [simp]:
  assumes "sound s"
  shows "rttl s (meta_key i) = None" "rttl s (subreddit_key sub) = None"
    "rttl s (checkpoint_key i) = None" "rttl s (identity_key sub) = None"
    "rttl s (stop_request_key i) = None" "rttl s (instance_key n) = None" "rttl s streams_all = None"
  using assms by (auto simp: may_expire_def intro!: soundD(2))

lemma sound_types:
  assumes "sound s"
  shows "kind_of k \<in> {Subreddit_Kind, Identity_Kind, Stop_Kind, Lock_Kind} \<Longrightarrow> is_str s k"
    "kind_of k \<in> {Meta_Kind, Checkpoint_Kind} \<Longrightarrow> is_hash s k"
    "kind_of k \<in> {Instance_Kind, All_Kind} \<Longrightarrow> is_set s k"
    "kind_of k = Error_Kind \<Longrightarrow> is_list s k"
  using soundD(1) [OF assms, of k]
  by (auto simp: is_str_def is_hash_def is_set_def is_list_def split: option.split rval.split)

lemma sound_typed_keys [simp]:
  assumes "sound s"
  shows "is_hash s (meta_key i)" "is_hash s (checkpoint_key i)" "is_str s (subreddit_key sub)"
    "is_str s (identity_key sub)" "is_str s (stop_request_key i)" "is_str s (lock_key sub)"
    "is_list s (error_key i)" "is_set s (instance_key n)" "is_set s streams_all"
  by (simp_all add: sound_types [OF assms])

lemma sound_lock_expires: "sound s \<Longrightarrow> live s (lock_key sub) \<Longrightarrow> rttl s (lock_key sub) \<noteq> None"
  using soundD(3) [of s "lock_key sub"] by (simp add: live_def)

lemma live_str: "is_str s k \<Longrightarrow> live s k \<longleftrightarrow> str_at s k \<noteq> None"
  by (auto simp: readings split: option.splits rval.splits)

lemma sound_live_str [simp]:
  assumes "sound s"
  shows "live s (subreddit_key sub) \<longleftrightarrow> str_at s (subreddit_key sub) \<noteq> None"
    "live s (identity_key sub) \<longleftrightarrow> str_at s (identity_key sub) \<noteq> None"
  using assms by (simp_all add: live_str)

subsection \<open>What keeps it\<close>

lemma sound_at_time [simp]: "sound s \<Longrightarrow> sound (at_time t s)"
  by (auto simp: sound_def)

lemma sound_put_key: "sound s \<Longrightarrow> kind_ok (kind_of k) x \<Longrightarrow>
    (kind_of k = Lock_Kind \<longrightarrow> rttl s k \<noteq> None) \<Longrightarrow> sound (put_key k x s)"
  by (auto simp: sound_def)

lemma sound_del_key: "sound s \<Longrightarrow> sound (del_key k s)"
  by (auto simp: sound_def)

lemma sound_fold_del: "sound s \<Longrightarrow> sound (fold del_key ks s)"
  by (auto simp: sound_def)

lemma sound_put_set: "sound s \<Longrightarrow> kind_of k \<in> {Instance_Kind, All_Kind} \<Longrightarrow> sound (put_set k m s)"
  by (auto simp: put_set_def intro: sound_put_key sound_del_key)

lemma sound_put_list: "sound s \<Longrightarrow> kind_of k = Error_Kind \<Longrightarrow> sound (put_list k m s)"
  by (auto simp: put_list_def intro: sound_put_key sound_del_key)

lemma sound_clear_ttl: "sound s \<Longrightarrow> kind_of k \<noteq> Lock_Kind \<Longrightarrow> sound (set_ttl k None s)"
  by (auto simp: sound_def)

lemma sound_set_ttl: "sound s \<Longrightarrow> may_expire k \<Longrightarrow> sound (set_ttl k (Some d) s)"
  by (auto simp: sound_def)

lemma sound_put_lease:
  "sound s \<Longrightarrow> kind_of k = Lock_Kind \<Longrightarrow> sound (set_ttl k (Some d) (put_key k (VStr x) s))"
  by (auto simp: sound_def may_expire_def)

lemmas sound_intros = sound_put_key sound_del_key sound_fold_del sound_put_set sound_put_list
  sound_clear_ttl sound_set_ttl sound_put_lease

declare sound_intros [simp]

definition text_kinds :: "key_kind set" where
  "text_kinds = {Subreddit_Kind, Identity_Kind, Stop_Kind}"

fun script_ok :: "script \<Rightarrow> bool" where
  "script_ok (Refresh_If_Owner k a e) = (kind_of k = Lock_Kind \<and> 0 < e)"
| "script_ok (Delete_If_Owner k a) = (kind_of k = Lock_Kind)"
| "script_ok (Delete_Stream_If_Unchanged k1 k2 k3 k4 k5 k6 a1 a2 a3 a4) =
     (kind_of k1 = Meta_Kind \<and> kind_of k2 = Checkpoint_Kind \<and> kind_of k3 = Stop_Kind \<and>
      kind_of k4 = Subreddit_Kind \<and> kind_of k5 = All_Kind \<and> kind_of k6 = Identity_Kind)"
| "script_ok (Heartbeat_If_Active k1 k2 a1 a2 a3) = (kind_of k1 = Meta_Kind \<and> kind_of k2 = Instance_Kind)"
| "script_ok (Update_Status_If_Owner k1 a1 a2 a3) = (kind_of k1 = Meta_Kind)"
| "script_ok (Finalize_Stop_If_Unowned k1 k2 a1 a2) = (kind_of k1 = Meta_Kind)"

fun command_ok :: "rcmd \<Rightarrow> bool" where
  "command_ok (Set_Plain k x) = (kind_of k \<in> text_kinds)"
| "command_ok (Set_Nx k x ex) =
     (kind_of k \<in> text_kinds \<and> ex = None \<or> kind_of k = Lock_Kind \<and> ex \<noteq> None)"
| "command_ok (Hset k m) = (kind_of k \<in> {Meta_Kind, Checkpoint_Kind})"
| "command_ok (Sadd k x) = (kind_of k \<in> {Instance_Kind, All_Kind})"
| "command_ok (Srem k xs) = (kind_of k \<in> {Instance_Kind, All_Kind})"
| "command_ok (Expire k e) = (kind_of k = Error_Kind)"
| "command_ok (Lpush k x) = (kind_of k = Error_Kind)"
| "command_ok (Ltrim k a b) = (kind_of k = Error_Kind)"
| "command_ok (Eval sc) = script_ok sc"
| "command_ok _ = True"

lemma sound_script:
  assumes "sound s" and "script_ok sc"
  shows "sound (redis_effect (Eval sc) s)"
proof (cases sc)
  case (Delete_Stream_If_Unchanged k1 k2 k3 k4 k5 k6 a1 a2 a3 a4)
  with assms(2) have k: "kind_of k1 = Meta_Kind" "kind_of k2 = Checkpoint_Kind" "kind_of k3 = Stop_Kind"
    "kind_of k4 = Subreddit_Kind" "kind_of k5 = All_Kind" "kind_of k6 = Identity_Kind"
    by auto
  then have "is_hash s k1" "is_str s k4" "is_set s k5" "distinct [k1, k2, k3, k4, k5, k6]"
    using sound_types [OF assms(1)] by auto
  with Delete_Stream_If_Unchanged k assms(1) show ?thesis
    by (auto simp: redis_effect_def delete_stream_closed Let_def intro!: sound_intros)
next
  case (Heartbeat_If_Active k1 k2 a1 a2 a3)
  with assms(2) have k: "kind_of k1 = Meta_Kind" "kind_of k2 = Instance_Kind" by auto
  then have "k1 \<noteq> k2" by auto
  with Heartbeat_If_Active k assms(1) show ?thesis
    by (auto simp: redis_effect_def heartbeat_closed Let_def intro!: sound_intros)
qed (use assms in \<open>auto simp: redis_effect_def refresh_closed delete_owner_closed update_owner_closed
    finalize_closed may_expire_def intro!: sound_intros\<close>)

lemma sound_effect:
  assumes "sound s" and "command_ok c"
  shows "sound (redis_effect c s)"
proof (cases c)
  case (Eval sc)
  with assms show ?thesis by (simp add: sound_script)
qed (use assms in \<open>auto simp: redis_effect_def set_absent_def text_kinds_def may_expire_def intro!: sound_intros\<close>)

lemma sound_set_absent [simp]:
  assumes "sound s" and "command_ok (Set_Nx k x ex)"
  shows "sound (set_absent k x ex s)"
  using sound_effect [OF assms] by simp

lemma sound_passed: "passed s s' \<Longrightarrow> sound s \<Longrightarrow> sound s'"
  by (auto simp: passed_def)

end
