(* ===== verification/Election.thy ===== *)
theory Election
  imports Interleaving Key_Space
begin

section \<open>The key space under interleaving, and elections by \<^verbatim>\<open>SET NX\<close>\<close>

text \<open>
  Two facts about any number of programs that interleave in any order. A program that sends
  only the commands of \<open>command_ok\<close> keeps the key space well formed. And of all programs
  that return only after a successful \<^verbatim>\<open>SET key ... NX\<close> at most one ever returns, if the key
  does not expire and nobody writes it otherwise.
\<close>

subsection \<open>The calls of the service\<close>

fun service_call :: "call \<Rightarrow> bool" where
  "service_call (Redis c) = command_ok c"
| "service_call _ = True"

lemma sound_documented:
  "documented c v r v' \<Longrightarrow> service_call c \<Longrightarrow> sound (rdb v) \<Longrightarrow> sound (rdb v')"
  by (cases c; cases r) (auto simp: sound_effect)

lemma stable_sound: "stable service_call (\<lambda>v. sound (rdb v))"
  by (auto simp: stable_def intro: sound_documented)

subsection \<open>Elections\<close>

fun is_win :: "string \<Rightarrow> call \<Rightarrow> pyexn + reply \<Rightarrow> bool" where
  "is_win k (Redis (Set_Nx k' x ex)) (Inr (Redis_Reply ROk)) = (k' = k)"
| "is_win _ _ _ = False"

text \<open>On every path to a normal return there is a successful \<^verbatim>\<open>SET k ... NX\<close>.\<close>

primrec needs_win :: "string \<Rightarrow> ('l, 'a) prog \<Rightarrow> bool" where
  "needs_win k (Ret x) = False"
| "needs_win k (Raise e) = True"
| "needs_win k (Call c f) = (\<forall>r. is_win k c r \<or> needs_win k (f r))"
| "needs_win k (Get_Local f) = (\<forall>l. needs_win k (f l))"
| "needs_win k (Put_Local l p) = needs_win k p"
| "needs_win k (Emit m p) = needs_win k p"

text \<open>The key is written by nobody but the candidates.\<close>

fun candidate_call :: "string \<Rightarrow> call \<Rightarrow> bool" where
  "candidate_call k (Redis (Set_Nx k' x ex)) = command_ok (Set_Nx k' x ex)"
| "candidate_call k (Redis (Del ks)) = (k \<notin> set ks)"
| "candidate_call k (Redis (Eval sc)) = False"
| "candidate_call k (Redis (Expire k' e)) = (k' \<noteq> k \<and> command_ok (Expire k' e))"
| "candidate_call k (Redis c) = command_ok c"
| "candidate_call k _ = True"

lemma candidate_is_service: "candidate_call k c \<Longrightarrow> service_call c"
  by (cases "(k, c)" rule: candidate_call.cases) auto

lemma live_at_time: "sound s \<Longrightarrow> \<not> may_expire k \<Longrightarrow> live (at_time t s) k = live s k"
  by (simp add: soundD(2))

text \<open>The kinds of key an election can be held on.\<close>

lemma live_effect:
  assumes "sound s" and "kind_of k \<in> {Subreddit_Kind, Identity_Kind}" and "candidate_call k (Redis c)" and "live s k"
  shows "live (redis_effect c s) k"
  using assms
  by (cases c) (auto simp: redis_effect_def set_absent_def live_def put_set_def put_list_def split: if_splits)

lemma candidate_step:
  assumes "documented c v r v'" and "sound (rdb v)" and "candidate_call k c"
    and k: "kind_of k \<in> {Subreddit_Kind, Identity_Kind}"
  shows "live (rdb v) k \<Longrightarrow> live (rdb v') k" and "is_win k c r \<Longrightarrow> \<not> live (rdb v) k \<and> live (rdb v') k"
proof -
  have ex: "\<not> may_expire k" using k by (auto simp: may_expire_def)
  show "live (rdb v) k \<Longrightarrow> live (rdb v') k"
    using assms live_at_time [OF assms(2) ex]
    by (cases c; cases r) (auto intro!: live_effect)
  show "is_win k c r \<Longrightarrow> \<not> live (rdb v) k \<and> live (rdb v') k"
    using assms live_at_time [OF assms(2) ex]
    by (cases "(k, c, r)" rule: is_win.cases)
      (auto simp: redis_answer_def set_absent_def split: if_splits)
qed

definition winners :: "string \<Rightarrow> ('l, 'a) prog list \<Rightarrow> nat set" where
  "winners k ps = {j. j < length ps \<and> \<not> needs_win k (ps ! j)}"

definition returned :: "('l, 'a) prog list \<Rightarrow> nat set" where
  "returned ps = {j. j < length ps \<and> (\<exists>x. ps ! j = Ret x)}"

lemma returned_winners: "returned ps \<subseteq> winners k ps"
  by (auto simp: returned_def winners_def)

lemma winners_update:
  "winners k (ps[i := p]) \<subseteq> (if needs_win k p then winners k ps - {i} else insert i (winners k ps))"
  by (cases "i < length ps") (auto simp: winners_def nth_list_update list_update_beyond split: if_splits)

lemma winners_update_needs:
  "needs_win k p \<Longrightarrow> winners k (ps[i := p]) \<subseteq> winners k ps"
  using winners_update [of k ps i p] by auto

definition elected :: "string \<Rightarrow> ('l, 'a) prog list \<Rightarrow> rdb \<Rightarrow> bool" where
  "elected k ps s = (winners k ps = {} \<or> live s k \<and> (\<exists>j. winners k ps \<subseteq> {j}))"

context documented_services
begin

lemma settle_rdb: "settle S p l w = (p', l', w') \<Longrightarrow> rdb (V w') = rdb (V w)"
proof (induction p arbitrary: l w)
  case (Get_Local f)
  from Get_Local.IH [OF rangeI] Get_Local.prems show ?case by simp
qed (auto simp: tell_doc)

lemma settle_needs: "needs_win k p \<Longrightarrow> settle S p l w = (p', l', w') \<Longrightarrow> needs_win k p'"
proof (induction p arbitrary: l w)
  case (Get_Local f)
  from Get_Local.IH [OF rangeI] Get_Local.prems show ?case by simp
qed auto

lemma settle_winner: "\<not> needs_win k p \<Longrightarrow> i \<in> winners k ps \<or> i \<ge> length ps \<Longrightarrow> winners k (ps[i := p]) \<subseteq> winners k ps"
  by (auto simp: winners_def nth_list_update split: if_splits)

lemma step_elected:
  assumes iss: "\<forall>p \<in> set ps. issues (candidate_call k) p" and s: "sound (rdb (V w))"
    and k: "kind_of k \<in> {Subreddit_Kind, Identity_Kind}" and el: "elected k ps (rdb (V w))"
    and st: "pool_step S i (ps, l, w) = (ps', l', w')"
  shows "elected k ps' (rdb (V w'))"
proof (cases "i < length ps")
  case True
  obtain p1 l1 w1 where s1: "settle S (ps ! i) l w = (p1, l1, w1)"
    by (cases "settle S (ps ! i) l w")
  have r1: "rdb (V w1) = rdb (V w)" using settle_rdb [OF s1] .
  have mono: "winners k (ps[i := p]) \<subseteq> winners k ps" if "needs_win k p1 \<Longrightarrow> needs_win k p" for p
  proof (cases "needs_win k p")
    case False
    with that have "\<not> needs_win k p1" by blast
    with settle_needs [OF _ s1] have "i \<in> winners k ps" using True by (auto simp: winners_def)
    with False show ?thesis by (rule settle_winner [OF _ disjI1])
  qed (rule winners_update_needs)
  show ?thesis
  proof (cases "\<exists>c f. p1 = Call c f")
    case True
    then obtain c f where c: "p1 = Call c f" by auto
    obtain r w2 where a: "ask S c w1 = (r, w2)" by (cases "ask S c w1")
    obtain p l2 w3 where s2: "settle S (f r) l1 w2 = (p, l2, w3)"
      by (cases "settle S (f r) l1 w2")
    have ps': "ps' = ps[i := p]" "rdb (V w') = rdb (V w2)"
      using st \<open>i < length ps\<close> s1 c a s2 settle_rdb [OF s2] by (auto simp: pool_step_def)
    have "issues (candidate_call k) p1"
      using settle_issues [of "candidate_call k" "ps ! i" "\<lambda>_. True" w l] iss \<open>i < length ps\<close> s1
      by (auto simp: stable_def)
    then have cand: "candidate_call k c" using c by simp
    have doc: "documented c (V w1) r (V w2)" using ask_doc [of c w1] a by simp
    note step = candidate_step [OF doc _ cand k]
    show ?thesis
    proof (cases "is_win k c r")
      case True
      then have "\<not> live (rdb (V w)) k" "live (rdb (V w2)) k"
        using step(2) s r1 by auto
      moreover from this have "winners k ps = {}" using el by (auto simp: elected_def)
      then have "winners k ps' \<subseteq> {i}"
        using winners_update [of k ps i p] ps' by (auto split: if_splits)
      ultimately show ?thesis using ps' by (auto simp: elected_def)
    next
      case False
      then have "needs_win k p1 \<Longrightarrow> needs_win k p"
        using c settle_needs [OF _ s2] by auto
      then have "winners k ps' \<subseteq> winners k ps" using mono ps' by simp
      moreover have "live (rdb (V w)) k \<Longrightarrow> live (rdb (V w')) k"
        using step(1) s r1 ps' by simp
      ultimately show ?thesis using el by (fastforce simp: elected_def)
    qed
  next
    case False
    then have "ps' = ps[i := p1]" "rdb (V w') = rdb (V w)"
      using st \<open>i < length ps\<close> s1 r1 by (cases p1; auto simp: pool_step_def)+
    with mono [of p1] el show ?thesis by (fastforce simp: elected_def)
  qed
next
  case False
  with st el show ?thesis by (auto simp: pool_step_def)
qed

lemma run_elected:
  assumes "\<forall>p \<in> set ps. issues (candidate_call k) p" and "sound (rdb (V w))"
    and "kind_of k \<in> {Subreddit_Kind, Identity_Kind}" and "elected k ps (rdb (V w))"
    and "pool_run S sch (ps, l, w) = (ps', l', w')"
  shows "elected k ps' (rdb (V w'))"
  using assms
proof (induction sch arbitrary: ps l w)
  case (Cons i sch)
  obtain ps1 l1 w1 where st: "pool_step S i (ps, l, w) = (ps1, l1, w1)"
    by (cases "pool_step S i (ps, l, w)")
  have "stable (candidate_call k) (\<lambda>v. sound (rdb v))"
    by (auto simp: stable_def intro: sound_documented candidate_is_service)
  with step_issues [OF Cons.prems(1) this _ st] Cons.prems(2)
  have "\<forall>p \<in> set ps1. issues (candidate_call k) p" "sound (rdb (V w1))" by auto
  with step_elected [OF Cons.prems(1,2,3,4) st] Cons.IH [of ps1 w1 l1] Cons.prems(3,5) st show ?case
    by (simp add: pool_run_def)
qed (simp add: pool_run_def)

text \<open>If every candidate still needs to win, at most one ever returns; none does if the
  key is already there.\<close>

lemma election:
  assumes "\<forall>p \<in> set ps. issues (candidate_call k) p \<and> needs_win k p" and "sound (rdb (V w))"
    and "kind_of k \<in> {Subreddit_Kind, Identity_Kind}"
    and "pool_run S sch (ps, l, w) = (ps', l', w')"
  shows "\<exists>j. returned ps' \<subseteq> {j}"
proof -
  have "winners k ps = {}" using assms(1) by (auto simp: winners_def)
  then have "elected k ps (rdb (V w))" by (simp add: elected_def)
  with run_elected [OF _ assms(2,3) this assms(4)] assms(1) have "elected k ps' (rdb (V w'))" by blast
  with returned_winners [of ps' k] show ?thesis by (fastforce simp: elected_def)
qed

end

end
