(* ===== verification/Json_Text.thy ===== *)
theory Json_Text
  imports Prelude
begin

section \<open>JSON text of flat objects\<close>

text \<open>
  The service stores two kinds of JSON text in Redis: the configuration of a stream
  (src/repositories/stream\_registry.py) and the entries of the error list
  (src/stream/error\_handler.py). Both are objects whose values are strings; this theory
  models \<^verbatim>\<open>json.dumps\<close> and \<^verbatim>\<open>json.loads\<close> of the standard library on such objects, with
  Python's escapes (ASCII output) and separators. Characters are code points below 256;
  a reader of text with other values, or nested ones, is outside the model.
\<close>

subsection \<open>Writing\<close>

definition hex_digit :: "nat \<Rightarrow> char" where
  "hex_digit n = (if n < 10 then char_of (48 + n) else char_of (87 + n))"

definition escape :: "char \<Rightarrow> string" where
  "escape c =
     (let n = (of_char c :: nat) in
      if n = 34 then [CHR 0x5C, CHR 0x22]
      else if n = 92 then [CHR 0x5C, CHR 0x5C]
      else if n = 10 then [CHR 0x5C, CHR ''n'']
      else if n = 13 then [CHR 0x5C, CHR ''r'']
      else if n = 9 then [CHR 0x5C, CHR ''t'']
      else if n = 12 then [CHR 0x5C, CHR ''f'']
      else if n = 8 then [CHR 0x5C, CHR ''b'']
      else if 32 \<le> n \<and> n < 127 then [c]
      else [CHR 0x5C, CHR ''u'', CHR ''0'', CHR ''0'', hex_digit (n div 16), hex_digit (n mod 16)])"

definition dumps_str :: "string \<Rightarrow> string" where
  "dumps_str s = CHR 0x22 # concat (map escape s) @ [CHR 0x22]"

definition dumps_member :: "string \<times> string \<Rightarrow> string" where
  "dumps_member m = dumps_str (fst m) @ '': '' @ dumps_str (snd m)"

fun dumps_members :: "dict \<Rightarrow> string" where
  "dumps_members [] = []"
| "dumps_members [m] = dumps_member m"
| "dumps_members (m # ms) = dumps_member m @ '', '' @ dumps_members ms"

definition json_dumps :: "dict \<Rightarrow> string" where
  "json_dumps d = ''{'' @ dumps_members d @ ''}''"

subsection \<open>Reading\<close>

definition hex_val :: "char \<Rightarrow> nat option" where
  "hex_val c =
     (let n = (of_char c :: nat) in
      if 48 \<le> n \<and> n \<le> 57 then Some (n - 48)
      else if 97 \<le> n \<and> n \<le> 102 then Some (n - 87)
      else if 65 \<le> n \<and> n \<le> 70 then Some (n - 55)
      else None)"

text \<open>What may follow a backslash, but for the \<^verbatim>\<open>u\<close> escape.\<close>

definition unescape :: "char \<Rightarrow> char option" where
  "unescape c =
     (let n = (of_char c :: nat) in
      if n = 34 \<or> n = 92 \<or> n = 47 then Some c
      else if n = 110 then Some (char_of (10 :: nat))
      else if n = 114 then Some (char_of (13 :: nat))
      else if n = 116 then Some (char_of (9 :: nat))
      else if n = 102 then Some (char_of (12 :: nat))
      else if n = 98 then Some (char_of (8 :: nat))
      else None)"

text \<open>The text of a string after its opening quote: its value and what follows.\<close>

fun read_str :: "string \<Rightarrow> (string \<times> string) option" where
  "read_str [] = None"
| "read_str (c # cs) =
     (if c = CHR 0x22 then Some ([], cs)
      else if c = CHR 0x5C then
        (case cs of
           [] \<Rightarrow> None
         | e # r \<Rightarrow>
             (if e = CHR ''u'' then
                (case r of
                   z1 # z2 # h1 # h2 # r' \<Rightarrow>
                     (case (hex_val h1, hex_val h2) of
                        (Some a, Some b) \<Rightarrow>
                          if z1 = CHR ''0'' \<and> z2 = CHR ''0''
                          then map_option (\<lambda>(s, t). (char_of (16 * a + b) # s, t)) (read_str r')
                          else None
                      | _ \<Rightarrow> None)
                 | _ \<Rightarrow> None)
              else (case unescape e of
                 None \<Rightarrow> None
               | Some x \<Rightarrow> map_option (\<lambda>(s, t). (x # s, t)) (read_str r))))
      else if (of_char c :: nat) < 32 then None
      else map_option (\<lambda>(s, t). (c # s, t)) (read_str cs))"

definition is_space :: "char \<Rightarrow> bool" where
  "is_space c = ((of_char c :: nat) \<in> {32, 9, 10, 13})"

definition skip_space :: "string \<Rightarrow> string" where
  "skip_space s = dropWhile is_space s"

text \<open>A string at the start of the text, after white space.\<close>

definition read_token :: "string \<Rightarrow> (string \<times> string) option" where
  "read_token s = (case skip_space s of c # r \<Rightarrow> if c = CHR 0x22 then read_str r else None | [] \<Rightarrow> None)"

definition expect :: "char \<Rightarrow> string \<Rightarrow> string option" where
  "expect c s = (case skip_space s of d # r \<Rightarrow> if d = c then Some r else None | [] \<Rightarrow> None)"

definition read_member :: "string \<Rightarrow> ((string \<times> string) \<times> string) option" where
  "read_member s =
     (case read_token s of None \<Rightarrow> None | Some (k, r) \<Rightarrow>
     (case expect CHR '':'' r of None \<Rightarrow> None | Some r1 \<Rightarrow>
     (case read_token r1 of None \<Rightarrow> None | Some (v, r2) \<Rightarrow> Some ((k, v), r2))))"

lemma read_str_shorter: "read_str s = Some (x, r) \<Longrightarrow> length r < length s"
proof (induction s arbitrary: x r rule: read_str.induct)
  case 1
  then show ?case by simp
next
  case (2 c cs)
  then show ?case
    by (fastforce split: if_splits list.splits option.splits dest!: sym [of _ "read_str _"])
qed

lemma read_token_shorter: "read_token s = Some (x, r) \<Longrightarrow> length r < length s"
proof -
  assume a: "read_token s = Some (x, r)"
  then obtain c t where t: "skip_space s = c # t" and "read_str t = Some (x, r)"
    by (auto simp: read_token_def split: list.splits if_splits)
  then have "length r < length t" by (simp add: read_str_shorter)
  moreover have "length (skip_space s) \<le> length s"
    by (simp add: skip_space_def length_dropWhile_le)
  ultimately show ?thesis using t by simp
qed

lemma expect_shorter: "expect c s = Some r \<Longrightarrow> length r < length s"
proof -
  assume "expect c s = Some r"
  then have "skip_space s = c # r"
    by (auto simp: expect_def split: list.splits if_splits)
  moreover have "length (skip_space s) \<le> length s"
    by (simp add: skip_space_def length_dropWhile_le)
  ultimately show ?thesis by simp
qed

lemma read_member_shorter: "read_member s = Some (m, r) \<Longrightarrow> length r < length s"
  by (auto simp: read_member_def dest!: read_token_shorter expect_shorter split: option.splits prod.splits)

text \<open>The members after the opening brace, the last of duplicate keys winning.\<close>

function read_members :: "string \<Rightarrow> (dict \<times> string) option" where
  "read_members s =
     (case read_member s of None \<Rightarrow> None | Some (m, r) \<Rightarrow>
     (case expect CHR '','' r of
        Some r1 \<Rightarrow> map_option (\<lambda>(ms, t). (m # ms, t)) (read_members r1)
      | None \<Rightarrow> map_option (\<lambda>t. ([m], t)) (expect CHR ''}'' r)))"
  by pat_completeness auto
termination
  by (relation "measure length") (auto dest!: read_member_shorter expect_shorter)

declare read_members.simps [simp del]

text \<open>\<open>None\<close> is \<^verbatim>\<open>JSONDecodeError\<close>.\<close>

definition json_loads :: "string \<Rightarrow> dict option" where
  "json_loads s =
     (case expect CHR ''{'' s of None \<Rightarrow> None | Some r \<Rightarrow>
     (case expect CHR ''}'' r of
        Some t \<Rightarrow> if skip_space t = [] then Some [] else None
      | None \<Rightarrow>
          (case read_members r of
             Some (ms, t) \<Rightarrow> if skip_space t = [] then Some (dict_update ms []) else None
           | None \<Rightarrow> None)))"

subsection \<open>Reading back what was written\<close>

lemma of_char_bound: "(of_char c :: nat) < 256"
  by simp

lemma hex_val_digit: "n < 16 \<Longrightarrow> hex_val (hex_digit n) = Some n"
  by (auto simp: hex_val_def hex_digit_def Let_def)

lemma char_of_of_char_nat: "char_of (of_char c :: nat) = c"
  by simp

lemma char_eqI: "(of_char c :: nat) = of_char d \<Longrightarrow> c = d"
  by (simp add: of_char_eq_iff)

lemma read_str_escape: "read_str (escape c @ s) = map_option (\<lambda>(x, t). (c # x, t)) (read_str s)"
proof -
  let ?n = "of_char c :: nat"
  have c: "char_of ?n = c" by simp
  have special: "?n = k \<Longrightarrow> c = char_of k" for k using c by simp
  have q: "c = CHR 0x22 \<longleftrightarrow> ?n = 34" and b: "c = CHR 0x5C \<longleftrightarrow> ?n = 92"
    by (auto intro: char_eqI)
  consider "c = CHR 0x22" | "c = CHR 0x5C" | "?n \<in> {10, 13, 9, 12, 8}"
    | "32 \<le> ?n" "?n < 127" "?n \<noteq> 34" "?n \<noteq> 92"
    | "?n \<notin> {34, 92, 10, 13, 9, 12, 8}" "\<not> (32 \<le> ?n \<and> ?n < 127)"
    using q b by blast
  then show ?thesis
  proof cases
    case 1
    then show ?thesis by (simp add: escape_def unescape_def Let_def)
  next
    case 2
    then show ?thesis by (simp add: escape_def unescape_def Let_def)
  next
    case 3
    then show ?thesis
      by (auto simp: escape_def unescape_def Let_def dest!: special)
  next
    case 4
    with q b show ?thesis by (simp add: escape_def Let_def)
  next
    case 5
    have "hex_val (hex_digit (?n div 16)) = Some (?n div 16)"
      "hex_val (hex_digit (?n mod 16)) = Some (?n mod 16)"
      using of_char_bound [of c] by (auto intro!: hex_val_digit simp: div_less_iff_less_mult)
    moreover have "char_of (16 * (?n div 16) + ?n mod 16) = c" by simp
    moreover have "c \<noteq> CHR 0x22" "c \<noteq> CHR 0x5C" using 5 q b by auto
    ultimately show ?thesis using 5 by (simp add: escape_def Let_def)
  qed
qed

lemma read_str_dumps: "read_str (concat (map escape s) @ CHR 0x22 # t) = Some (s, t)"
  by (induction s) (simp_all add: read_str_escape)

lemma skip_space_char: "\<not> is_space c \<Longrightarrow> skip_space (c # s) = c # s"
  by (simp add: skip_space_def)

lemma not_space [simp]:
  "\<not> is_space CHR 0x22" "\<not> is_space CHR '':''" "\<not> is_space CHR '',''"
  "\<not> is_space CHR ''{''" "\<not> is_space CHR ''}''" "is_space CHR '' ''"
  by (simp_all add: is_space_def)

lemma skip_space_blank [simp]: "skip_space (CHR '' '' # s) = skip_space s" "skip_space [] = []"
  by (simp_all add: skip_space_def)

lemma read_token_dumps [simp]: "read_token (dumps_str x @ s) = Some (x, s)"
  by (simp add: read_token_def dumps_str_def skip_space_char read_str_dumps)

lemma read_token_dumps_blank [simp]: "read_token (CHR '' '' # dumps_str x @ s) = Some (x, s)"
  by (simp add: read_token_def dumps_str_def skip_space_char read_str_dumps)

lemma expect_char [simp]: "\<not> is_space d \<Longrightarrow> expect c (d # s) = (if d = c then Some s else None)"
  by (simp add: expect_def skip_space_char)

lemma read_member_dumps: "read_member (dumps_member m @ s) = Some (m, s)"
  by (simp add: read_member_def dumps_member_def)

lemma read_member_dumps_blank: "read_member (CHR '' '' # dumps_member m @ s) = Some (m, s)"
  by (simp add: read_member_def dumps_member_def)

lemma read_members_dumps:
  "d \<noteq> [] \<Longrightarrow> read_members (dumps_members d @ ''}'' @ s) = Some (d, s)
            \<and> read_members (CHR '' '' # dumps_members d @ ''}'' @ s) = Some (d, s)"
proof (induction d rule: dumps_members.induct)
  case (2 m)
  then show ?case
    by (simp add: read_members.simps read_member_dumps read_member_dumps_blank)
next
  case (3 m m' ms)
  then show ?case
    by (simp add: read_members.simps [of "dumps_member m @ _"]
        read_members.simps [of "CHR '' '' # dumps_member m @ _"] read_member_dumps read_member_dumps_blank)
qed simp

lemma update_new: "k \<notin> fst ` set d \<Longrightarrow> AList.update k v d = d @ [(k, v)]"
  by (induction d) auto

lemma dict_update_distinct:
  "distinct (map fst ms) \<Longrightarrow> fst ` set ms \<inter> fst ` set d = {} \<Longrightarrow> dict_update ms d = d @ ms"
  by (induction ms d rule: dict_update.induct) (auto simp: update_new)

lemma json_loads_dumps:
  assumes "distinct (map fst d)"
  shows "json_loads (json_dumps d) = Some d"
proof (cases "d = []")
  case True
  then show ?thesis by (simp add: json_loads_def json_dumps_def)
next
  case False
  then obtain m ms where d: "d = m # ms" by (cases d) auto
  have "\<exists>r. dumps_members d = CHR 0x22 # r"
    by (cases ms) (auto simp: d dumps_member_def dumps_str_def)
  then obtain r where r: "dumps_members d = CHR 0x22 # r" ..
  have "read_members (CHR 0x22 # r @ ''}'') = Some (d, [])"
    using read_members_dumps [OF False, of "[]"] by (simp add: r)
  then show ?thesis
    using dict_update_distinct [OF assms, of "[]"]
    by (simp add: json_loads_def json_dumps_def r)
qed

end
