(* ===== verification/Registry.thy ===== *)
theory Registry
  imports Redis_Calls Json_Text
begin

section \<open>The stream registry\<close>

text \<open>
  \<^verbatim>\<open>StreamRegistry\<close> of src/repositories/stream\_registry.py: stream metadata, the claim
  of a subreddit, the stable identity that survives restarts, stop requests and
  checkpoints, all in Redis, with a best-effort copy in PostgreSQL. \<open>db\<close> says whether the
  registry has a session maker. A row read back is the hash's text fields together with
  the decoded configuration that the code stores under \<^verbatim>\<open>data["config"]\<close>.
\<close>

record stream_data =
  sd_fields :: dict
  sd_config :: "dict option"

subsection \<open>The methods\<close>

definition exists_error :: "string \<Rightarrow> string option \<Rightarrow> pyexn" where
  "exists_error subreddit existing =
     stream_exists_error (''stream already exists for subreddit='' @ subreddit @ '' (id='' @
       (case existing of None \<Rightarrow> ''None'' | Some i \<Rightarrow> i) @ '')'')"

definition stream_meta :: "string \<Rightarrow> string \<Rightarrow> dict \<Rightarrow> string option \<Rightarrow> string \<Rightarrow> string \<Rightarrow> dict" where
  "stream_meta stream_id subreddit config instance_id created updated =
     [(''id'', stream_id),
      (''subreddit'', subreddit),
      (''status'', ''starting''),
      (''instance_id'', or_empty instance_id),
      (''config'', json_dumps config),
      (''created_at'', created),
      (''updated_at'', updated)]"

text \<open>The second half of \<^verbatim>\<open>create_stream\<close>: the claim has been won.\<close>

definition write_stream ::
    "bool \<Rightarrow> string \<Rightarrow> string \<Rightarrow> dict \<Rightarrow> string option \<Rightarrow> ('l, dict) prog" where
  "write_stream db stream_id subreddit config instance_id =
     bind now_iso (\<lambda>created. bind now_iso (\<lambda>updated.
     let meta = stream_meta stream_id subreddit config instance_id created updated in
     andthen (redis_do (Hset (meta_key stream_id) meta))
    (andthen (redis_do (Sadd streams_all stream_id))
    (andthen (if truthy instance_id
              then redis_do (Sadd (instance_key (or_empty instance_id)) stream_id) else skip)
    (andthen (persist db (Insert_Stream stream_id subreddit ''starting'' (or_none instance_id)
                (json_dumps config)))
      (Ret meta))))))"

text \<open>The middle of \<^verbatim>\<open>create_stream\<close>: the subreddit's identity, a new one or the one
  already there; then the claim.\<close>

definition resolve_identity :: "string \<Rightarrow> ('l, string option) prog" where
  "resolve_identity subreddit =
     bind uuid4 (\<lambda>candidate_id.
     bind (redis_setnx (identity_key subreddit) candidate_id None) (\<lambda>identity_created.
     if identity_created then Ret (Some candidate_id) else redis_get (identity_key subreddit)))"

definition claim_stream ::
    "bool \<Rightarrow> string \<Rightarrow> string \<Rightarrow> dict \<Rightarrow> string option \<Rightarrow> ('l, dict) prog" where
  "claim_stream db stream_id subreddit config instance_id =
     bind (redis_setnx (subreddit_key subreddit) stream_id None) (\<lambda>claimed.
     if \<not> claimed then
       bind (redis_get (subreddit_key subreddit)) (\<lambda>existing.
         Raise (exists_error subreddit existing))
     else write_stream db stream_id subreddit config instance_id)"

definition create_stream ::
    "bool \<Rightarrow> string \<Rightarrow> dict \<Rightarrow> string option \<Rightarrow> ('l, dict) prog" where
  "create_stream db subreddit config instance_id =
     bind (redis_get (subreddit_key subreddit)) (\<lambda>existing.
     if truthy existing then
       bind (redis_setnx (identity_key subreddit) (or_empty existing) None) (\<lambda>_.
         Raise (exists_error subreddit existing))
     else
       bind (resolve_identity subreddit) (\<lambda>stream_id.
       if \<not> truthy stream_id then
         Raise (runtime_error (''Unable to resolve stream identity for '' @ subreddit))
       else claim_stream db (or_empty stream_id) subreddit config instance_id))"

text \<open>\<^verbatim>\<open>if data.get("config"): try: json.loads(...) except Exception: {}\<close>.\<close>

definition decode_row :: "dict \<Rightarrow> stream_data" where
  "decode_row data =
     \<lparr>sd_fields = data,
      sd_config = (if truthy (dict_get data ''config'')
        then Some (case json_loads (or_empty (dict_get data ''config'')) of Some d \<Rightarrow> d | None \<Rightarrow> [])
        else None)\<rparr>"

definition get_stream :: "string \<Rightarrow> ('l, stream_data) prog" where
  "get_stream stream_id =
     bind (redis_hgetall (meta_key stream_id)) (\<lambda>data.
     if data = [] then Raise (stream_not_found_error stream_id) else Ret (decode_row data))"

definition get_stream_by_subreddit :: "string \<Rightarrow> ('l, stream_data option) prog" where
  "get_stream_by_subreddit subreddit =
     bind (redis_get (subreddit_key subreddit)) (\<lambda>sid.
     if \<not> truthy sid then Ret None
     else bind (get_stream (or_empty sid)) (\<lambda>d. Ret (Some d)))"

text \<open>The loop of \<^verbatim>\<open>list_streams\<close> over the identifiers and their rows: what is returned
  and which identifiers are stale.\<close>

fun split_rows :: "string list \<Rightarrow> dict list \<Rightarrow> stream_data list \<times> string list" where
  "split_rows (i # is) (data # rows) =
     (let (results, stale) = split_rows is rows in
      if data = [] then (results, i # stale) else (decode_row data # results, stale))"
| "split_rows _ _ = ([], [])"

definition list_streams :: "('l, stream_data list) prog" where
  "list_streams =
     bind (redis_smembers streams_all) (\<lambda>stream_ids.
     if stream_ids = [] then Ret []
     else
       bind (redis_hgetalls (map meta_key stream_ids)) (\<lambda>rows.
       if length rows \<noteq> length stream_ids then Raise (value_error ''zip() argument lengths differ'')
       else let (results, stale_stream_ids) = split_rows stream_ids rows in
       andthen (if stale_stream_ids \<noteq> [] then redis_do (Srem streams_all stale_stream_ids) else skip)
         (Ret results)))"

definition update_status :: "bool \<Rightarrow> string \<Rightarrow> string \<Rightarrow> string option \<Rightarrow> ('l, unit) prog" where
  "update_status db stream_id status instance_id =
     bind (case instance_id of None \<Rightarrow> Ret None
           | Some _ \<Rightarrow> redis_hget (meta_key stream_id) ''instance_id'') (\<lambda>previous_instance_id.
     bind now_iso (\<lambda>now.
     andthen (redis_do (Hset (meta_key stream_id)
       ([(''status'', status), (''updated_at'', now)] @
        (case instance_id of None \<Rightarrow> [] | Some i \<Rightarrow> [(''instance_id'', i)]))))
    (andthen (case instance_id of None \<Rightarrow> skip | Some i \<Rightarrow>
         andthen (redis_do (Sadd (instance_key i) stream_id))
           (if truthy previous_instance_id \<and> previous_instance_id \<noteq> Some i
            then redis_do (Srem (instance_key (or_empty previous_instance_id)) [stream_id]) else skip))
      (persist db (Update_Stream_Status stream_id status instance_id)))))"

definition update_status_if_owner :: "bool \<Rightarrow> string \<Rightarrow> string \<Rightarrow> string \<Rightarrow> ('l, bool) prog" where
  "update_status_if_owner db stream_id status instance_id =
     bind now_iso (\<lambda>now.
     bind (redis_eval (Update_Status_If_Owner (meta_key stream_id) instance_id status now)) (\<lambda>updated.
     if \<not> updated then Ret False
     else andthen (persist db (Update_Stream_Status_If_Owner stream_id status instance_id)) (Ret True)))"

definition finalize_stop_if_unowned :: "bool \<Rightarrow> string \<Rightarrow> string \<Rightarrow> string \<Rightarrow> ('l, bool) prog" where
  "finalize_stop_if_unowned db stream_id subreddit expected_updated_at =
     bind now_iso (\<lambda>now.
     bind (redis_eval (Finalize_Stop_If_Unowned (meta_key stream_id) (lock_key subreddit)
             expected_updated_at now)) (\<lambda>updated.
     if \<not> updated then Ret False
     else andthen (persist db (Finalize_Stream_Stop stream_id)) (Ret True)))"

definition heartbeat :: "string \<Rightarrow> string \<Rightarrow> ('l, bool) prog" where
  "heartbeat stream_id instance_id =
     bind now_iso (\<lambda>now.
     redis_eval (Heartbeat_If_Active (meta_key stream_id) (instance_key instance_id)
       instance_id now stream_id))"

definition request_stop :: "bool \<Rightarrow> string \<Rightarrow> ('l, unit) prog" where
  "request_stop db stream_id =
     bind (get_stream stream_id) (\<lambda>meta.
     bind now_iso (\<lambda>now.
     andthen (redis_do (Set_Plain (stop_request_key stream_id) now))
       (update_status db stream_id ''stopping'' (or_none (dict_get (sd_fields meta) ''instance_id'')))))"

definition is_stop_requested :: "string \<Rightarrow> ('l, bool) prog" where
  "is_stop_requested stream_id = redis_exists (stop_request_key stream_id)"

definition delete_stream ::
    "string \<Rightarrow> string option \<Rightarrow> string option \<Rightarrow> bool \<Rightarrow> ('l, bool) prog" where
  "delete_stream stream_id expected_status expected_updated_at purge_checkpoint =
     bind (redis_hgetall (meta_key stream_id)) (\<lambda>meta.
     if meta = [] then Ret False
     else let subreddit = dict_get meta ''subreddit'' in
     if \<not> truthy subreddit then Ret False
     else
       bind (redis_eval (Delete_Stream_If_Unchanged
               (meta_key stream_id) (checkpoint_key stream_id) (stop_request_key stream_id)
               (subreddit_key (or_empty subreddit)) streams_all (identity_key (or_empty subreddit))
               stream_id (or_empty expected_status) (or_empty expected_updated_at)
               (if purge_checkpoint then ''1'' else ''0''))) (\<lambda>deleted.
       let instance_id = dict_get meta ''instance_id'' in
       andthen (if deleted \<and> truthy instance_id
                then redis_do (Srem (instance_key (or_empty instance_id)) [stream_id]) else skip)
         (Ret deleted)))"

definition set_checkpoint :: "string \<Rightarrow> string option \<Rightarrow> string option \<Rightarrow> ('l, unit) prog" where
  "set_checkpoint stream_id last_comment_id last_processed_at =
     (let mapping =
        (case last_comment_id of None \<Rightarrow> [] | Some c \<Rightarrow> [(''last_comment_id'', c)]) @
        (case last_processed_at of None \<Rightarrow> [] | Some p \<Rightarrow> [(''last_processed_at'', p)])
      in if mapping \<noteq> [] then
           bind now_iso (\<lambda>now.
             redis_do (Hset (checkpoint_key stream_id) (mapping @ [(''updated_at'', now)])))
         else skip)"

record checkpoint =
  last_comment_id :: "string option"
  last_processed_at :: "string option"
  checkpoint_updated_at :: "string option"

definition get_checkpoint :: "string \<Rightarrow> ('l, checkpoint) prog" where
  "get_checkpoint stream_id =
     bind (redis_hgetall (checkpoint_key stream_id)) (\<lambda>data.
     Ret \<lparr>last_comment_id = dict_get data ''last_comment_id'',
          last_processed_at = dict_get data ''last_processed_at'',
          checkpoint_updated_at = dict_get data ''updated_at''\<rparr>)"

lemmas registry_defs [handler_defs] = write_stream_def resolve_identity_def
  claim_stream_def create_stream_def get_stream_def
  get_stream_by_subreddit_def list_streams_def update_status_def update_status_if_owner_def
  finalize_stop_if_unowned_def heartbeat_def request_stop_def is_stop_requested_def
  delete_stream_def set_checkpoint_def get_checkpoint_def

end
