(* ===== verification/Registry_Inv.thy ===== *)
theory Registry_Inv
  imports Registry Key_Space
begin

section \<open>The registry's invariant\<close>

text \<open>
  Three partial functions tell the registry's identities: who claims a subreddit, the
  stable identity of a subreddit, and the subreddit a stream's metadata names. The
  invariant says how they agree; every method keeps it whatever its outcome, also when a
  call raises half-way through.
\<close>

subsection \<open>Claims, identities and metadata\<close>

definition claim :: "rdb \<Rightarrow> string \<Rightarrow> string option" where
  "claim s sub = str_at s (subreddit_key sub)"

definition ident :: "rdb \<Rightarrow> string \<Rightarrow> string option" where
  "ident s sub = str_at s (identity_key sub)"

definition meta_field :: "rdb \<Rightarrow> string \<Rightarrow> string \<Rightarrow> string option" where
  "meta_field s i f = hash_field s (meta_key i) f"

abbreviation names_sub :: "rdb \<Rightarrow> string \<Rightarrow> string option" where
  "names_sub s i \<equiv> meta_field s i ''subreddit''"

lemma ids_at_time [simp]:
  assumes "sound s"
  shows "claim (at_time t s) = claim s" "ident (at_time t s) = ident s"
    "meta_field (at_time t s) = meta_field s"
  using assms by (auto simp: claim_def ident_def meta_field_def fun_eq_iff)

lemma ids_put_key [simp]:
  "claim (put_key (subreddit_key sub) (VStr i) s) = (claim s)(sub := Some i)"
  "ident (put_key (identity_key sub) (VStr i) s) = (ident s)(sub := Some i)"
  "meta_field (put_key (meta_key i) (VHash h) s) = (meta_field s)(i := map_of h)"
  "kind_of k \<noteq> Subreddit_Kind \<Longrightarrow> claim (put_key k x s) = claim s"
  "kind_of k \<noteq> Identity_Kind \<Longrightarrow> ident (put_key k x s) = ident s"
  "kind_of k \<noteq> Meta_Kind \<Longrightarrow> meta_field (put_key k x s) = meta_field s"
  by (auto simp: claim_def ident_def meta_field_def fun_eq_iff)

lemma ids_del_key [simp]:
  "claim (del_key (subreddit_key sub) s) = (claim s)(sub := None)"
  "ident (del_key (identity_key sub) s) = (ident s)(sub := None)"
  "meta_field (del_key (meta_key i) s) = (meta_field s)(i := (\<lambda>_. None))"
  "kind_of k \<noteq> Subreddit_Kind \<Longrightarrow> claim (del_key k s) = claim s"
  "kind_of k \<noteq> Identity_Kind \<Longrightarrow> ident (del_key k s) = ident s"
  "kind_of k \<noteq> Meta_Kind \<Longrightarrow> meta_field (del_key k s) = meta_field s"
  by (auto simp: claim_def ident_def meta_field_def fun_eq_iff)

lemma ids_set_ttl [simp]:
  "claim (set_ttl k d s) = claim s" "ident (set_ttl k d s) = ident s"
  "meta_field (set_ttl k d s) = meta_field s"
  by (auto simp: claim_def ident_def meta_field_def fun_eq_iff)

lemma ids_put_set [simp]:
  "kind_of k \<notin> {Subreddit_Kind, Identity_Kind, Meta_Kind} \<Longrightarrow> claim (put_set k m s) = claim s"
  "kind_of k \<notin> {Subreddit_Kind, Identity_Kind, Meta_Kind} \<Longrightarrow> ident (put_set k m s) = ident s"
  "kind_of k \<notin> {Subreddit_Kind, Identity_Kind, Meta_Kind} \<Longrightarrow> meta_field (put_set k m s) = meta_field s"
  by (auto simp: put_set_def)

lemma hash_at_meta: "map_of (hash_at s (meta_key i)) = meta_field s i"
  by (simp add: meta_field_def hash_field_def fun_eq_iff)

definition ids_agree ::
    "(string \<Rightarrow> string option) \<Rightarrow> (string \<Rightarrow> string option) \<Rightarrow> (string \<Rightarrow> string option)
      \<Rightarrow> string list \<Rightarrow> bool" where
  "ids_agree cl idn msub us =
     ((\<forall>sub i. cl sub = Some i \<longrightarrow> idn sub = Some i) \<and>
      (\<forall>i sub. msub i = Some sub \<longrightarrow> idn sub = Some i) \<and>
      (\<forall>sub sub' i. idn sub = Some i \<longrightarrow> idn sub' = Some i \<longrightarrow> sub = sub') \<and>
      (\<forall>sub i. idn sub = Some i \<longrightarrow> i \<in> set us \<and> i \<noteq> []))"

definition registry_ok :: "view \<Rightarrow> bool" where
  "registry_ok v =
     (sound (rdb v) \<and> ids_agree (claim (rdb v)) (ident (rdb v)) (names_sub (rdb v)) (uuids v))"

text \<open>The four kinds of change the methods make.\<close>

lemma agree_more_uuids: "ids_agree cl idn ms us \<Longrightarrow> ids_agree cl idn ms (u # us)"
  by (auto simp: ids_agree_def)

lemma agree_new_identity:
  "ids_agree cl idn ms us \<Longrightarrow> u \<notin> set us \<Longrightarrow> u \<noteq> [] \<Longrightarrow> idn sub = None \<Longrightarrow>
     ids_agree cl (idn(sub := Some u)) ms (u # us)"
  unfolding ids_agree_def by (auto split: if_splits)

lemma agree_claim:
  "ids_agree cl idn ms us \<Longrightarrow> idn sub = Some i \<Longrightarrow> ids_agree (cl(sub := Some i)) idn ms us"
  unfolding ids_agree_def by auto

lemma agree_meta:
  "ids_agree cl idn ms us \<Longrightarrow> idn sub = Some i \<Longrightarrow> ids_agree cl idn (ms(i := Some sub)) us"
  unfolding ids_agree_def by auto

lemma agree_delete:
  assumes "ids_agree cl idn ms us" and "ms i = Some sub"
  shows "ids_agree (if cl sub = Some i then cl(sub := None) else cl) (idn(sub := Some i)) (ms(i := None)) us"
proof -
  have i: "idn sub = Some i"
    using assms by (auto simp: ids_agree_def)
  then have "idn(sub := Some i) = idn" by auto
  then show ?thesis
    using assms(1) by (auto simp: ids_agree_def)
qed

lemma agree_purge:
  assumes "ids_agree cl idn ms us" and "ms i = Some sub"
  shows "ids_agree (if cl sub = Some i then cl(sub := None) else cl) (idn(sub := None)) (ms(i := None)) us"
proof -
  have i: "idn sub = Some i"
    using assms by (auto simp: ids_agree_def)
  let ?cl = "if cl sub = Some i then cl(sub := None) else cl"
  have "\<And>j. cl sub = Some j \<Longrightarrow> j = i" and "\<And>j. ms j = Some sub \<Longrightarrow> j = i"
    using assms i by (auto simp: ids_agree_def)
  then have "\<And>sub' j. ?cl sub' = Some j \<Longrightarrow> sub' \<noteq> sub \<and> cl sub' = Some j"
    and "\<And>j sub'. (ms(i := None)) j = Some sub' \<Longrightarrow> sub' \<noteq> sub \<and> ms j = Some sub'"
    by (auto split: if_splits)
  moreover have "\<And>sub' j. (idn(sub := None)) sub' = Some j \<longleftrightarrow> sub' \<noteq> sub \<and> idn sub' = Some j"
    by simp
  ultimately show ?thesis
    using assms(1) unfolding ids_agree_def by blast
qed

subsection \<open>Every method keeps the invariant\<close>

lemma registry_ok_frame [simp]:
  "registry_ok (v\<lparr>pgd := d\<rparr>) = registry_ok v"
  "registry_ok (v\<lparr>metrics := m\<rparr>) = registry_ok v"
  by (simp_all add: registry_ok_def)

lemma ok_later [simp]: "registry_ok v \<Longrightarrow> registry_ok (later t v)"
  by (simp add: registry_ok_def)

lemma registry_ok_uuid [simp]: "registry_ok v \<Longrightarrow> registry_ok (issued u v)"
  by (simp add: registry_ok_def agree_more_uuids)

lemma ok_sound [simp]: "registry_ok v \<Longrightarrow> sound (rdb v)"
  by (simp add: registry_ok_def)

text \<open>A write to a key that is none of claim, identity and metadata.\<close>

lemma ok_other:
  assumes "registry_ok v" and "command_ok c"
    and "claim (redis_effect c (rdb v)) = claim (rdb v)"
    and "ident (redis_effect c (rdb v)) = ident (rdb v)"
    and "meta_field (redis_effect c (rdb v)) = meta_field (rdb v)"
  shows "registry_ok (with_rdb (redis_effect c) v)"
  using assms by (simp add: registry_ok_def sound_effect)

lemma ids_put_list [simp]:
  "kind_of k \<notin> {Subreddit_Kind, Identity_Kind, Meta_Kind} \<Longrightarrow> claim (put_list k m s) = claim s"
  "kind_of k \<notin> {Subreddit_Kind, Identity_Kind, Meta_Kind} \<Longrightarrow> ident (put_list k m s) = ident s"
  "kind_of k \<notin> {Subreddit_Kind, Identity_Kind, Meta_Kind} \<Longrightarrow> meta_field (put_list k m s) = meta_field s"
  by (auto simp: put_list_def)

lemma ok_other_put [simp]:
  assumes "registry_ok v"
  shows "kind_of k \<in> {Instance_Kind, All_Kind} \<Longrightarrow> registry_ok (with_rdb (redis_effect (Sadd k x)) v)"
   "kind_of k \<in> {Instance_Kind, All_Kind} \<Longrightarrow> registry_ok (with_rdb (redis_effect (Srem k xs)) v)"
   "kind_of k = Stop_Kind \<Longrightarrow> registry_ok (with_rdb (redis_effect (Set_Plain k y)) v)"
   "kind_of k = Checkpoint_Kind \<Longrightarrow> registry_ok (with_rdb (redis_effect (Hset k d)) v)"
   "kind_of k = Error_Kind \<Longrightarrow> registry_ok (with_rdb (redis_effect (Lpush k y)) v)"
   "kind_of k = Error_Kind \<Longrightarrow> registry_ok (with_rdb (redis_effect (Ltrim k i j)) v)"
   "kind_of k = Error_Kind \<Longrightarrow> registry_ok (with_rdb (redis_effect (Expire k e)) v)"
   "kind_of k = Error_Kind \<Longrightarrow> registry_ok (with_rdb (redis_effect (Del [k])) v)"
  by (rule ok_other; use assms in \<open>auto simp: text_kinds_def\<close>)+

lemma ok_hset_meta [simp]:
  assumes "registry_ok v" and "map_of (rev d) ''subreddit'' = None"
  shows "registry_ok (with_rdb (redis_effect (Hset (meta_key i) d)) v)"
proof -
  have "((meta_field s)(i := map_of (dict_update d (hash_at s (meta_key i))))) j ''subreddit'' = meta_field s j ''subreddit''" for s j
    using assms(2) by (simp add: map_of_dict_update hash_at_meta)
  with assms show ?thesis by (auto simp: registry_ok_def simp del: fun_upd_apply)
qed

definition identity_is :: "string \<Rightarrow> string \<Rightarrow> view \<Rightarrow> bool" where
  "identity_is sub i v = (ident (rdb v) sub = Some i)"

lemma identity_later [simp]: "registry_ok v \<Longrightarrow> identity_is sub i (later t v) = identity_is sub i v"
  by (simp add: identity_is_def registry_ok_def)

lemma ok_hset_new [simp]:
  assumes "registry_ok v" and "identity_is sub i v" and "map_of (rev d) ''subreddit'' = Some sub"
  shows "registry_ok (with_rdb (redis_effect (Hset (meta_key i) d)) v)"
proof -
  have "(\<lambda>j. ((meta_field s)(i := map_of (dict_update d (hash_at s (meta_key i))))) j ''subreddit'') = 
    (names_sub s)(i := Some sub)" for s 
    using assms(3) by (auto simp: map_of_dict_update)
  with assms show ?thesis by (simp add: registry_ok_def identity_is_def agree_meta)
qed

lemma stream_meta_rev [simp]: "map_of (rev (stream_meta i sub cfg inst c u)) ''subreddit'' = Some sub"
  by (simp add: stream_meta_def)

lemma truthy_eq: "truthy x \<Longrightarrow> x = Some (or_empty x)"
  by (cases x) auto

lemma identity_frame [simp]:
  "identity_is sub i (issued u v) = identity_is sub i v"
  "identity_is sub i (v\<lparr>pgd := d\<rparr>) = identity_is sub i v"
  "identity_is sub i (v\<lparr>metrics := m\<rparr>) = identity_is sub i v"
  by (simp_all add: identity_is_def)

lemma keeps_write:
  "registry_ok v \<Longrightarrow> identity_is sub i v \<Longrightarrow>
     wp (write_stream db i sub cfg inst) (\<lambda>_ _. registry_ok) l v"
  unfolding write_stream_def Let_def
  by (auto simp add: wp_rules ok_hset_new [where sub=sub] simp del: effect_simps)

definition unused_id :: "string \<Rightarrow> view \<Rightarrow> bool" where
  "unused_id u v = (u \<noteq> [] \<and> (\<forall>sub. ident (rdb v) sub \<noteq> Some u) \<and> u \<in> set (uuids v))"

lemma unused_later [simp]: "registry_ok v \<Longrightarrow> unused_id u (later t v) = unused_id u v"
  by (simp add: unused_id_def registry_ok_def)

lemma unused_fresh [simp]: "registry_ok v \<Longrightarrow> u \<noteq> [] \<Longrightarrow> u \<notin> set (uuids v) \<Longrightarrow> unused_id u (issued u v)"
  by (auto simp: unused_id_def registry_ok_def ids_agree_def)

lemma ok_setnx_identity [simp]:
  assumes "registry_ok v" and "unused_id u v"
  shows "registry_ok (with_rdb (set_absent (identity_key sub) u None) v)"
proof (cases "live (rdb v) (identity_key sub)")
  case False
  then have "ident (rdb v) sub = None"
    by (simp add: ident_def live_def str_at_def)
  with False assms show ?thesis
    by (auto simp: registry_ok_def set_absent_def unused_id_def ids_agree_def split: if_splits)
qed (use assms in \<open>simp add: set_absent_def registry_ok_def\<close>)

lemma identity_set [simp]:
  "\<not> live (rdb v) (identity_key sub) \<Longrightarrow> identity_is sub u (with_rdb (set_absent (identity_key sub) u None) v)"
  by (simp add: identity_is_def set_absent_def)

lemma ok_setnx_claim [simp]:
  assumes "registry_ok v" and "identity_is sub i v"
  shows "registry_ok (with_rdb (set_absent (subreddit_key sub) i None) v)"
  using assms by (auto simp: registry_ok_def set_absent_def identity_is_def intro: agree_claim)

lemma identity_setnx_claim [simp]:
  "identity_is sub i (with_rdb (set_absent (subreddit_key sub') j None) v) = identity_is sub i v"
  by (simp add: identity_is_def set_absent_def)

lemma identity_read:
  "truthy (str_at (rdb v) (identity_key sub)) \<Longrightarrow> identity_is sub (or_empty (str_at (rdb v) (identity_key sub))) v"
  by (simp add: identity_is_def ident_def truthy_eq [symmetric])

lemma identity_read_later:
  "registry_ok v \<Longrightarrow> rdb v = s \<Longrightarrow> truthy (str_at (at_time t s) (identity_key sub)) \<Longrightarrow>
     identity_is sub (or_empty (str_at (at_time t s) (identity_key sub))) v"
  using identity_read [of "later t v" sub] by auto

lemma wp_resolve:
  "registry_ok v \<Longrightarrow> wp (resolve_identity sub) (\<lambda>r l v'. registry_ok v' \<and>
     (\<forall>x. r = Inr x \<longrightarrow> truthy x \<longrightarrow> identity_is sub (or_empty x) v')) l v"
  unfolding resolve_identity_def
  by (auto simp: wp_rules identity_read_later)

lemma keeps_claim:
  "registry_ok v \<Longrightarrow> identity_is sub i v \<Longrightarrow> wp (claim_stream db i sub cfg inst) (\<lambda>_ _. registry_ok) l v"
  unfolding claim_stream_def
  by (auto simp add: wp_rules intro!: keeps_write simp del: effect_simps)

lemma identity_claimed: "registry_ok v \<Longrightarrow> claim (rdb v) sub = Some i \<Longrightarrow> identity_is sub i v"
  by (auto simp: registry_ok_def ids_agree_def identity_is_def)

lemma setnx_backfill:
  "identity_is sub i v \<Longrightarrow> with_rdb (set_absent (identity_key sub) j None) v = v"
  by (auto simp: identity_is_def ident_def with_rdb_def set_absent_def dest: str_at_live)

lemma backfill_claimed:
  assumes "registry_ok v" and "truthy (claim (rdb v) sub)"
  shows "registry_ok (with_rdb (set_absent (identity_key sub) j None) v)"
  using identity_claimed [OF assms(1) truthy_eq [OF assms(2)]] assms(1) by (simp add: setnx_backfill)

lemma keeps_create [keeps_rules]: "keeps registry_ok (create_stream db sub cfg inst)"
proof (rule keepsI)
  fix l :: 'b and v
  assume ok: "registry_ok v"
  have "registry_ok (with_rdb (set_absent (identity_key sub) j None) (later t' (later t v)))"
    if "truthy (str_at (at_time t (rdb v)) (subreddit_key sub))" for t t' j
    using that ok by (intro backfill_claimed) (simp_all add: claim_def [symmetric] registry_ok_def)
  moreover have "wp (bind (resolve_identity sub) (\<lambda>stream_id.
       if \<not> truthy stream_id then Raise (runtime_error (''Unable to resolve stream identity for '' @ sub))
       else claim_stream db (or_empty stream_id) sub cfg inst)) (\<lambda>_ _. registry_ok) l (later t v)" for t
    using ok by (intro wp_seq [OF wp_resolve]) (auto intro: keeps_claim)
  ultimately show "wp (create_stream db sub cfg inst) (\<lambda>_ _. registry_ok) l v"
    using ok by (auto simp: create_stream_def wp_bind [of "redis_get k" for k] wp_bind [of "redis_setnx k x y" for k x y]
        wp_get wp_setnx)
qed
text \<open>The calls that change no claim, no identity and no metadata's subreddit.\<close>

lemma keeps_reads [keeps_rules]:
  "keeps registry_ok (redis_get k)" "keeps registry_ok (redis_hget k f)"
  "keeps registry_ok (redis_exists k)" "keeps registry_ok (redis_hgetall k)"
  "keeps registry_ok (redis_hgetalls ks)" "keeps registry_ok (redis_smembers k)"
  by (auto simp: keeps_def wp_rules)

lemma keeps_redis_do:
  "(\<And>v. registry_ok v \<Longrightarrow> registry_ok (with_rdb (redis_effect c) v)) \<Longrightarrow> keeps registry_ok (redis_do c)"
  by (auto simp: keeps_def wp_redis_do simp del: effect_simps)

lemma keeps_eval:
  "(\<And>v. registry_ok v \<Longrightarrow> registry_ok (with_rdb (redis_effect (Eval sc)) v)) \<Longrightarrow> keeps registry_ok (redis_eval sc)"
  by (auto simp: keeps_def wp_eval split: rreply.splits)

lemma keeps_other_writes [keeps_rules]:
  "kind_of k \<in> {Instance_Kind, All_Kind} \<Longrightarrow> keeps registry_ok (redis_do (Sadd k x))"
  "kind_of k \<in> {Instance_Kind, All_Kind} \<Longrightarrow> keeps registry_ok (redis_do (Srem k xs))"
  "kind_of k = Stop_Kind \<Longrightarrow> keeps registry_ok (redis_do (Set_Plain k y))"
  "kind_of k = Checkpoint_Kind \<Longrightarrow> keeps registry_ok (redis_do (Hset k d))"
  "kind_of k = Error_Kind \<Longrightarrow> keeps registry_ok (redis_do (Lpush k y))"
  "kind_of k = Error_Kind \<Longrightarrow> keeps registry_ok (redis_do (Ltrim k i j))"
  "kind_of k = Error_Kind \<Longrightarrow> keeps registry_ok (redis_do (Expire k e))"
  "kind_of k = Error_Kind \<Longrightarrow> keeps registry_ok (redis_do (Del [k]))"
  by (auto intro!: keeps_redis_do simp del: effect_simps)

lemma keeps_hset_meta [keeps_rules]:
  "map_of (rev d) ''subreddit'' = None \<Longrightarrow> keeps registry_ok (redis_do (Hset (meta_key i) d))"
  by (auto intro!: keeps_redis_do simp del: effect_simps)

lemma keeps_persist [keeps_rules]: "keeps registry_ok (persist db q)"
  by (auto simp: keeps_def wp_persist)

lemma keeps_registry_emit [keeps_rules]: "keeps registry_ok (emit m)"
  by (rule keeps_emit) simp

lemma keeps_registry_uuid [keeps_rules]: "keeps registry_ok uuid4"
  by (auto simp: keeps_def wp_uuid4)

subsection \<open>The scripts\<close>

lemma ids_touch_meta:
  "map_of h ''subreddit'' = map_of (hash_at s (meta_key i)) ''subreddit'' \<Longrightarrow>
   names_sub (put_key (meta_key i) (VHash h) s) = names_sub s"
  by (auto simp: hash_at_meta)

lemma ok_script_touch:
  assumes "registry_ok v"
  shows "registry_ok (with_rdb (redis_effect (Eval (Heartbeat_If_Active (meta_key i) (instance_key n) a u x))) v)"
    "registry_ok (with_rdb (redis_effect (Eval (Update_Status_If_Owner (meta_key i) a st u))) v)"
    "registry_ok (with_rdb (redis_effect (Eval (Finalize_Stop_If_Unowned (meta_key i) k a u))) v)"
  using assms
  by (auto simp: registry_ok_def redis_effect_def heartbeat_closed update_owner_closed finalize_closed
      Let_def ids_touch_meta update_conv' simp del: ids_put_key(3))

text \<open>Deleting a stream, with or without its identity.\<close>

lemma ok_script_delete:
  assumes ok: "registry_ok v" and sub: "names_sub (rdb v) i = Some sub"
  shows "registry_ok (with_rdb (redis_effect (Eval (Delete_Stream_If_Unchanged (meta_key i)
    (checkpoint_key i) (stop_request_key i) (subreddit_key sub) streams_all (identity_key sub)
    i st up purge))) v)" (is "registry_ok ?v'")
proof -
  let ?s = "rdb v" and ?s' = "rdb ?v'"
  have s: "sound ?s" and agree: "ids_agree (claim ?s) (ident ?s) (names_sub ?s) (uuids v)"
    using ok by (auto simp: registry_ok_def)
  have "sound ?s'" using s by (simp add: sound_script)
  moreover have "?s' = ?s \<or>
      claim ?s' = (if claim ?s sub = Some i then (claim ?s)(sub := None) else claim ?s) \<and>
      names_sub ?s' = (names_sub ?s)(i := None) \<and>
      ident ?s' \<in> {(ident ?s)(sub := Some i), (ident ?s)(sub := None)}"
    using s by (auto simp: redis_effect_def delete_stream_closed Let_def claim_def [symmetric])
  ultimately show ?thesis
    using agree_delete [OF agree sub] agree_purge [OF agree sub] agree
    by (auto simp: registry_ok_def)
qed

subsection \<open>The remaining methods\<close>

lemma keeps_get_stream [keeps_rules]: "keeps registry_ok (get_stream i)"
  unfolding get_stream_def by (intro keeps_rules)

lemma keeps_get_by_subreddit [keeps_rules]: "keeps registry_ok (get_stream_by_subreddit sub)"
  unfolding get_stream_by_subreddit_def by (intro keeps_rules)

lemma keeps_list [keeps_rules]: "keeps registry_ok list_streams"
  unfolding list_streams_def by (intro keeps_rules) simp_all

lemma keeps_update_status [keeps_rules]: "keeps registry_ok (update_status db i st inst)"
  unfolding update_status_def by (intro keeps_rules) (simp_all split: option.split)

lemma keeps_update_if_owner [keeps_rules]: "keeps registry_ok (update_status_if_owner db i st inst)"
  unfolding update_status_if_owner_def
  by (intro keeps_rules keeps_eval) (simp_all add: ok_script_touch)

lemma keeps_finalize [keeps_rules]: "keeps registry_ok (finalize_stop_if_unowned db i sub up)"
  unfolding finalize_stop_if_unowned_def
  by (intro keeps_rules keeps_eval) (simp_all add: ok_script_touch)

lemma keeps_heartbeat [keeps_rules]: "keeps registry_ok (heartbeat i inst)"
  unfolding heartbeat_def
  by (intro keeps_rules keeps_eval) (simp_all add: ok_script_touch)

lemma keeps_request_stop [keeps_rules]: "keeps registry_ok (request_stop db i)"
  unfolding request_stop_def by (intro keeps_rules) simp_all

lemma keeps_is_stop_requested [keeps_rules]: "keeps registry_ok (is_stop_requested i)"
  unfolding is_stop_requested_def by (intro keeps_rules)

lemma keeps_set_checkpoint [keeps_rules]: "keeps registry_ok (set_checkpoint i c p)"
  unfolding set_checkpoint_def by (intro keeps_rules) simp_all

lemma keeps_get_checkpoint [keeps_rules]: "keeps registry_ok (get_checkpoint i)"
  unfolding get_checkpoint_def by (intro keeps_rules)

lemma keeps_delete [keeps_rules]: "keeps registry_ok (delete_stream i st up purge)"
proof (rule keepsI)
  fix l :: 'a and v
  assume ok: "registry_ok v"
  have script: "wp (redis_eval (Delete_Stream_If_Unchanged (meta_key i) (checkpoint_key i)
      (stop_request_key i) (subreddit_key sub) streams_all (identity_key sub) i a b c))
      (\<lambda>_ _. registry_ok) l (later t v)" if "names_sub (rdb v) i = Some sub" for sub t a b c
    using that ok ok_script_delete [of "later t' (later t v)" i sub for t']
    by (auto simp: wp_eval registry_ok_def split: rreply.splits)
  show "wp (delete_stream i st up purge) (\<lambda>_ _. registry_ok) l v"
    using ok unfolding delete_stream_def Let_def
    by (auto simp: wp_bind [of "redis_hgetall k" for k] wp_hgetall hash_at_meta truthy_eq
        wp_andthen wp_basic wp_redis_do simp del: effect_simps intro!: wp_seq [OF script])
qed

end
