(* ===== verification/Frames.thy ===== *)
theory Frames
  imports Key_Space
begin

section \<open>Frames: the keys a program may write\<close>

text \<open>
  Which keys each command may write, and the frame rule: a program whose commands write
  only keys of \<open>K\<close> leaves every other key as it was, but for keys that expired meanwhile.
  Both are proved of the documented effect of the commands, the scripts included.
\<close>

subsection \<open>What a command may write\<close>

fun script_writes :: "script \<Rightarrow> string set" where
  "script_writes (Refresh_If_Owner k a e) = {k}"
| "script_writes (Delete_If_Owner k a) = {k}"
| "script_writes (Delete_Stream_If_Unchanged k1 k2 k3 k4 k5 k6 a1 a2 a3 a4) =
     {k1, k3, k4, k5, k6} \<union> (if a4 = ''1'' then {k2} else {})"
| "script_writes (Heartbeat_If_Active k1 k2 a1 a2 a3) = {k1, k2}"
| "script_writes (Update_Status_If_Owner k1 a1 a2 a3) = {k1}"
| "script_writes (Finalize_Stop_If_Unowned k1 k2 a1 a2) = {k1}"

fun writes :: "rcmd \<Rightarrow> string set" where
  "writes (Set_Plain k x) = {k}"
| "writes (Set_Nx k x ex) = {k}"
| "writes (Del ks) = set ks"
| "writes (Hset k m) = {k}"
| "writes (Sadd k x) = {k}"
| "writes (Srem k xs) = {k}"
| "writes (Expire k e) = {k}"
| "writes (Lpush k x) = {k}"
| "writes (Ltrim k a b) = {k}"
| "writes (Eval sc) = script_writes sc"
| "writes _ = {}"

text \<open>Only the keys of \<open>K\<close> differ, but for those that expired.\<close>

definition untouched :: "rdb \<Rightarrow> rdb \<Rightarrow> string \<Rightarrow> bool" where
  "untouched s s' k =
     (rkeys s' k = rkeys s k \<and> rttl s' k = rttl s k \<or>
      rkeys s' k = None \<and> rttl s' k = None \<and> (\<exists>d. rttl s k = Some d \<and> d \<le> rclock s'))"

definition framed :: "string set \<Rightarrow> rdb \<Rightarrow> rdb \<Rightarrow> bool" where
  "framed K s s' = (rclock s \<le> rclock s' \<and> (\<forall>k. k \<notin> K \<longrightarrow> untouched s s' k))"

lemma writes_finite: "finite (writes c)"
proof (cases c)
  case (Eval sc)
  then show ?thesis by (cases sc) auto
qed auto

text \<open>A property that the commands of a script keep is kept by the script.\<close>

definition lua_keeps :: "('s \<Rightarrow> bool) \<Rightarrow> ('s, 'a) lua \<Rightarrow> bool" where
  "lua_keeps P m = (\<forall>s. P s \<longrightarrow> P (snd (m s)))"

lemma lua_keeps_intros:
  "lua_keeps P (lua_ret x)"
  "lua_keeps P m \<Longrightarrow> (\<And>x. lua_keeps P (f x)) \<Longrightarrow> lua_keeps P (lua_bind m f)"
  "lua_keeps P m \<Longrightarrow> lua_keeps P m' \<Longrightarrow> lua_keeps P (if b then m else m')"
  by (auto simp: lua_keeps_def lua_ret_def lua_bind_def split: option.splits prod.splits)

lemma lua_keeps_expected:
  "lua_keeps P (call (Hget k f)) \<Longrightarrow> lua_keeps P (expected_differs call k f a)"
  by (simp add: expected_differs_def lua_keeps_intros)

definition agrees_at :: "string \<Rightarrow> rdb \<Rightarrow> rdb \<Rightarrow> bool" where
  "agrees_at k s s' = (rkeys s' k = rkeys s k \<and> rttl s' k = rttl s k \<and> rclock s' = rclock s)"

lemma prim_agrees: "k \<notin> writes c \<Longrightarrow> lua_keeps (agrees_at k s) (redis_prim c)"
  by (cases c) (auto simp: lua_keeps_def agrees_at_def)

lemma writes_only:
  assumes "k \<notin> writes c"
  shows "agrees_at k s (redis_effect c s)"
proof -
  have "lua_keeps (agrees_at k s) (redis_doc c)"
  proof (cases "\<exists>sc. c = Eval sc")
    case True
    then obtain sc where c: "c = Eval sc" ..
    have "lua_keeps (agrees_at k s) (eval_script redis_prim sc)"
      using assms unfolding c
      by (cases sc) (auto simp: refresh_if_owner_script_def delete_if_owner_script_def
          delete_stream_if_unchanged_script_def heartbeat_if_active_script_def
          update_status_if_owner_script_def finalize_stop_if_unowned_script_def
          intro!: lua_keeps_intros lua_keeps_expected prim_agrees split: if_splits)
    then show ?thesis by (simp add: c lua_keeps_def redis_doc.simps(1))
  next
    case False
    then have "redis_doc c = redis_prim c" by (cases c) (auto simp: fun_eq_iff)
    with prim_agrees [OF assms] show ?thesis by simp
  qed
  then show ?thesis by (simp add: lua_keeps_def redis_effect_def agrees_at_def)
qed

lemma effect_clock: "rclock (redis_effect c s) = rclock s"
proof -
  obtain k where "k \<notin> writes c"
    using infinite_UNIV_listI ex_new_if_finite [of "writes c"] writes_finite by blast
  from writes_only [OF this] show ?thesis by (simp add: agrees_at_def)
qed

subsection \<open>Frames of whole programs\<close>

lemma framed_refl: "framed K s s"
  by (simp add: framed_def untouched_def)

lemma untouched_at_time:
  "untouched s s' k \<Longrightarrow> rclock s' \<le> t \<Longrightarrow> untouched s (at_time t s') k"
  by (auto simp: untouched_def expired_def split: option.splits)

lemma framed_at_time: "framed K s s' \<Longrightarrow> rclock s' \<le> t \<Longrightarrow> framed K s (at_time t s')"
  by (auto simp: framed_def untouched_at_time)

lemma untouched_before: "untouched (at_time t s) s' k \<Longrightarrow> t \<le> rclock s' \<Longrightarrow> untouched s s' k"
  by (auto simp: untouched_def expired_def split: option.splits if_splits)

lemma framed_before: "framed K (at_time t s) s' \<Longrightarrow> rclock s \<le> t \<Longrightarrow> framed K s s'"
  by (auto simp: framed_def intro: untouched_before)

lemma framed_effect:
  assumes "framed K s s'" and "writes c \<subseteq> K"
  shows "framed K s (redis_effect c s')"
proof -
  have "agrees_at k s' (redis_effect c s')" if "k \<notin> K" for k
    using that assms(2) by (intro writes_only) auto
  moreover have "rclock (redis_effect c s') = rclock s'"
    by (rule effect_clock)
  ultimately show ?thesis
    using assms(1) by (auto simp: framed_def untouched_def agrees_at_def)
qed

text \<open>An invariant carried by a program that writes only keys of \<open>K\<close>.\<close>

definition frame :: "string set \<Rightarrow> rdb \<Rightarrow> view \<Rightarrow> bool" where
  "frame K s v = framed K s (rdb v)"

lemma frame_simps [simp]:
  "frame K s (v\<lparr>pgd := d\<rparr>) = frame K s v"
  "frame K s (v\<lparr>metrics := m\<rparr>) = frame K s v"
  "frame K s (issued u v) = frame K s v"
  "frame K s v \<Longrightarrow> rclock (rdb v) \<le> t \<Longrightarrow> frame K s (later t v)"
  "frame K s v \<Longrightarrow> writes c \<subseteq> K \<Longrightarrow> frame K s (with_rdb (redis_effect c) v)"
  by (simp_all add: frame_def framed_at_time framed_effect del: effect_simps effect_setnx)

lemma frame_refl [simp]: "frame K (rdb v) v"
  by (simp add: frame_def framed_refl)

lemma frame_setnx [simp]: "frame K s v \<Longrightarrow> k \<in> K \<Longrightarrow> frame K s (with_rdb (set_absent k x ex) v)"
  using frame_simps(5) [of K s v "Set_Nx k x ex"] by simp

lemma frame_keeps [keeps_rules]:
  "keeps (frame K s) (redis_get k)" "keeps (frame K s) (redis_hget k f)"
  "keeps (frame K s) (redis_exists k)" "keeps (frame K s) (redis_hgetall k)"
  "keeps (frame K s) (redis_hgetalls ks)" "keeps (frame K s) (redis_smembers k)"
  "keeps (frame K s) (emit m)" "keeps (frame K s) uuid4" "keeps (frame K s) (pg_transaction q)"
  "k \<in> K \<Longrightarrow> keeps (frame K s) (redis_setnx k x ex)"
  "writes c \<subseteq> K \<Longrightarrow> keeps (frame K s) (redis_do c)"
  "script_writes sc \<subseteq> K \<Longrightarrow> keeps (frame K s) (redis_eval sc)"
  by (auto simp: keeps_def wp_rules wp_eval split: rreply.splits simp del: effect_simps)

lemma frame_persist [keeps_rules]: "keeps (frame K s) (persist db q)"
  unfolding persist_def by (intro keeps_rules)

end
