(* ===== verification/Registry_Spec.thy ===== *)
theory Registry_Spec
  imports Registry_Inv Frames
begin

section \<open>What the registry's methods do\<close>

text \<open>
  The contract of each method of the registry: the keys it may write at most
  (\<open>frame\<close>), and, when it returns, how the claims, identities, metadata and the registry
  listing after it relate to those before. The statements hold for every documented
  behaviour of Redis; an exception may leave the changes of the calls before it.
\<close>

subsection \<open>Footprints of the registry's methods\<close>

definition create_keys :: "string \<Rightarrow> string set" where
  "create_keys sub = {identity_key sub, subreddit_key sub, streams_all} \<union> range meta_key \<union> range instance_key"

lemma frame_create: "keeps (frame (create_keys sub) s) (create_stream db sub cfg inst)"
  unfolding create_stream_def resolve_identity_def claim_stream_def write_stream_def
  by (intro keeps_rules) (auto simp: create_keys_def)

definition delete_keys :: "string \<Rightarrow> bool \<Rightarrow> string set" where
  "delete_keys i purge = {meta_key i, stop_request_key i, streams_all} \<union> range subreddit_key
     \<union> range identity_key \<union> range instance_key \<union> (if purge then {checkpoint_key i} else {})"

lemma frame_delete: "keeps (frame (delete_keys i purge) s) (delete_stream i st up purge)"
  unfolding delete_stream_def
  by (intro keeps_rules) (auto simp: delete_keys_def)

lemma frame_reads:
  "keeps (frame {} s) (get_stream i)" "keeps (frame {} s) (get_stream_by_subreddit sub)"
  "keeps (frame {} s) (is_stop_requested i)" "keeps (frame {} s) (get_checkpoint i)"
  "keeps (frame {streams_all} s) list_streams"
  unfolding get_stream_def get_stream_by_subreddit_def is_stop_requested_def get_checkpoint_def
    list_streams_def
  by (intro keeps_rules; simp)+

subsection \<open>What the methods do\<close>

definition listed :: "rdb \<Rightarrow> string set" where
  "listed s = set (set_at s streams_all)"

definition assigned :: "rdb \<Rightarrow> string \<Rightarrow> string set" where
  "assigned s n = set (set_at s (instance_key n))"

definition starting_row :: "string \<Rightarrow> string \<Rightarrow> dict \<Rightarrow> string option \<Rightarrow> dict \<Rightarrow> bool" where
  "starting_row i sub cfg inst meta = (\<exists>c u. meta = stream_meta i sub cfg inst c u)"

lemma starting_rowI [simp]: "starting_row i sub cfg inst (stream_meta i sub cfg inst c u)"
  by (auto simp: starting_row_def)

definition written :: "string \<Rightarrow> string \<Rightarrow> dict \<Rightarrow> string option \<Rightarrow> rdb \<Rightarrow> dict \<Rightarrow> rdb \<Rightarrow> bool" where
  "written i sub cfg inst s meta s' =
     (starting_row i sub cfg inst meta \<and> claim s' = claim s \<and> ident s' = ident s \<and>
      meta_field s' = (meta_field s)(i := meta_field s i ++ map_of meta) \<and>
      listed s' = insert i (listed s) \<and>
      (truthy inst \<longrightarrow> i \<in> assigned s' (or_empty inst)))"

lemma stream_meta_map: "map_of (rev (stream_meta i sub cfg inst c u)) = map_of (stream_meta i sub cfg inst c u)"
  by (rule map_of_eqI) (auto simp: stream_meta_def)

lemma update_with_meta [simp]:
  "map_of (dict_update (stream_meta i sub cfg inst c u) (hash_at s (meta_key j))) =
     meta_field s j ++ map_of (stream_meta i sub cfg inst c u)"
  by (auto simp: fun_eq_iff map_of_dict_update stream_meta_map hash_at_meta map_add_def split: option.split)

lemma stream_meta_not_nil [simp]: "stream_meta i sub cfg inst c u \<noteq> []"
  by (simp add: stream_meta_def)

lemma wp_write_stream:
  "sound (rdb v) \<Longrightarrow> wp (write_stream db i sub cfg inst)
     (\<lambda>r l' v'. \<forall>meta. r = Inr meta \<longrightarrow> sound (rdb v') \<and> written i sub cfg inst (rdb v) meta (rdb v')) l v"
  unfolding write_stream_def Let_def
  by (auto simp: wp_rules wp_persist written_def listed_def assigned_def)

definition resolved :: "string \<Rightarrow> view \<Rightarrow> string option \<Rightarrow> view \<Rightarrow> bool" where
  "resolved sub v x v' =
     (sound (rdb v') \<and> claim (rdb v') = claim (rdb v) \<and> meta_field (rdb v') = meta_field (rdb v) \<and>
      listed (rdb v') = listed (rdb v) \<and>
      (case ident (rdb v) sub of
         None \<Rightarrow> (\<exists>u. x = Some u \<and> u \<notin> set (uuids v) \<and> u \<noteq> [] \<and> ident (rdb v') = (ident (rdb v))(sub := Some u))
       | Some i \<Rightarrow> x = Some i \<and> ident (rdb v') = ident (rdb v)))"

lemma resolved_later [simp]: "sound (rdb v) \<Longrightarrow> resolved sub (later t v) = resolved sub v"
  by (intro ext) (simp add: resolved_def listed_def split: option.split)

lemma wp_resolve_identity:
  "sound (rdb v) \<Longrightarrow> wp (resolve_identity sub) (\<lambda>r l' v'. \<forall>x. r = Inr x \<longrightarrow> resolved sub v x v') l v"
  unfolding resolve_identity_def
  by (auto simp: wp_rules resolved_def set_absent_def ident_def [symmetric] listed_def text_kinds_def)

lemma wp_claim_stream:
  "sound (rdb v) \<Longrightarrow> wp (claim_stream db i sub cfg inst)
     (\<lambda>r l' v'. \<forall>meta. r = Inr meta \<longrightarrow> sound (rdb v') \<and> claim (rdb v) sub = None \<and>
        written i sub cfg inst (put_key (subreddit_key sub) (VStr i) (rdb v)) meta (rdb v')) l v"
  unfolding claim_stream_def
  by (auto simp: wp_rules claim_def [symmetric] set_absent_def text_kinds_def listed_def written_def
      intro!: wp_mono [OF wp_write_stream])

text \<open>The outcome of \<^verbatim>\<open>create_stream\<close> when it returns.\<close>

definition stream_id_of :: "dict \<Rightarrow> string" where
  "stream_id_of meta = or_empty (dict_get meta ''id'')"

lemma stream_id_of_meta [simp]: "stream_id_of (stream_meta i sub cfg inst c u) = i"
  by (simp add: stream_id_of_def stream_meta_def)

lemma starting_row_id [simp]: "starting_row i sub cfg inst meta \<Longrightarrow> stream_id_of meta = i"
  by (auto simp: starting_row_def)

definition created :: "string \<Rightarrow> dict \<Rightarrow> string option \<Rightarrow> view \<Rightarrow> dict \<Rightarrow> view \<Rightarrow> bool" where
  "created sub cfg inst v meta v' =
     (let i = stream_id_of meta in
        starting_row i sub cfg inst meta \<and> i \<noteq> [] \<and>
        claim (rdb v) sub = None \<and> claim (rdb v') = (claim (rdb v))(sub := Some i) \<and>
        (case ident (rdb v) sub of None \<Rightarrow> i \<notin> set (uuids v) | Some j \<Rightarrow> i = j) \<and>
        ident (rdb v') = (ident (rdb v))(sub := Some i) \<and>
        meta_field (rdb v') = (meta_field (rdb v))(i := meta_field (rdb v) i ++ map_of meta) \<and>
        listed (rdb v') = insert i (listed (rdb v)) \<and>
        (truthy inst \<longrightarrow> i \<in> assigned (rdb v') (or_empty inst)))"

lemma wp_create_stream:
  assumes s: "sound (rdb v)"
  shows "wp (create_stream db sub cfg inst)
    (\<lambda>r l' v'. \<forall>meta. r = Inr meta \<longrightarrow> sound (rdb v') \<and> created sub cfg inst v meta v') l v"
proof -
  have claimed: "wp (claim_stream db (or_empty x) sub cfg inst)
      (\<lambda>r l' v'. \<forall>meta. r = Inr meta \<longrightarrow> sound (rdb v') \<and> created sub cfg inst v meta v') l' v1"
    if "resolved sub v x v1" "truthy x" for x v1 and l' :: 'a
    using that s
    by (intro wp_mono [OF wp_claim_stream])
       (auto simp: resolved_def created_def written_def listed_def Let_def fun_upd_idem split: option.splits)
  show ?thesis
    using s unfolding create_stream_def
    by (auto simp: wp_bind [of "redis_get k" for k] wp_bind [of "redis_setnx k x y" for k x y]
        wp_get wp_setnx truthy_eq intro!: wp_seq [OF wp_resolve_identity] claimed)
qed

lemma or_empty_Some [simp]: "or_empty (Some x) = x"
  by simp

text \<open>When the subreddit is claimed, \<^verbatim>\<open>create_stream\<close> fails and at most backfills the identity.\<close>

lemma wp_create_claimed:
  assumes s: "sound (rdb v)" and c: "claim (rdb v) sub = Some x" "x \<noteq> []"
  shows "wp (create_stream db sub cfg inst)
    (\<lambda>r l' v'. (\<exists>e. r = Inl e) \<and>
       (ident (rdb v') = ident (rdb v) \<or>
        ident (rdb v) sub = None \<and> ident (rdb v') = (ident (rdb v))(sub := Some x)) \<and>
       frame {identity_key sub} (rdb v) v' \<and> sound (rdb v') \<and> pgd v' = pgd v) l v"
  using assms unfolding create_stream_def
  by (auto simp: wp_bind [of "redis_get k" for k] wp_bind [of "redis_setnx k x y" for k x y]
        wp_get wp_setnx claim_def ident_def text_kinds_def fun_upd_idem set_absent_def split: option.splits)

text \<open>What deleting a stream leaves behind.\<close>

definition removed :: "string \<Rightarrow> string \<Rightarrow> bool \<Rightarrow> rdb \<Rightarrow> rdb \<Rightarrow> bool" where
  "removed i sub purge s s' =
     (meta_field s' = (meta_field s)(i := (\<lambda>_. None)) \<and>
      \<not> live s' (stop_request_key i) \<and> listed s' = listed s - {i} \<and>
      claim s' = (if claim s sub = Some i then (claim s)(sub := None) else claim s) \<and>
      ident s' = (ident s)(sub := (if purge then None else Some i)))"

lemma removed_later [simp]: "sound s' \<Longrightarrow> removed i sub purge s s' \<Longrightarrow> removed i sub purge s (at_time t s')"
  by (auto simp: removed_def listed_def)

lemma removed_unassign [simp]:
  "removed i sub purge s s' \<Longrightarrow> removed i sub purge s (put_set (instance_key n) m s')"
  by (auto simp: removed_def listed_def)

lemma removed_before [simp]: "sound s \<Longrightarrow> removed i sub purge (at_time t s) = removed i sub purge s"
  by (intro ext) (simp add: removed_def listed_def)

lemma unchanged_later [simp]: "sound s \<Longrightarrow> unchanged (at_time t s) (meta_key i) st up = unchanged s (meta_key i) st up"
  by (simp add: unchanged_def)

definition delete_script :: "string \<Rightarrow> string \<Rightarrow> string \<Rightarrow> string \<Rightarrow> bool \<Rightarrow> script" where
  "delete_script i sub st up purge = Delete_Stream_If_Unchanged (meta_key i) (checkpoint_key i)
     (stop_request_key i) (subreddit_key sub) streams_all (identity_key sub) i st up
     (if purge then ''1'' else ''0'')"

lemma wp_eval_bool:
  assumes "\<And>t. fst (redis_doc (Eval sc) (at_time t (rdb v))) = Some (RInt (of_bool (b t)))"
  shows "wp (redis_eval sc) Q l v =
    (\<forall>t \<ge> rclock (rdb v).
       (\<forall>e. Q (Inl e) l (later t v) \<and> Q (Inl e) l (with_rdb (redis_effect (Eval sc)) (later t v)))
     \<and> Q (Inr (b t)) l (with_rdb (redis_effect (Eval sc)) (later t v)))"
  by (auto simp: wp_eval redis_answer_def assms)

definition deletable :: "rdb \<Rightarrow> string \<Rightarrow> string \<Rightarrow> string \<Rightarrow> bool" where
  "deletable s i st up = (live s (meta_key i) \<and> unchanged s (meta_key i) st up)"

lemma deletable_later [simp]: "sound s \<Longrightarrow> deletable (at_time t s) i st up = deletable s i st up"
  by (simp add: deletable_def)

lemma delete_script_answer:
  "sound s \<Longrightarrow> fst (redis_doc (Eval (delete_script i sub st up purge)) s) = Some (RInt (of_bool (deletable s i st up)))"
  by (auto simp: delete_script_def delete_stream_closed Let_def deletable_def)

lemma delete_script_effect:
  assumes "sound s"
  shows "deletable s i st up \<Longrightarrow> removed i sub purge s (redis_effect (Eval (delete_script i sub st up purge)) s)"
    and "\<not> deletable s i st up \<Longrightarrow> redis_effect (Eval (delete_script i sub st up purge)) s = s"
  using assms by (auto simp: delete_script_def redis_effect_def delete_stream_closed Let_def removed_def
      listed_def claim_def [symmetric] deletable_def)

lemma sound_delete_script: "sound s \<Longrightarrow> sound (redis_effect (Eval (delete_script i sub st up purge)) s)"
  by (rule sound_script) (simp_all add: delete_script_def)

lemma wp_delete_script:
  assumes s: "sound (rdb v)"
  shows "wp (redis_eval (delete_script i sub st up purge))
    (\<lambda>r l' v'. pgd v' = pgd v \<and> uuids v' = uuids v \<and> sound (rdb v') \<and>
      (\<forall>b. r = Inr b \<longrightarrow> b = deletable (rdb v) i st up \<and>
          (if b then removed i sub purge (rdb v) (rdb v') else frame {} (rdb v) v'))) l v"
  using s delete_script_effect [of "at_time t (rdb v)" i st up sub purge for t]
  by (subst wp_eval_bool [where b = "\<lambda>t. deletable (rdb v) i st up"])
     (auto simp: delete_script_answer sound_delete_script with_rdb_idem)

definition deleted_stream :: "string \<Rightarrow> string \<Rightarrow> string \<Rightarrow> bool \<Rightarrow> rdb \<Rightarrow> rdb \<Rightarrow> bool" where
  "deleted_stream i st up purge s s' =
     (\<exists>sub. names_sub s i = Some sub \<and> sub \<noteq> [] \<and> deletable s i st up \<and> removed i sub purge s s')"

definition delete_outcome :: "string \<Rightarrow> string option \<Rightarrow> string option \<Rightarrow> bool \<Rightarrow> view \<Rightarrow> pyexn + bool \<Rightarrow> view \<Rightarrow> bool" where
  "delete_outcome i st up purge v r v' =
     (\<forall>b. r = Inr b \<longrightarrow> pgd v' = pgd v \<and> sound (rdb v') \<and>
        (if b then deleted_stream i (or_empty st) (or_empty up) purge (rdb v) (rdb v')
         else frame {} (rdb v) v'))"

lemma delete_outcome_Inl [simp]: "delete_outcome i st up purge v (Inl e) v'"
  by (simp add: delete_outcome_def)

lemma delete_outcome_nothing:
  "sound (rdb v) \<Longrightarrow> rclock (rdb v) \<le> t \<Longrightarrow> delete_outcome i st up purge v (Inr False) (later t v)"
  by (simp add: delete_outcome_def)

lemma wp_delete_stream:
  assumes s: "sound (rdb v)"
  shows "wp (delete_stream i st up purge) (\<lambda>r l'. delete_outcome i st up purge v r) l v"
proof -
  have tail: "wp (andthen (if b \<and> c then redis_do (Srem (instance_key n) [i]) else skip) (Ret b))
    (\<lambda>r l'. delete_outcome i st up purge v r) l v1"
    if "pgd v1 = pgd v" "sound (rdb v1)" "truthy (names_sub (rdb v) i)"
      "b = deletable (rdb v) i (or_empty st) (or_empty up)"
      "if b then removed i (or_empty (names_sub (rdb v) i)) purge (rdb v) (rdb v1) else frame {} (rdb v) v1"
    for b c n v1 and l :: 'a
    using that
    by (auto simp: wp_andthen wp_basic wp_redis_do delete_outcome_def deleted_stream_def truthy_def
        split: option.splits)
  have script: "wp (redis_eval (delete_script i sub a b purge))
    (\<lambda>r l' v'. pgd v' = pgd v \<and> uuids v' = uuids v \<and> sound (rdb v') \<and>
      (\<forall>d. r = Inr d \<longrightarrow> d = deletable (rdb v) i a b \<and>
          (if d then removed i sub purge (rdb v) (rdb v') else frame {} (rdb v) v'))) l (later t v)"
    if "rclock (rdb v) \<le> t" for sub a b t and l :: 'a
    using s that
    by (intro wp_mono [OF wp_delete_script]) (auto simp: frame_def dest: framed_before split: if_splits)
  show ?thesis
    using s unfolding delete_stream_def Let_def delete_script_def [symmetric]
    by (simp add: wp_bind [of "redis_hgetall k" for k] wp_hgetall hash_at_meta)
       (intro conjI allI impI; (blast intro: delete_outcome_nothing |
          rule wp_seq [OF script], assumption, simp, rule tail, simp_all))
qed

subsection \<open>Guarded updates\<close>

definition meta_owner :: "rdb \<Rightarrow> string \<Rightarrow> string option" where
  "meta_owner s i = meta_field s i ''instance_id''"

definition meta_status :: "rdb \<Rightarrow> string \<Rightarrow> string option" where
  "meta_status s i = meta_field s i ''status''"

lemma meta_later [simp]:
  "sound s \<Longrightarrow> meta_owner (at_time t s) = meta_owner s" "sound s \<Longrightarrow> meta_status (at_time t s) = meta_status s"
  by (auto simp: meta_owner_def meta_status_def fun_eq_iff)

lemma heartbeat_answer:
  "sound s \<Longrightarrow> fst (redis_doc (Eval (Heartbeat_If_Active (meta_key i) (instance_key n) n u i)) s) =
     Some (RInt (of_bool (meta_owner s i = Some n \<and> meta_status s i = Some ''active'')))"
  by (simp add: heartbeat_closed Let_def meta_owner_def meta_status_def meta_field_def)

lemma update_owner_answer:
  "sound s \<Longrightarrow> fst (redis_doc (Eval (Update_Status_If_Owner (meta_key i) n st u)) s) =
     Some (RInt (of_bool (meta_owner s i = Some n)))"
  by (simp add: update_owner_closed meta_owner_def meta_field_def)

lemma finalize_answer:
  "sound s \<Longrightarrow> fst (redis_doc (Eval (Finalize_Stop_If_Unowned (meta_key i) (lock_key sub) a u)) s) =
     Some (RInt (of_bool (meta_status s i = Some ''stopping'' \<and> meta_field s i ''updated_at'' = Some a \<and>
       \<not> live s (lock_key sub))))"
  by (simp add: finalize_closed meta_status_def meta_field_def)

text \<open>The metadata after a guarded update: only status and update time change.\<close>

definition restamped :: "string \<Rightarrow> string option \<Rightarrow> rdb \<Rightarrow> rdb \<Rightarrow> bool" where
  "restamped i st s s' =
     (\<exists>u. meta_field s' = (meta_field s)(i := (meta_field s i)(''updated_at'' \<mapsto> u) ++
            (case st of None \<Rightarrow> (\<lambda>_. None) | Some x \<Rightarrow> [''status'' \<mapsto> x])))"

lemma heartbeat_effect:
  assumes s: "sound s"
  shows "meta_owner s i = Some n \<and> meta_status s i = Some ''active'' \<Longrightarrow>
      restamped i None s (redis_effect (Eval (Heartbeat_If_Active (meta_key i) (instance_key n) n u i)) s) \<and>
      assigned (redis_effect (Eval (Heartbeat_If_Active (meta_key i) (instance_key n) n u i)) s) n = insert i (assigned s n)"
    and "\<not> (meta_owner s i = Some n \<and> meta_status s i = Some ''active'') \<Longrightarrow>
      redis_effect (Eval (Heartbeat_If_Active (meta_key i) (instance_key n) n u i)) s = s"
  using s
  by (auto simp: redis_effect_def heartbeat_closed Let_def meta_owner_def meta_status_def
      meta_field_def [of s, symmetric] restamped_def assigned_def update_conv' hash_at_meta intro!: exI [of _ u])

lemma update_owner_effect:
  assumes s: "sound s"
  shows "meta_owner s i = Some n \<Longrightarrow>
      restamped i (Some st) s (redis_effect (Eval (Update_Status_If_Owner (meta_key i) n st u)) s)"
    and "meta_owner s i \<noteq> Some n \<Longrightarrow> redis_effect (Eval (Update_Status_If_Owner (meta_key i) n st u)) s = s"
  using s
  by (auto simp: redis_effect_def update_owner_closed meta_owner_def meta_field_def [of s, symmetric]
      restamped_def update_conv' hash_at_meta fun_eq_iff intro!: exI [of _ u])

lemma finalize_effect:
  assumes s: "sound s"
  shows "meta_status s i = Some ''stopping'' \<and> meta_field s i ''updated_at'' = Some a \<and> \<not> live s (lock_key sub) \<Longrightarrow>
      restamped i (Some ''stopped'') s (redis_effect (Eval (Finalize_Stop_If_Unowned (meta_key i) (lock_key sub) a u)) s)"
    and "\<not> (meta_status s i = Some ''stopping'' \<and> meta_field s i ''updated_at'' = Some a \<and> \<not> live s (lock_key sub)) \<Longrightarrow>
      redis_effect (Eval (Finalize_Stop_If_Unowned (meta_key i) (lock_key sub) a u)) s = s"
  using s
  by (auto simp: redis_effect_def finalize_closed meta_status_def meta_field_def [of s, symmetric]
      restamped_def update_conv' hash_at_meta fun_eq_iff intro!: exI [of _ u])

text \<open>A method that sends one guarded script: it says whether the guard held, and changes
  something only then.\<close>

definition guarded :: "bool \<Rightarrow> (rdb \<Rightarrow> rdb \<Rightarrow> bool) \<Rightarrow> view \<Rightarrow> pyexn + bool \<Rightarrow> view \<Rightarrow> bool" where
  "guarded g change v r v' =
     (sound (rdb v') \<and>
      (case r of Inr b \<Rightarrow> b = g \<and> (if g then change (rdb v) (rdb v') else frame {} (rdb v) v')
       | Inl e \<Rightarrow> \<not> g \<longrightarrow> frame {} (rdb v) v'))"

lemma restamped_later [simp]:
  "sound s \<Longrightarrow> restamped i st (at_time t s) = restamped i st s"
  "sound s' \<Longrightarrow> restamped i st s (at_time t s') = restamped i st s s'"
  by (auto simp: restamped_def fun_eq_iff)

lemma assigned_later [simp]: "sound s \<Longrightarrow> assigned (at_time t s) = assigned s"
  by (simp add: assigned_def fun_eq_iff)

lemma wp_heartbeat:
  "sound (rdb v) \<Longrightarrow> wp (heartbeat i n)
     (\<lambda>r l'. guarded (meta_owner (rdb v) i = Some n \<and> meta_status (rdb v) i = Some ''active'')
        (\<lambda>s s'. restamped i None s s' \<and> assigned s' n = insert i (assigned s n)) v r) l v"
  using heartbeat_effect [of "at_time t (rdb v)" i n u for t u]
  unfolding heartbeat_def
  by (auto simp: wp_bind wp_now_iso guarded_def heartbeat_answer sound_script with_rdb_idem
      wp_eval_bool [where b = "\<lambda>t. meta_owner (rdb v) i = Some n \<and> meta_status (rdb v) i = Some ''active''"])

lemma wp_update_status_if_owner:
  "sound (rdb v) \<Longrightarrow> wp (update_status_if_owner db i st n)
     (\<lambda>r l'. guarded (meta_owner (rdb v) i = Some n) (restamped i (Some st)) v r) l v"
  using update_owner_effect [of "at_time t (rdb v)" i n st u for t u]
  unfolding update_status_if_owner_def
  by (auto simp: wp_bind wp_now_iso guarded_def update_owner_answer sound_script with_rdb_idem
      wp_andthen wp_persist wp_basic wp_eval_bool [where b = "\<lambda>t. meta_owner (rdb v) i = Some n"])

text \<open>The lock key may expire between the guard's first reading and the script.\<close>

definition finalizable :: "rdb \<Rightarrow> string \<Rightarrow> string \<Rightarrow> string \<Rightarrow> bool" where
  "finalizable s i sub a = (meta_status s i = Some ''stopping'' \<and> meta_field s i ''updated_at'' = Some a \<and>
     \<not> live s (lock_key sub))"

lemma wp_finalize:
  "sound (rdb v) \<Longrightarrow> wp (finalize_stop_if_unowned db i sub a)
     (\<lambda>r l' v'. sound (rdb v') \<and> (\<forall>b. r = Inr b \<longrightarrow> (\<exists>t \<ge> rclock (rdb v).
         b = finalizable (at_time t (rdb v)) i sub a \<and>
         (if b then restamped i (Some ''stopped'') (rdb v) (rdb v') else frame {} (rdb v) v')))) l v"
  using finalize_effect [of "at_time t (rdb v)" i a sub u for t u]
  unfolding finalize_stop_if_unowned_def
  by (fastforce simp: wp_bind wp_now_iso finalizable_def finalize_answer sound_script with_rdb_idem
      wp_andthen wp_persist wp_basic wp_eval_bool [where b = "\<lambda>t. finalizable (at_time t (rdb v)) i sub a"])

subsection \<open>Unguarded status updates and stop requests\<close>

definition status_written :: "string \<Rightarrow> string \<Rightarrow> string option \<Rightarrow> rdb \<Rightarrow> rdb \<Rightarrow> bool" where
  "status_written i st n s s' =
     ((\<exists>u. meta_field s' = (meta_field s)(i := (meta_field s i)(''status'' \<mapsto> st, ''updated_at'' \<mapsto> u) ++
            (case n of None \<Rightarrow> (\<lambda>_. None) | Some x \<Rightarrow> [''instance_id'' \<mapsto> x]))) \<and>
      (\<forall>x. n = Some x \<longrightarrow> i \<in> assigned s' x \<and>
         (\<forall>y. meta_owner s i = Some y \<longrightarrow> y \<noteq> [] \<longrightarrow> y \<noteq> x \<longrightarrow> i \<notin> assigned s' y)))"

lemma or_empty_differs: "truthy x \<Longrightarrow> x \<noteq> Some a \<Longrightarrow> or_empty x \<noteq> a \<and> a \<noteq> or_empty x"
  by (cases x) auto

lemma wp_update_status:
  "sound (rdb v) \<Longrightarrow> wp (update_status db i st n)
     (\<lambda>r l' v'. sound (rdb v') \<and> (r = Inr () \<longrightarrow> status_written i st n (rdb v) (rdb v'))) l v"
  unfolding update_status_def
  by (cases n) (auto simp: wp_rules wp_persist meta_owner_def meta_field_def [symmetric] status_written_def
      assigned_def update_conv' hash_at_meta or_empty_differs)

definition stop_asked :: "rdb \<Rightarrow> string \<Rightarrow> bool" where
  "stop_asked s i = live s (stop_request_key i)"

definition no_row :: "rdb \<Rightarrow> string \<Rightarrow> bool" where
  "no_row s i = (meta_field s i = (\<lambda>_. None))"

lemma no_row_hash: "no_row s i \<longleftrightarrow> map_of (hash_at s (meta_key i)) = (\<lambda>_. None)"
  by (simp add: no_row_def hash_at_meta)

lemma no_row_reply: "map_of d = map_of (hash_at s (meta_key i)) \<Longrightarrow> d = [] \<longleftrightarrow> no_row s i"
  by (auto simp: no_row_hash dest: sym)

lemma no_row_later [simp]: "sound s \<Longrightarrow> no_row (at_time t s) = no_row s"
  by (simp add: no_row_def fun_eq_iff)

lemma wp_get_stream:
  "sound (rdb v) \<Longrightarrow> wp (get_stream i)
     (\<lambda>r l' v'. passed (rdb v) (rdb v') \<and> sound (rdb v') \<and> pgd v' = pgd v \<and>
        (\<forall>d. r = Inr d \<longrightarrow> \<not> no_row (rdb v) i \<and> map_of (sd_fields d) = meta_field (rdb v) i)) l v"
  unfolding get_stream_def
  by (auto simp: wp_rules hash_at_meta no_row_def decode_row_def)

lemma status_written_stop [simp]:
  "status_written i st n (put_key (stop_request_key j) x s) s' = status_written i st n s s'"
  "status_written i st n (set_ttl k None s) s' = status_written i st n s s'"
  by (auto simp: status_written_def meta_owner_def)

lemma status_written_later [simp]:
  "sound s \<Longrightarrow> status_written i st n (at_time t s) s' = status_written i st n s s'"
  by (auto simp: status_written_def)

lemma stop_asked_set [simp]: "stop_asked (set_ttl k d (put_key (stop_request_key i) x s)) i"
  by (simp add: stop_asked_def)

lemma frame_update_status: "keeps (frame (insert (meta_key i) (range instance_key)) s) (update_status db i st n)"
  unfolding update_status_def by (intro keeps_rules) (auto split: option.split)

lemma stop_asked_frame:
  "sound s \<Longrightarrow> frame K s v \<Longrightarrow> stop_request_key i \<notin> K \<Longrightarrow> stop_asked (rdb v) i = stop_asked s i"
  by (auto simp: frame_def framed_def stop_asked_def live_def untouched_def)

lemma wp_request_stop:
  assumes s: "sound (rdb v)"
  shows "wp (request_stop db i)
     (\<lambda>r l' v'. r = Inr () \<longrightarrow> \<not> no_row (rdb v) i \<and> stop_asked (rdb v') i \<and>
        status_written i ''stopping'' (or_none (meta_owner (rdb v) i)) (rdb v) (rdb v')) l v"
proof -
  have upd: "wp (update_status db i st n)
     (\<lambda>r l' v'. r = Inr () \<longrightarrow> stop_asked (rdb v') i \<and> status_written i st n (rdb v1) (rdb v')) l v1"
    if "sound (rdb v1)" "stop_asked (rdb v1) i" for st n v1 and l :: 'a
    using that
    by (intro wp_mono [OF keeps_wp [OF frame_update_status frame_refl wp_update_status]])
      (auto simp: stop_asked_frame [of "rdb v1"])
  show ?thesis
    using s unfolding request_stop_def
    by (auto simp: wp_bind [of "now_iso"] wp_now_iso wp_andthen wp_redis_do text_kinds_def
        meta_owner_def passed_def intro!: wp_seq [OF wp_get_stream] wp_mono [OF upd])
qed

subsection \<open>Listing\<close>

lemma split_rows_spec:
  "length rows = length is \<Longrightarrow>
   fst (split_rows is rows) = map decode_row (filter (\<lambda>d. d \<noteq> []) rows) \<and>
   set (snd (split_rows is rows)) = {i. \<exists>d. (i, d) \<in> set (zip is rows) \<and> d = []}"
proof (induction "is" rows rule: split_rows.induct)
  case (1 i "is" data rows)
  then show ?case by (auto split: prod.splits)
qed auto

text \<open>The rows of the streams listed, in the order of the identifiers.\<close>

definition listing :: "rdb \<Rightarrow> stream_data list \<Rightarrow> rdb \<Rightarrow> bool" where
  "listing s rows s' =
     ((\<exists>ids. distinct ids \<and> set ids = listed s \<and>
         map (\<lambda>r. map_of (sd_fields r)) rows = map (meta_field s) (filter (\<lambda>i. \<not> no_row s i) ids)) \<and>
      listed s' = {i \<in> listed s. \<not> no_row s i})"

lemma rows_decoded:
  "list_all2 (\<lambda>d e. map_of d = map_of e) rows (map (\<lambda>i. hash_at s (meta_key i)) ids) \<Longrightarrow>
   map (\<lambda>r. map_of (sd_fields r)) (map decode_row (filter (\<lambda>d. d \<noteq> []) rows)) =
   map (meta_field s) (filter (\<lambda>i. \<not> no_row s i) ids)"
proof (induction ids arbitrary: rows)
  case (Cons i ids)
  then obtain d rows' where "rows = d # rows'" "map_of d = map_of (hash_at s (meta_key i))"
    "list_all2 (\<lambda>d e. map_of d = map_of e) rows' (map (\<lambda>i. hash_at s (meta_key i)) ids)"
    by (auto simp: list_all2_Cons2)
  with Cons.IH [of rows'] no_row_reply [of d s i] show ?case
    by (simp add: decode_row_def hash_at_meta)
qed simp

lemma stale_rows:
  "list_all2 (\<lambda>d e. map_of d = map_of e) rows (map (\<lambda>i. hash_at s (meta_key i)) ids) \<Longrightarrow>
   {i. \<exists>d. (i, d) \<in> set (zip ids rows) \<and> d = []} = {i \<in> set ids. no_row s i}"
proof (induction ids arbitrary: rows)
  case (Cons i ids)
  then obtain d rows' where "rows = d # rows'" "map_of d = map_of (hash_at s (meta_key i))"
    "list_all2 (\<lambda>d e. map_of d = map_of e) rows' (map (\<lambda>i. hash_at s (meta_key i)) ids)"
    by (auto simp: list_all2_Cons2)
  with Cons.IH [of rows'] no_row_reply [of d s i] show ?case by auto
qed simp

lemma listed_later [simp]: "sound s \<Longrightarrow> listed (at_time t s) = listed s"
  by (simp add: listed_def)

lemma listing_later [simp]: "sound s' \<Longrightarrow> listing s rows (at_time t s') = listing s rows s'"
  by (simp add: listing_def)

lemma wp_prune:
  "sound (rdb v) \<Longrightarrow> wp (andthen (redis_do (Srem streams_all st)) (Ret res))
     (\<lambda>r l' v'. \<forall>rows. r = Inr rows \<longrightarrow> rows = res \<and> sound (rdb v') \<and> pgd v' = pgd v \<and>
        listed (rdb v') = listed (rdb v) - set st) l v"
  by (auto simp: wp_rules listed_def)

lemma wp_list_streams:
  assumes s: "sound (rdb v)"
  shows "wp list_streams
     (\<lambda>r l' v'. \<forall>rows. r = Inr rows \<longrightarrow> sound (rdb v') \<and> pgd v' = pgd v \<and> listing (rdb v) rows (rdb v')) l v"
proof -
  have rows: "listing (rdb v) (fst (split_rows ids rows)) s'"
    if "set ids = listed (rdb v)" "distinct ids"
      "list_all2 (\<lambda>d e. map_of d = map_of e) rows (map (\<lambda>i. hash_at (rdb v) (meta_key i)) ids)"
      "listed s' = listed (rdb v) - set (snd (split_rows ids rows))" for ids rows s'
  proof -
    have "length rows = length ids"
      using list_all2_lengthD [OF that(3)] by simp
    from split_rows_spec [OF this] show ?thesis
      using that rows_decoded [OF that(3)] stale_rows [OF that(3)]
      unfolding listing_def by (auto intro!: exI [of _ ids])
  qed
  have empty: "listing (rdb v) [] (rdb v)" if "listed (rdb v) = {}"
    using that by (auto simp: listing_def)
  show ?thesis
    using s unfolding list_streams_def
    by (auto simp: wp_bind wp_smembers wp_hgetalls comp_def listed_def [symmetric] case_prod_unfold Let_def
        intro!: wp_mono [OF wp_prune] rows empty dest: list_all2_lengthD)
qed
end
