(* ===== verification/Registry_Race.thy ===== *)
theory Registry_Race
  imports Election Registry_Spec
begin

section \<open>Creating streams concurrently\<close>

text \<open>
  The registry's methods as candidates of an election: \<^verbatim>\<open>create_stream\<close> returns only after
  a successful \<^verbatim>\<open>SET stream:subreddit:... NX\<close>, so of any number of creators of one subreddit,
  in however many processes and however their calls interleave, at most one returns.
\<close>

subsection \<open>Every method sends only commands the key space allows\<close>

lemma registry_calls [keeps_rules]:
  "issues service_call (create_stream db sub cfg inst)"
  "issues service_call (get_stream i)" "issues service_call (get_stream_by_subreddit sub)"
  "issues service_call list_streams" "issues service_call (update_status db i st inst)"
  "issues service_call (update_status_if_owner db i st own)"
  "issues service_call (finalize_stop_if_unowned db i sub up)"
  "issues service_call (heartbeat i own)" "issues service_call (request_stop db i)"
  "issues service_call (is_stop_requested i)" "issues service_call (delete_stream i est eup purge)"
  "issues service_call (set_checkpoint i c p)" "issues service_call (get_checkpoint i)"
  unfolding registry_defs
  by (intro keeps_rules; simp add: text_kinds_def)+

subsection \<open>Candidates\<close>

lemma needs_win_bind: "needs_win k p \<Longrightarrow> needs_win k (bind p f)"
  by (induction p) auto

lemma needs_win_after: "(\<And>x. needs_win k (f x)) \<Longrightarrow> needs_win k (bind p f)"
  by (induction p) auto

lemma needs_win_setnx:
  "needs_win k (f False) \<Longrightarrow> needs_win k (bind (redis_setnx k x ex) f)"
  by (auto simp: redis_setnx_def redis_def as_ok_def split: sum.split reply.split rreply.split)

lemma needs_win_create: "needs_win (subreddit_key sub) (create_stream db sub cfg inst)"
  unfolding create_stream_def claim_stream_def
  by (intro needs_win_after) (auto intro!: needs_win_after needs_win_setnx)

lemma candidates_create: "issues (candidate_call (subreddit_key sub)) (create_stream db sub cfg inst)"
  unfolding registry_defs
  by (intro keeps_rules; simp add: text_kinds_def)

end
