(* ===== verification/Checkpoints.thy ===== *)
theory Checkpoints
  imports Registry_Spec
begin

section \<open>Checkpoints\<close>

text \<open>
  A stream's checkpoint is a small map that writers merge fields into and readers read
  whole. The interface \<open>field_store\<close> states what the worker and the flusher rely on; it
  is interpreted on the checkpoint hashes of Redis.
\<close>

subsection \<open>The interface of a store of fields\<close>

locale field_store =
  fixes ok :: "'s \<Rightarrow> bool" and get :: "'s \<Rightarrow> 'i \<Rightarrow> 'f \<Rightarrow> 'v option"
    and put :: "'i \<Rightarrow> ('f \<times> 'v) list \<Rightarrow> 's \<Rightarrow> 's"
  assumes put_ok: "ok s \<Longrightarrow> ok (put i d s)"
    and get_put: "ok s \<Longrightarrow> get (put i d s) i = get s i ++ map_of (rev d)"
    and get_put_other: "ok s \<Longrightarrow> j \<noteq> i \<Longrightarrow> get (put i d s) j = get s j"
begin

fun puts :: "('i \<times> ('f \<times> 'v) list) list \<Rightarrow> 's \<Rightarrow> 's" where
  "puts [] s = s"
| "puts ((i, d) # ws) s = puts ws (put i d s)"

text \<open>The last value written to a field, if any was.\<close>

fun last_written :: "('i \<times> ('f \<times> 'v) list) list \<Rightarrow> 'i \<Rightarrow> 'f \<Rightarrow> 'v option" where
  "last_written [] i f = None"
| "last_written ((j, d) # ws) i f =
     (case last_written ws i f of Some x \<Rightarrow> Some x | None \<Rightarrow> if j = i then map_of (rev d) f else None)"

lemma get_puts:
  "ok s \<Longrightarrow> get (puts ws s) i f =
     (case last_written ws i f of Some x \<Rightarrow> Some x | None \<Rightarrow> get s i f)"
proof (induction ws arbitrary: s)
  case (Cons w ws)
  obtain j d where w: "w = (j, d)" by (cases w)
  have "get (put j d s) i f = (case (if j = i then map_of (rev d) f else None) of Some x \<Rightarrow> Some x | None \<Rightarrow> get s i f)"
    using Cons.prems by (auto simp: get_put get_put_other map_add_def split: option.split)
  with Cons show ?case
    by (auto simp: w put_ok split: option.split)
qed simp

lemma puts_ok: "ok s \<Longrightarrow> ok (puts ws s)"
  by (induction ws arbitrary: s) (auto simp: put_ok)

end

subsection \<open>Checkpoint hashes\<close>

definition checkpoint_fields :: "rdb \<Rightarrow> string \<Rightarrow> string \<Rightarrow> string option" where
  "checkpoint_fields s i = hash_field s (checkpoint_key i)"

text \<open>The fields one call writes.\<close>

definition checkpoint_update :: "string option \<Rightarrow> string option \<Rightarrow> string \<Rightarrow> dict" where
  "checkpoint_update c p now =
     (case c of None \<Rightarrow> [] | Some x \<Rightarrow> [(''last_comment_id'', x)]) @
     (case p of None \<Rightarrow> [] | Some x \<Rightarrow> [(''last_processed_at'', x)]) @ [(''updated_at'', now)]"

definition merge_checkpoint :: "string \<Rightarrow> dict \<Rightarrow> rdb \<Rightarrow> rdb" where
  "merge_checkpoint i d s = redis_effect (Hset (checkpoint_key i) d) s"

lemma checkpoint_fields_put [simp]:
  "checkpoint_fields (put_key (checkpoint_key i) (VHash h) s) = (checkpoint_fields s)(i := map_of h)"
  by (auto simp: checkpoint_fields_def fun_eq_iff)

lemma checkpoint_fields_hash: "map_of (hash_at s (checkpoint_key i)) = checkpoint_fields s i"
  by (simp add: checkpoint_fields_def hash_field_def fun_eq_iff)

lemma checkpoint_later [simp]: "sound s \<Longrightarrow> checkpoint_fields (at_time t s) = checkpoint_fields s"
  by (simp add: checkpoint_fields_def fun_eq_iff)

definition checkpoint_merged :: "string \<Rightarrow> string option \<Rightarrow> string option \<Rightarrow> rdb \<Rightarrow> rdb \<Rightarrow> bool" where
  "checkpoint_merged i c p s s' =
     (if c = None \<and> p = None then checkpoint_fields s' = checkpoint_fields s
      else (\<exists>now. checkpoint_fields s' =
        (checkpoint_fields s)(i := checkpoint_fields s i ++ map_of (rev (checkpoint_update c p now)))))"

lemma wp_set_checkpoint:
  "sound (rdb v) \<Longrightarrow> wp (set_checkpoint i c p)
     (\<lambda>r l' v'. sound (rdb v') \<and> pgd v' = pgd v \<and>
       (r = Inr () \<longrightarrow> checkpoint_merged i c p (rdb v) (rdb v'))) l v"
  unfolding set_checkpoint_def
  by (cases c; cases p)
     (auto simp: wp_rules checkpoint_merged_def checkpoint_update_def update_conv' checkpoint_fields_hash
        map_add_upd_left Let_def)

lemma frame_set_checkpoint: "keeps (frame {checkpoint_key i} s) (set_checkpoint i c p)"
  unfolding set_checkpoint_def by (intro keeps_rules) auto

definition read_checkpoint :: "(string \<Rightarrow> string option) \<Rightarrow> checkpoint" where
  "read_checkpoint m = \<lparr>last_comment_id = m ''last_comment_id'',
     last_processed_at = m ''last_processed_at'', checkpoint_updated_at = m ''updated_at''\<rparr>"

lemma wp_get_checkpoint:
  "sound (rdb v) \<Longrightarrow> wp (get_checkpoint i)
     (\<lambda>r l' v'. sound (rdb v') \<and> pgd v' = pgd v \<and> passed (rdb v) (rdb v') \<and>
       (\<forall>c. r = Inr c \<longrightarrow> c = read_checkpoint (checkpoint_fields (rdb v) i))) l v"
  unfolding get_checkpoint_def
  by (auto simp: wp_rules checkpoint_fields_hash read_checkpoint_def)

interpretation redis_checkpoints: field_store sound checkpoint_fields merge_checkpoint
proof
  fix s i j and d :: dict
  assume s: "sound s"
  then show "sound (merge_checkpoint i d s)"
    by (auto simp: merge_checkpoint_def simp del: effect_simps intro!: sound_effect)
  show "checkpoint_fields (merge_checkpoint i d s) i = checkpoint_fields s i ++ map_of (rev d)"
    using s by (auto simp: merge_checkpoint_def fun_eq_iff map_of_dict_update checkpoint_fields_hash
        map_add_def split: option.split)
  show "j \<noteq> i \<Longrightarrow> checkpoint_fields (merge_checkpoint i d s) j = checkpoint_fields s j"
    by (simp add: merge_checkpoint_def)
qed

end
