(* ===== verification/Ref_Runs.thy ===== *)
theory Ref_Runs
  imports Frames Interleaving
begin

section \<open>Executing a program on the reference services\<close>

text \<open>
  Rewrite rules (\<open>ref_run\<close>) that execute a program on the in-memory services of theory
  Services step by step, keeping keys and written values symbolic. The witnesses of the
  properties use them to show that a run they speak of takes place.
\<close>

named_theorems ref_run \<open>symbolic execution of a program on the reference services\<close>

definition unexpired :: "rdb \<Rightarrow> bool" where
  "unexpired s = (\<forall>k. \<not> expired (rclock s) s k)"

lemma at_own_time [ref_run]: "unexpired s \<Longrightarrow> at_time (rclock s) s = s"
  by (simp add: unexpired_def at_time_def)

lemma rclock_writes [ref_run]:
  "rclock (put_key k x s) = rclock s" "rclock (set_ttl k d s) = rclock s"
  "rclock (del_key k s) = rclock s" "rclock (put_set k m s) = rclock s"
  "rclock (put_list k xs s) = rclock s"
  by (simp_all add: put_key_def set_ttl_def del_key_def put_set_def put_list_def)

lemma unexpired_writes [ref_run]:
  "unexpired s \<Longrightarrow> unexpired (put_key k x s)"
  "unexpired s \<Longrightarrow> unexpired (set_ttl k None s)"
  "unexpired s \<Longrightarrow> rclock s < d \<Longrightarrow> unexpired (set_ttl k (Some d) s)"
  "unexpired s \<Longrightarrow> unexpired (del_key k s)"
  "unexpired s \<Longrightarrow> unexpired (put_set k m s)"
  "unexpired s \<Longrightarrow> unexpired (put_list k xs s)"
  by (auto simp: unexpired_def expired_def rclock_writes split: option.splits)
    (auto simp: put_key_def set_ttl_def del_key_def put_set_def put_list_def split: if_splits)

lemma empty_view_sel [ref_run]:
  "unexpired (rdb empty_view)" "rclock (rdb empty_view) = 0" "rttl (rdb empty_view) k = None"
  "str_at (rdb empty_view) k = None" "hash_at (rdb empty_view) k = []"
  "set_at (rdb empty_view) k = []" "list_at (rdb empty_view) k = []" "\<not> live (rdb empty_view) k"
  "is_str (rdb empty_view) k" "is_hash (rdb empty_view) k" "is_set (rdb empty_view) k"
  "is_list (rdb empty_view) k" "hash_field (rdb empty_view) k f = None"
  "loop_clock empty_view = 0" "uuids empty_view = []" "metrics empty_view = []" "sent empty_view = []" "acked empty_view h = False"
  "pgd empty_view = \<lparr>pg_streams = [], pg_checkpoints = [], pg_errors = []\<rparr>"
  by (simp_all add: empty_view_def unexpired_def expired_def readings is_str_def is_hash_def is_set_def
      is_list_def hash_field_def)

lemma empty_sound [simp]: "sound (rdb empty_view)"
  by (simp add: sound_def empty_view_def)

lemma ref_run_idle [ref_run]:
  "schedule w = [] \<Longrightarrow> unexpired (rdb (rview w)) \<Longrightarrow> ref_redis c w =
     (case redis_doc c (rdb (rview w)) of
        (None, s') \<Rightarrow> (Inl response_error, w\<lparr>rview := (rview w)\<lparr>rdb := s'\<rparr>\<rparr>)
      | (Some r, s') \<Rightarrow> (Inr (Redis_Reply (ordered_reply r)), w\<lparr>rview := (rview w)\<lparr>rdb := s'\<rparr>\<rparr>))"
  by (cases w) (auto simp: ref_redis_def next_delay_def next_fault_def Let_def at_own_time
      split: option.splits prod.splits)

lemmas ref_run_calls [ref_run] = redis_def redis_get_def redis_hget_def redis_exists_def redis_setnx_def
  redis_hgetall_def redis_hgetalls_def redis_smembers_def redis_eval_def redis_do_def
  as_text_def as_bool_def as_ok_def as_hash_def as_hashes_def as_members_def as_list_def as_int_def
  pg_transaction_def datetime_now_def uuid4_def sleep_ms_def unit_call_def next_comment_def
  serialize_def produce_def reports_call_def loop_time_def wait_tasks_def timed_out_def task_done_def list_topics_def probe_def flush_producer_def wait_for_def
  now_iso_def persist_def emit_def skip_def get_local_def modify_local_def andthen_def
  ref_pg_def next_fault_def Let_def

text \<open>Congruences that keep the rest of a program folded until it is reached.\<close>

lemma lazy:
  "p = p' \<Longrightarrow> bind p f = bind p' f" "p = p' \<Longrightarrow> except g p h = except g p' h"
  "p = p' \<Longrightarrow> finally_do p q = finally_do p' q" "c = c' \<Longrightarrow> Call c k = Call c' k"
  "Get_Local m = Get_Local m" "l = l' \<Longrightarrow> Put_Local l p = Put_Local l' p" "x = x' \<Longrightarrow> Emit x p = Emit x' p"
  by simp_all

subsection \<open>How far the reference clock can go\<close>

text \<open>The server's clock together with the delays still scheduled never grows: it bounds the
  time of every run, alone or interleaved.\<close>

definition horizon :: "ref_world \<Rightarrow> int" where
  "horizon w = rclock (rdb (rview w)) + int (sum_list (map snd (schedule w)))"

lemma rclock_below_horizon: "rclock (rdb (rview w)) \<le> horizon w"
  by (simp add: horizon_def)

lemma delay_split: "int (next_delay w) + int (sum_list (map snd (tl (schedule w)))) = int (sum_list (map snd (schedule w)))"
  by (cases "schedule w") (auto simp: next_delay_def)

lemma ref_redis_clock:
  "rclock (rdb (rview (snd (ref_redis c w)))) = rclock (rdb (rview w)) + int (next_delay w)"
  "schedule (snd (ref_redis c w)) = tl (schedule w)"
proof -
  let ?s = "at_time (rclock (rdb (rview w)) + int (next_delay w)) (rdb (rview w))"
  obtain r s' where d: "redis_doc c ?s = (r, s')" by (cases "redis_doc c ?s")
  then have "rclock s' = rclock ?s" using effect_clock [of c ?s] by (simp add: redis_effect_def)
  with d show "rclock (rdb (rview (snd (ref_redis c w)))) = rclock (rdb (rview w)) + int (next_delay w)"
    "schedule (snd (ref_redis c w)) = tl (schedule w)"
    by (cases r; cases "next_fault w"; simp add: ref_redis_def Let_def)+
qed

lemma horizon_redis: "horizon (snd (ref_redis c w)) = horizon w"
  using delay_split [of w] by (simp add: horizon_def ref_redis_clock)

lemma horizon_drop: "int (sum_list (map snd (tl xs))) \<le> int (sum_list (map snd xs))"
  by (cases xs) auto

lemma horizon_ask: "horizon (snd (ref_ask c w)) \<le> horizon w"
proof (cases c)
  case (Redis c)
  then show ?thesis by (simp add: horizon_redis)
qed (use horizon_drop [of "schedule w"] in \<open>auto simp: horizon_def ref_pg_def ref_reports_def Let_def
    split: option.splits list.splits\<close>)

lemma horizon_settle: "settle ref_services p l w = (p', l', w') \<Longrightarrow> horizon w' = horizon w"
proof (induction p arbitrary: l w)
  case (Get_Local f)
  from Get_Local.IH [OF rangeI] Get_Local.prems show ?case by simp
next
  case (Emit m p)
  from Emit.IH [of l] Emit.prems show ?case by (simp add: horizon_def)
qed auto

lemma horizon_step: "pool_step ref_services i (ps, l, w) = (ps', l', w') \<Longrightarrow> horizon w' \<le> horizon w"
proof -
  assume st: "pool_step ref_services i (ps, l, w) = (ps', l', w')"
  obtain p1 l1 w1 where s1: "settle ref_services (ps ! i) l w = (p1, l1, w1)"
    by (cases "settle ref_services (ps ! i) l w")
  show ?thesis
  proof (cases "\<exists>c f. p1 = Call c f")
    case True
    then obtain c f where c: "p1 = Call c f" by auto
    obtain p2 l2 w2 where s2: "settle ref_services (f (fst (ref_ask c w1))) l1 (snd (ref_ask c w1)) = (p2, l2, w2)"
      by (cases "settle ref_services (f (fst (ref_ask c w1))) l1 (snd (ref_ask c w1))")
    from st s1 c s2 horizon_settle [OF s1] horizon_settle [OF s2] horizon_ask [of c w1] show ?thesis
      by (auto simp: pool_step_def case_prod_unfold split: if_splits)
  next
    case False
    with st s1 horizon_settle [OF s1] show ?thesis
      by (cases p1) (auto simp: pool_step_def split: if_splits)
  qed
qed

lemma horizon_pool: "pool_run ref_services sch (ps, l, w) = (ps', l', w') \<Longrightarrow> horizon w' \<le> horizon w"
proof (induction sch arbitrary: ps l w)
  case (Cons i sch)
  obtain ps1 l1 w1 where st: "pool_step ref_services i (ps, l, w) = (ps1, l1, w1)"
    by (cases "pool_step ref_services i (ps, l, w)")
  with Cons.IH [of ps1 l1 w1] Cons.prems horizon_step [OF st] show ?case by (simp add: pool_run_def)
qed (simp add: pool_run_def)

lemma pool_clock:
  "pool_run ref_services sch (ps, l, w) = (ps', l', w') \<Longrightarrow> rclock (rdb (rview w')) \<le> horizon w"
  by (rule order_trans [OF rclock_below_horizon horizon_pool])

end
