(* ===== verification/Registry_Theorems.thy ===== *)
theory Registry_Theorems
  imports Registry_Race Checkpoints Ref_Runs
begin

section \<open>What the stream registry promises\<close>

text \<open>
  The properties of src/repositories/stream\_registry.py, each over any services that
  behave as documented (\<open>documented_services S V\<close>): a call may fail, with or without having
  taken effect, and any time may pass before it. The lemmas are those of theories
  Registry\_Inv, Registry\_Spec, Checkpoints and Registry\_Race; the witnesses run on the
  in-memory services of theory Services.
\<close>

lemmas from_wp = documented_services.run_wp

lemma empty_registry [simp]: "registry_ok empty_view"
  by (simp add: registry_ok_def ids_agree_def claim_def ident_def meta_field_def ref_run)

subsection \<open>The identifiers stay consistent\<close>

datatype registry_op =
    Op_Create bool string dict "string option"
  | Op_Get string
  | Op_By_Subreddit string
  | Op_List
  | Op_Status bool string string "string option"
  | Op_Status_If_Owner bool string string string
  | Op_Finalize bool string string string
  | Op_Heartbeat string string
  | Op_Request_Stop bool string
  | Op_Stop_Requested string
  | Op_Delete string "string option" "string option" bool
  | Op_Set_Checkpoint string "string option" "string option"
  | Op_Get_Checkpoint string

definition ignore :: "('l, 'a) prog \<Rightarrow> ('l, unit) prog" where
  "ignore p = except (\<lambda>_. True) (bind p (\<lambda>_. skip)) (\<lambda>_. skip)"

fun perform :: "registry_op \<Rightarrow> ('l, unit) prog" where
  "perform (Op_Create db sub cfg inst) = ignore (create_stream db sub cfg inst)"
| "perform (Op_Get i) = ignore (get_stream i)"
| "perform (Op_By_Subreddit sub) = ignore (get_stream_by_subreddit sub)"
| "perform Op_List = ignore list_streams"
| "perform (Op_Status db i st inst) = ignore (update_status db i st inst)"
| "perform (Op_Status_If_Owner db i st inst) = ignore (update_status_if_owner db i st inst)"
| "perform (Op_Finalize db i sub up) = ignore (finalize_stop_if_unowned db i sub up)"
| "perform (Op_Heartbeat i inst) = ignore (heartbeat i inst)"
| "perform (Op_Request_Stop db i) = ignore (request_stop db i)"
| "perform (Op_Stop_Requested i) = ignore (is_stop_requested i)"
| "perform (Op_Delete i st up purge) = ignore (delete_stream i st up purge)"
| "perform (Op_Set_Checkpoint i c p) = ignore (set_checkpoint i c p)"
| "perform (Op_Get_Checkpoint i) = ignore (get_checkpoint i)"

lemma keeps_perform: "keeps registry_ok (perform op)"
  by (cases op) (simp_all add: ignore_def, (intro keeps_rules)+)

text \<open>C7: whatever registry methods run one after the other, each returning, failing or being
  cancelled at any of its calls, in the registry no two subreddits share an identifier, the
  stream that claims a subreddit and the metadata that names it carry the subreddit's one
  identity, and every identity is a nonempty identifier this service once issued.\<close>

theorem registry_stays_consistent:
  assumes "documented_services S V" and "registry_ok (V w)"
    and "run S (for_each ops perform) l w = (r, l', w')"
  shows "registry_ok (V w')"
  by (rule keeps_run [where I = registry_ok, OF assms(1) _ assms(2,3)]) (intro keeps_rules keeps_perform)

theorem registry_stays_consistent_witness:
  "case run ref_services (for_each
     [Op_Create True ''python'' [] (Some ''a''), Op_Create True ''python'' [] (Some ''b''),
      Op_Create True ''rust'' [] None, Op_List, Op_Delete ''u'' None None False]
     perform) () (ref_start empty_view [(None, 5), (Some (runtime_error []), 3)]) of
   (_, _, w') \<Rightarrow> registry_ok (rview w')" (is "case ?run of (_, _, w') \<Rightarrow> _")
proof -
  obtain r l' w' where e: "?run = (r, l', w')" by (rule prod_cases3)
  from registry_stays_consistent [OF ref.documented_services_axioms _ e] show ?thesis
    unfolding e by simp
qed

subsection \<open>Creating a stream\<close>

text \<open>C12: a \<^verbatim>\<open>create_stream\<close> that returns found the subreddit unclaimed, gave the stream
  the subreddit's stable identity, an identifier never issued before when there was none,
  claimed the subreddit for it, wrote its metadata over what the hash held with the status
  \<^verbatim>\<open>starting\<close>, and listed it in the set of all streams and of its instance.\<close>

theorem create_stream_records:
  assumes "documented_services S V" and "sound (rdb (V w))"
    and "run S (create_stream db sub cfg inst) l w = (Inr meta, l', w')"
  shows "created sub cfg inst (V w) meta (V w')"
  using from_wp [OF assms(1,3) wp_create_stream [OF assms(2)]] by simp

lemma default_wall [ref_run]: "wall w = [] \<Longrightarrow> next_wall w = default_time"
  by (simp add: next_wall_def)

lemmas create_run = ref_run create_stream_def resolve_identity_def claim_stream_def write_stream_def
  fresh_uuid_nonempty

theorem create_stream_records_witness:
  "\<exists>meta w'. run ref_services (create_stream False ''python'' [] (Some ''w1'')) () (ref_start empty_view [])
       = (Inr meta, (), w') \<and> created ''python'' [] (Some ''w1'') empty_view meta (rview w')"
proof -
  have "\<exists>meta w'. run ref_services (create_stream False ''python'' [] (Some ''w1'')) () (ref_start empty_view [])
       = (Inr meta, (), w')"
    by (simp add: create_run)
  then obtain meta w' where e: "run ref_services (create_stream False ''python'' [] (Some ''w1'')) ()
      (ref_start empty_view []) = (Inr meta, (), w')" by blast
  from create_stream_records [OF ref.documented_services_axioms _ e]
  have "created ''python'' [] (Some ''w1'') empty_view meta (rview w')" by simp
  with e show ?thesis by blast
qed

text \<open>A subreddit that is claimed is refused: \<^verbatim>\<open>create_stream\<close> raises, and the only key
  it can write is the subreddit's missing identity, which it backfills with the claiming
  stream's identifier.\<close>

theorem create_stream_refuses_claimed:
  assumes "documented_services S V" and "sound (rdb (V w))"
    and "claim (rdb (V w)) sub = Some x" and "x \<noteq> []"
    and "run S (create_stream db sub cfg inst) l w = (r, l', w')"
  shows "(\<exists>e. r = Inl e) \<and>
    ident (rdb (V w')) \<in> {ident (rdb (V w)), (ident (rdb (V w)))(sub := Some (case ident (rdb (V w)) sub of Some i \<Rightarrow> i | None \<Rightarrow> x))} \<and>
    framed {identity_key sub} (rdb (V w)) (rdb (V w')) \<and> pgd (V w') = pgd (V w)"
  using from_wp [OF assms(1,5) wp_create_claimed [OF assms(2-4)]] by (auto simp: frame_def)

theorem create_stream_refuses_claimed_witness:
  "case run ref_services (create_stream True ''python'' [] None) ()
     (ref_start (with_rdb (put_key (subreddit_key ''python'') (VStr ''id1'')) empty_view) []) of
   (r, _, w') \<Rightarrow> (\<exists>e. r = Inl e) \<and>
     framed {identity_key ''python''} (put_key (subreddit_key ''python'') (VStr ''id1'') (rdb empty_view)) (rdb (rview w'))"
  (is "case ?run of (r, _, w') \<Rightarrow> _")
proof -
  obtain r l' w' where e: "?run = (r, l', w')" by (rule prod_cases3)
  from create_stream_refuses_claimed [OF ref.documented_services_axioms _ _ _ e, of "''id1''"] show ?thesis
    unfolding e by (simp add: claim_def)
qed

text \<open>C2: of any number of creators of one subreddit, in however many processes and however
  their calls interleave, at most one ever returns.\<close>

theorem at_most_one_creator:
  assumes "documented_services S V" and "sound (rdb (V w))"
    and "list_all (\<lambda>p. \<exists>db cfg inst. p = create_stream db sub cfg inst) ps"
    and "pool_run S sch (ps, l, w) = (ps', l', w')"
  shows "\<exists>j. returned ps' \<subseteq> {j}"
proof (rule documented_services.election [OF assms(1) _ assms(2) _ assms(4)])
  show "\<forall>p \<in> set ps. issues (candidate_call (subreddit_key sub)) p \<and> needs_win (subreddit_key sub) p"
    using assms(3) needs_win_create candidates_create by (fastforce simp: list_all_iff)
qed simp

theorem at_most_one_creator_witness:
  "case pool_run ref_services [0, 1, 2, 0, 1, 2, 1, 1, 1, 0, 2, 0, 1, 1, 1, 0]
     (map (create_stream False ''python'' []) [Some ''a'', Some ''b'', None], (), ref_start empty_view []) of
   (ps', _, _) \<Rightarrow> \<exists>j. returned ps' \<subseteq> {j}" (is "case ?run of (ps', _, _) \<Rightarrow> _")
proof -
  obtain ps' l' w' where e: "?run = (ps', l', w')" by (rule prod_cases3)
  from at_most_one_creator [OF ref.documented_services_axioms _ _ e, of "''python''"] show ?thesis
    unfolding e by (simp add: list_all_iff) blast
qed

subsection \<open>Deleting a stream\<close>

text \<open>One stream \<^verbatim>\<open>s1\<close> of the subreddit \<^verbatim>\<open>python\<close>, as the witnesses find it.\<close>

definition s1_meta :: "string \<Rightarrow> string \<Rightarrow> dict" where
  "s1_meta st owner = [(''id'', ''s1''), (''subreddit'', ''python''), (''status'', st),
     (''instance_id'', owner), (''updated_at'', ''T'')]"

definition s1_world :: "string \<Rightarrow> string \<Rightarrow> ref_world" where
  "s1_world st owner = ref_start (with_rdb (\<lambda>s.
     put_key streams_all (VSet [''s1''])
    (put_key (subreddit_key ''python'') (VStr ''s1'')
    (put_key (identity_key ''python'') (VStr ''s1'')
    (put_key (meta_key ''s1'') (VHash (s1_meta st owner)) s)))) empty_view) []"

lemma s1_sound [simp]: "sound (rdb (rview (s1_world st owner)))"
  by (simp add: s1_world_def)

lemma s1_fields [simp]:
  "meta_field (rdb (rview (s1_world st owner))) ''s1'' = map_of (s1_meta st owner)"
  "hash_field (rdb (rview (s1_world st owner))) (meta_key ''s1'') = map_of (s1_meta st owner)"
  "hash_at (rdb (rview (s1_world st owner))) (meta_key ''s1'') = s1_meta st owner"
  by (simp_all add: s1_world_def meta_field_def hash_field_def fun_eq_iff)

lemma s1_readings [simp]:
  "is_hash (rdb (rview (s1_world st owner))) (meta_key i)"
  "is_str (rdb (rview (s1_world st owner))) (subreddit_key sub)"
  "is_set (rdb (rview (s1_world st owner))) streams_all"
  "is_set (rdb (rview (s1_world st owner))) (instance_key n)"
  "live (rdb (rview (s1_world st owner))) (meta_key ''s1'')"
  "\<not> live (rdb (rview (s1_world st owner))) (lock_key sub)"
  "unexpired (rdb (rview (s1_world st owner)))" "schedule (s1_world st owner) = []"
  "wall (s1_world st owner) = []"
  by (simp_all add: s1_world_def ref_run)

text \<open>C11: \<^verbatim>\<open>delete_stream\<close> answers True only if the metadata was there, named a subreddit and
  still had the expected status and timestamp; then the stream is gone from the metadata, the
  list and the stop requests, the subreddit is free again if it was this stream's, and the
  identity is kept, or forgotten on a purge. When it answers False nothing has changed. It
  never writes a key of another stream but the claim, the identity and the instances' sets.\<close>

theorem delete_stream_exact:
  assumes "documented_services S V" and "sound (rdb (V w))"
    and "run S (delete_stream i st up purge) l w = (Inr b, l', w')"
  shows "(if b then deleted_stream i (or_empty st) (or_empty up) purge (rdb (V w)) (rdb (V w'))
          else framed {} (rdb (V w)) (rdb (V w'))) \<and>
         framed (delete_keys i purge) (rdb (V w)) (rdb (V w')) \<and> pgd (V w') = pgd (V w)"
proof -
  have "frame (delete_keys i purge) (rdb (V w)) (V w)"
    by (simp add: frame_def framed_def untouched_def)
  from keeps_run [OF assms(1) frame_delete this assms(3)]
  show ?thesis
    using from_wp [OF assms(1,3) wp_delete_stream [OF assms(2)]]
    by (auto simp: delete_outcome_def frame_def)
qed

theorem delete_stream_exact_witness:
  "\<exists>w'. run ref_services (delete_stream ''s1'' (Some ''stopped'') (Some ''T'') False) ()
       (s1_world ''stopped'' []) = (Inr True, (), w') \<and>
     deleted_stream ''s1'' ''stopped'' ''T'' False (rdb (rview (s1_world ''stopped'' []))) (rdb (rview w'))"
proof -
  have "\<exists>w'. run ref_services (delete_stream ''s1'' (Some ''stopped'') (Some ''T'') False) ()
       (s1_world ''stopped'' []) = (Inr True, (), w')"
    by (simp add: ref_run delete_stream_def delete_stream_closed unchanged_def s1_meta_def)
  then obtain w' where e: "run ref_services (delete_stream ''s1'' (Some ''stopped'') (Some ''T'') False) ()
       (s1_world ''stopped'' []) = (Inr True, (), w')" by blast
  from delete_stream_exact [OF ref.documented_services_axioms _ e]
  have "deleted_stream ''s1'' ''stopped'' ''T'' False (rdb (rview (s1_world ''stopped'' []))) (rdb (rview w'))"
    by simp
  with e show ?thesis by blast
qed

lemma starting_row_sub: "starting_row i sub cfg inst meta \<Longrightarrow> map_of meta ''subreddit'' = Some sub"
  by (auto simp: starting_row_def stream_meta_def)

text \<open>C13: a stream that is created, deleted without a purge and created again gets the
  identifier it had.\<close>

theorem recreated_stream_keeps_identity:
  assumes "documented_services S V" and "sound (rdb (V w))"
    and "run S (create_stream db sub cfg inst) l w = (Inr meta, l1, w1)"
    and "run S (delete_stream (stream_id_of meta) st up False) l1 w1 = (Inr True, l2, w2)"
    and "run S (create_stream db' sub cfg' inst') l2 w2 = (Inr meta', l3, w3)"
  shows "stream_id_of meta' = stream_id_of meta"
proof -
  have c: "sound (rdb (V w1)) \<and> created sub cfg inst (V w) meta (V w1)"
    using from_wp [OF assms(1,3) wp_create_stream [OF assms(2)]] by simp
  then have d: "sound (rdb (V w2)) \<and> deleted_stream (stream_id_of meta) (or_empty st) (or_empty up) False (rdb (V w1)) (rdb (V w2))"
    using from_wp [OF assms(1,4) wp_delete_stream] by (auto simp: delete_outcome_def)
  from c have "names_sub (rdb (V w1)) (stream_id_of meta) = Some sub"
    by (auto simp: created_def Let_def map_add_Some_iff dest: starting_row_sub)
  with d have "ident (rdb (V w2)) sub = Some (stream_id_of meta)"
    by (auto simp: deleted_stream_def removed_def)
  then show ?thesis
    using from_wp [OF assms(1,5) wp_create_stream] d by (auto simp: created_def Let_def)
qed

theorem recreated_stream_keeps_identity_witness:
  "\<exists>meta w1 w2 meta' w3.
     run ref_services (create_stream False ''python'' [] None) () (ref_start empty_view []) = (Inr meta, (), w1) \<and>
     run ref_services (delete_stream (stream_id_of meta) None None False) () w1 = (Inr True, (), w2) \<and>
     run ref_services (create_stream False ''python'' [] None) () w2 = (Inr meta', (), w3) \<and>
     stream_id_of meta' = stream_id_of meta"
proof -
  have "\<exists>meta w1 w2 meta' w3.
     run ref_services (create_stream False ''python'' [] None) () (ref_start empty_view []) = (Inr meta, (), w1) \<and>
     run ref_services (delete_stream (stream_id_of meta) None None False) () w1 = (Inr True, (), w2) \<and>
     run ref_services (create_stream False ''python'' [] None) () w2 = (Inr meta', (), w3)"
    by (simp add: create_run delete_stream_def delete_stream_closed unchanged_def stream_meta_def stream_id_of_def)
  then obtain meta w1 w2 meta' w3 where
     "run ref_services (create_stream False ''python'' [] None) () (ref_start empty_view []) = (Inr meta, (), w1)"
     "run ref_services (delete_stream (stream_id_of meta) None None False) () w1 = (Inr True, (), w2)"
     "run ref_services (create_stream False ''python'' [] None) () w2 = (Inr meta', (), w3)"
    by blast
  moreover from recreated_stream_keeps_identity [OF ref.documented_services_axioms _ this]
  have "stream_id_of meta' = stream_id_of meta" by simp
  ultimately show ?thesis by blast
qed

subsection \<open>Guarded updates\<close>

text \<open>A heartbeat of instance \<open>n\<close> answers True exactly when the stream is active and
  owned by \<open>n\<close>; then only the timestamp of the metadata changes and the stream is in the
  instance's set. Otherwise, also when the call fails, it changes nothing.\<close>

theorem heartbeat_only_by_active_owner:
  assumes "documented_services S V" and "sound (rdb (V w))"
    and "run S (heartbeat i n) l w = (r, l', w')"
  shows "guarded (meta_owner (rdb (V w)) i = Some n \<and> meta_status (rdb (V w)) i = Some ''active'')
     (\<lambda>s s'. restamped i None s s' \<and> assigned s' n = insert i (assigned s n)) (V w) r (V w')"
  using from_wp [OF assms(1,3) wp_heartbeat [OF assms(2)]] .

theorem heartbeat_only_by_active_owner_witness:
  "\<exists>w'. run ref_services (heartbeat ''s1'' ''n'') () (s1_world ''active'' ''n'') = (Inr True, (), w') \<and>
     guarded True (\<lambda>s s'. restamped ''s1'' None s s' \<and> assigned s' ''n'' = insert ''s1'' (assigned s ''n''))
       (rview (s1_world ''active'' ''n'')) (Inr True) (rview w')"
proof -
  have "\<exists>w'. run ref_services (heartbeat ''s1'' ''n'') () (s1_world ''active'' ''n'') = (Inr True, (), w')"
    by (simp add: ref_run heartbeat_def heartbeat_closed s1_meta_def)
  then obtain w' where e: "run ref_services (heartbeat ''s1'' ''n'') () (s1_world ''active'' ''n'') = (Inr True, (), w')"
    by blast
  have own: "meta_owner (rdb (rview (s1_world ''active'' ''n''))) ''s1'' = Some ''n''"
    "meta_status (rdb (rview (s1_world ''active'' ''n''))) ''s1'' = Some ''active''"
    by (simp_all add: meta_owner_def meta_status_def s1_meta_def)
  from heartbeat_only_by_active_owner [OF ref.documented_services_axioms _ e] e
  show ?thesis unfolding own by auto
qed

text \<open>\<^verbatim>\<open>update_status_if_owner\<close> answers True exactly when the instance owns the stream;
  then the status and the timestamp change and nothing else of the metadata. For any other
  instance it changes nothing in Redis, also when it fails.\<close>

theorem update_status_only_by_owner:
  assumes "documented_services S V" and "sound (rdb (V w))"
    and "run S (update_status_if_owner db i st n) l w = (r, l', w')"
  shows "guarded (meta_owner (rdb (V w)) i = Some n) (restamped i (Some st)) (V w) r (V w')"
  using from_wp [OF assms(1,3) wp_update_status_if_owner [OF assms(2)]] .

theorem update_status_only_by_owner_witness:
  "\<exists>w'. run ref_services (update_status_if_owner False ''s1'' ''error'' ''other'') () (s1_world ''active'' ''n'') =
       (Inr False, (), w') \<and> framed {} (rdb (rview (s1_world ''active'' ''n''))) (rdb (rview w'))"
proof -
  have "\<exists>w'. run ref_services (update_status_if_owner False ''s1'' ''error'' ''other'') () (s1_world ''active'' ''n'') =
     (Inr False, (), w')"
    by (simp add: ref_run update_status_if_owner_def update_owner_closed s1_meta_def)
  then obtain w' where e: "run ref_services (update_status_if_owner False ''s1'' ''error'' ''other'') ()
     (s1_world ''active'' ''n'') = (Inr False, (), w')"
    by blast
  from update_status_only_by_owner [OF ref.documented_services_axioms _ e] e show ?thesis
    by (auto simp: guarded_def frame_def)
qed

text \<open>C14: \<^verbatim>\<open>finalize_stop_if_unowned\<close> answers as it finds the stream at some moment of the
  call: True exactly when the stream is stopping, has not been touched since the snapshot and
  no worker holds the subreddit's lock; then the status becomes \<^verbatim>\<open>stopped\<close>. Otherwise nothing
  changes.\<close>

theorem finalize_only_unowned_stopping:
  assumes "documented_services S V" and "sound (rdb (V w))"
    and "run S (finalize_stop_if_unowned db i sub up) l w = (Inr b, l', w')"
  shows "\<exists>t \<ge> rclock (rdb (V w)). b = finalizable (at_time t (rdb (V w))) i sub up \<and>
    (if b then restamped i (Some ''stopped'') (rdb (V w)) (rdb (V w')) else framed {} (rdb (V w)) (rdb (V w')))"
  using from_wp [OF assms(1,3) wp_finalize [OF assms(2)]] by (auto simp: frame_def)

theorem finalize_only_unowned_stopping_witness:
  "\<exists>w'. run ref_services (finalize_stop_if_unowned False ''s1'' ''python'' ''T'') () (s1_world ''stopping'' []) =
       (Inr True, (), w') \<and> restamped ''s1'' (Some ''stopped'') (rdb (rview (s1_world ''stopping'' []))) (rdb (rview w'))"
proof -
  have "\<exists>w'. run ref_services (finalize_stop_if_unowned False ''s1'' ''python'' ''T'') () (s1_world ''stopping'' []) =
     (Inr True, (), w')"
    by (simp add: ref_run finalize_stop_if_unowned_def finalize_closed s1_meta_def)
  then obtain w' where e: "run ref_services (finalize_stop_if_unowned False ''s1'' ''python'' ''T'') ()
     (s1_world ''stopping'' []) = (Inr True, (), w')" by blast
  from finalize_only_unowned_stopping [OF ref.documented_services_axioms _ e] e show ?thesis by auto
qed

text \<open>A stop request that returns found the stream's metadata; afterwards the request is
  there to be seen, the status is \<^verbatim>\<open>stopping\<close>, and the owner, kept if there is one, still
  has the stream in its set.\<close>

theorem request_stop_visible:
  assumes "documented_services S V" and "sound (rdb (V w))"
    and "run S (request_stop db i) l w = (Inr (), l', w')"
  shows "\<not> no_row (rdb (V w)) i \<and> stop_asked (rdb (V w')) i \<and>
    status_written i ''stopping'' (or_none (meta_owner (rdb (V w)) i)) (rdb (V w)) (rdb (V w'))"
  using from_wp [OF assms(1,3) wp_request_stop [OF assms(2)]] by simp

theorem request_stop_visible_witness:
  "\<exists>w'. run ref_services (request_stop False ''s1'') () (s1_world ''active'' ''n'') = (Inr (), (), w') \<and>
     stop_asked (rdb (rview w')) ''s1''"
proof -
  have "\<exists>w'. run ref_services (request_stop False ''s1'') () (s1_world ''active'' ''n'') = (Inr (), (), w')"
    by (simp add: ref_run request_stop_def get_stream_def update_status_def decode_row_def s1_meta_def)
  then obtain w' where e: "run ref_services (request_stop False ''s1'') () (s1_world ''active'' ''n'') = (Inr (), (), w')"
    by blast
  from request_stop_visible [OF ref.documented_services_axioms _ e] e show ?thesis by auto
qed

text \<open>\<^verbatim>\<open>list_streams\<close> returns the metadata of every listed stream that has any, each once,
  and takes the others, whose metadata is gone, out of the list.\<close>

theorem list_streams_prunes:
  assumes "documented_services S V" and "sound (rdb (V w))"
    and "run S list_streams l w = (Inr rows, l', w')"
  shows "listing (rdb (V w)) rows (rdb (V w'))"
  using from_wp [OF assms(1,3) wp_list_streams [OF assms(2)]] by simp

theorem list_streams_prunes_witness:
  "\<exists>rows w'. run ref_services list_streams () (s1_world ''active'' ''n'') = (Inr rows, (), w') \<and>
     listing (rdb (rview (s1_world ''active'' ''n''))) rows (rdb (rview w'))"
proof -
  have "\<exists>rows w'. run ref_services list_streams () (s1_world ''active'' ''n'') = (Inr rows, (), w')"
    by (simp add: ref_run list_streams_def s1_world_def s1_meta_def)
  then obtain rows w' where e: "run ref_services list_streams () (s1_world ''active'' ''n'') = (Inr rows, (), w')"
    by blast
  from list_streams_prunes [OF ref.documented_services_axioms _ e]
  have "listing (rdb (rview (s1_world ''active'' ''n''))) rows (rdb (rview w'))" by simp
  with e show ?thesis by blast
qed

subsection \<open>Checkpoints\<close>

text \<open>A checkpoint that was written is what \<^verbatim>\<open>get_checkpoint\<close> reads: each field that was
  given has its new value, each that was not keeps its old one, and no other stream's
  checkpoint has changed.\<close>

theorem checkpoint_read_back:
  assumes "documented_services S V" and "sound (rdb (V w))"
    and "run S (set_checkpoint i c p) l w = (Inr (), l1, w1)"
    and "run S (get_checkpoint j) l1 w1 = (Inr cp, l2, w2)"
  shows "last_comment_id cp = (if j = i \<and> c \<noteq> None then c else checkpoint_fields (rdb (V w)) j ''last_comment_id'') \<and>
    last_processed_at cp = (if j = i \<and> p \<noteq> None then p else checkpoint_fields (rdb (V w)) j ''last_processed_at'')"
proof -
  have m: "sound (rdb (V w1)) \<and> checkpoint_merged i c p (rdb (V w)) (rdb (V w1))"
    using from_wp [OF assms(1,3) wp_set_checkpoint [OF assms(2)]] by simp
  then have "cp = read_checkpoint (checkpoint_fields (rdb (V w1)) j)"
    using from_wp [OF assms(1,4) wp_get_checkpoint] by simp
  with m show ?thesis
    by (auto simp: checkpoint_merged_def read_checkpoint_def checkpoint_update_def map_add_def
        split: if_splits option.splits)
qed

theorem checkpoint_read_back_witness:
  "\<exists>w1 cp w2.
     run ref_services (set_checkpoint ''s1'' (Some ''t1_x'') None) () (ref_start empty_view []) = (Inr (), (), w1) \<and>
     run ref_services (get_checkpoint ''s1'') () w1 = (Inr cp, (), w2) \<and>
     last_comment_id cp = Some ''t1_x''"
proof -
  have "\<exists>w1 cp w2.
     run ref_services (set_checkpoint ''s1'' (Some ''t1_x'') None) () (ref_start empty_view []) = (Inr (), (), w1) \<and>
     run ref_services (get_checkpoint ''s1'') () w1 = (Inr cp, (), w2)"
    by (simp add: ref_run set_checkpoint_def get_checkpoint_def)
  then obtain w1 cp w2 where
    e: "run ref_services (set_checkpoint ''s1'' (Some ''t1_x'') None) () (ref_start empty_view []) = (Inr (), (), w1)"
     "run ref_services (get_checkpoint ''s1'') () w1 = (Inr cp, (), w2)" by blast
  moreover from checkpoint_read_back [OF ref.documented_services_axioms _ e]
  have "last_comment_id cp = Some ''t1_x''" by simp
  ultimately show ?thesis by blast
qed

end
