(* ===== verification/Error_Handler.thy ===== *)
theory Error_Handler
  imports Frames Json_Text
begin

section \<open>Error records and recovery decisions\<close>

text \<open>
  \<^verbatim>\<open>ErrorHandler\<close> and \<^verbatim>\<open>RecoveryStrategy\<close> of src/stream/error\_handler.py: the last
  hundred errors of a stream as JSON texts in a Redis list with a lifetime of a day, a
  best-effort copy in PostgreSQL, and the classification of exceptions by class.
\<close>

subsection \<open>Classification\<close>

definition FATAL_EXCEPTIONS :: "pyclass list" where
  "FATAL_EXCEPTIONS = [Bad_Request, Forbidden, Invalid_Token, Not_Found, Oauth_Exception,
     Value_Error, Kafka_Delivery_Error]"

definition BACKOFF_EXCEPTIONS :: "pyclass list" where
  "BACKOFF_EXCEPTIONS = [Too_Many_Requests, Circuit_Open_Error]"

definition RETRYABLE_EXCEPTIONS :: "pyclass list" where
  "RETRYABLE_EXCEPTIONS = [Connection_Error, Timeout_Error, Client_Connection_Error,
     Request_Exception, Response_Exception]"

definition is_retryable :: "pyexn \<Rightarrow> bool" where
  "is_retryable error = (\<not> isinstance error FATAL_EXCEPTIONS \<and>
     isinstance error (RETRYABLE_EXCEPTIONS @ BACKOFF_EXCEPTIONS))"

definition should_backoff :: "pyexn \<Rightarrow> bool" where
  "should_backoff error = isinstance error BACKOFF_EXCEPTIONS"

definition get_backoff_duration :: "pyexn \<Rightarrow> int" where
  "get_backoff_duration error =
     (if isinstance error [Too_Many_Requests] then 60
      else if isinstance error [Circuit_Open_Error] then eretry error
      else 5)"

definition should_retry_transient :: "pyexn \<Rightarrow> bool" where
  "should_retry_transient error =
     (let retryable = is_retryable error; has_required_backoff = should_backoff error
      in retryable \<and> \<not> has_required_backoff)"

definition should_retry_with_backoff :: "pyexn \<Rightarrow> bool" where
  "should_retry_with_backoff error = should_backoff error"

definition should_abandon_stream :: "pyexn \<Rightarrow> bool" where
  "should_abandon_stream error = isinstance error FATAL_EXCEPTIONS"

lemmas recovery_defs = is_retryable_def should_backoff_def get_backoff_duration_def
  should_retry_transient_def should_retry_with_backoff_def should_abandon_stream_def

text \<open>The three decisions of the worker exclude one another unless an exception is of a
  fatal and of a back-off class at once.\<close>

lemma decisions_exclusive:
  "\<not> (should_retry_transient e \<and> should_retry_with_backoff e)"
  "\<not> (should_retry_transient e \<and> should_abandon_stream e)"
  by (auto simp: recovery_defs Let_def)

lemma retryable_split:
  "is_retryable e \<longleftrightarrow> should_retry_transient e \<or> (should_retry_with_backoff e \<and> \<not> should_abandon_stream e)"
  by (auto simp: recovery_defs Let_def isinstance_iff)

subsection \<open>The record\<close>

definition error_ttl :: int where
  "error_ttl = 86400"

definition error_entry :: "string \<Rightarrow> string \<Rightarrow> string \<Rightarrow> bool \<Rightarrow> string \<Rightarrow> dict" where
  "error_entry uid error_type error_message is_recoverable ts =
     [(''id'', uid), (''error_type'', error_type), (''error_message'', error_message),
      (''is_recoverable'', (if is_recoverable then ''1'' else ''0'')), (''timestamp'', ts)]"

text \<open>The Redis part: in front of the list, keep the first hundred, live for a day.\<close>

definition store_entry :: "string \<Rightarrow> string \<Rightarrow> ('l, unit) prog" where
  "store_entry stream_id entry =
     andthen (redis_do (Lpush (error_key stream_id) entry))
    (andthen (redis_do (Ltrim (error_key stream_id) 0 99))
      (redis_do (Expire (error_key stream_id) error_ttl)))"

definition record_error :: "bool \<Rightarrow> string \<Rightarrow> string \<Rightarrow> string \<Rightarrow> bool \<Rightarrow> ('l, unit) prog" where
  "record_error db stream_id error_type error_message is_recoverable =
     bind datetime_now (\<lambda>now.
     let timestamp = naive now; ts = isoformat timestamp @ ''Z'' in
     bind uuid4 (\<lambda>uid.
     let entry = error_entry uid error_type error_message is_recoverable ts in
     andthen (emit (Inc ''errors'' [error_type, if is_recoverable then ''true'' else ''false'']))
    (andthen (store_entry stream_id (json_dumps entry))
      (persist db (Insert_Error \<lparr>er_id = uid, er_stream_id = stream_id,
         er_error_type = error_type, er_error_message = error_message, er_retry_count = 0,
         er_is_recoverable = (if is_recoverable then 1 else 0), er_timestamp = timestamp\<rparr>)))))"

definition redis_llen :: "string \<Rightarrow> ('l, int) prog" where
  "redis_llen k = bind (redis (Llen k)) as_int"

definition redis_lrange :: "string \<Rightarrow> int \<Rightarrow> int \<Rightarrow> ('l, string list) prog" where
  "redis_lrange k a b = bind (redis (Lrange k a b)) as_list"

definition get_error_count :: "string \<Rightarrow> ('l, int) prog" where
  "get_error_count stream_id = redis_llen (error_key stream_id)"

definition clear_errors :: "string \<Rightarrow> ('l, unit) prog" where
  "clear_errors stream_id = redis_do (Del [error_key stream_id])"

text \<open>\<^verbatim>\<open>[json.loads(str(e)) for e in error_strings if e]\<close>.\<close>

fun load_entries :: "string list \<Rightarrow> ('l, dict list) prog" where
  "load_entries [] = Ret []"
| "load_entries (e # es) =
     (if e = [] then load_entries es
      else case json_loads e of
             None \<Rightarrow> Raise (value_error ''Expecting value'')
           | Some d \<Rightarrow> bind (load_entries es) (\<lambda>ds. Ret (d # ds)))"

definition get_recent_errors :: "string \<Rightarrow> int \<Rightarrow> ('l, dict list) prog" where
  "get_recent_errors stream_id limit =
     bind (redis_lrange (error_key stream_id) 0 (limit - 1)) load_entries"

subsection \<open>What recording an error does\<close>

lemma wp_llen [wp_rules]:
  "wp (redis_llen k) Q l v =
     (\<forall>t \<ge> rclock (rdb v).
        (\<forall>e. Q (Inl e) l (later t v))
      \<and> (is_list (rdb (later t v)) k \<longrightarrow> Q (Inr (int (length (list_at (rdb (later t v)) k)))) l (later t v)))"
  unfolding redis_llen_def wp_bind wp_redis_later
  by (rule all_cong) (auto simp: redis_effect_def redis_answer_def with_rdb_def later_def as_int_def)

lemma wp_lrange [wp_rules]:
  "wp (redis_lrange k a b) Q l v =
     (\<forall>t \<ge> rclock (rdb v).
        (\<forall>e. Q (Inl e) l (later t v))
      \<and> (is_list (rdb (later t v)) k \<longrightarrow>
           Q (Inr (list_range a b (list_at (rdb (later t v)) k))) l (later t v)))"
  unfolding redis_lrange_def wp_bind wp_redis_later
  by (rule all_cong) (auto simp: redis_effect_def redis_answer_def with_rdb_def later_def as_list_def)

definition errors_of :: "rdb \<Rightarrow> string \<Rightarrow> string list" where
  "errors_of s stream_id = list_at s (error_key stream_id)"

lemma trim_100: "list_range 0 99 l = take 100 l"
  using list_range_from_0 [of 100 l] by simp

lemma live_list: "is_list s k \<Longrightarrow> list_at s k \<noteq> [] \<Longrightarrow> live s k"
  by (auto simp: readings split: option.splits rval.splits)

lemma errors_at_time: "errors_of (at_time t s) i = (if expired t s (error_key i) then [] else errors_of s i)"
  by (simp add: errors_of_def list_at_def)

text \<open>The list on its way: \<open>d\<close> is the deadline it had, before which nothing can have expired.\<close>

definition due :: "int option \<Rightarrow> rdb \<Rightarrow> bool" where
  "due d s = (\<exists>t. d = Some t \<and> t \<le> rclock s)"

definition on_the_way :: "string \<Rightarrow> string list \<Rightarrow> string list \<Rightarrow> int option \<Rightarrow> rdb \<Rightarrow> bool" where
  "on_the_way i l l' d s =
     (sound s \<and> l' \<noteq> [] \<and> errors_of s i \<in> {[], l, l'} \<and> (\<not> due d s \<longrightarrow> errors_of s i = l' \<and> rttl s (error_key i) = d))"

lemma due_later: "rclock s \<le> t \<Longrightarrow> \<not> due d (at_time t s) \<Longrightarrow> \<not> due d s \<and> (rttl s k = d \<longrightarrow> \<not> expired t s k)"
  by (auto simp: due_def expired_def split: option.splits)

lemma due_expired: "due (rttl s k) s' = expired (rclock s') s k"
  by (auto simp: due_def expired_def split: option.splits)

lemma due_writes [simp]: "due d (put_list k m s) = due d s"
  by (simp add: due_def)

lemma errors_put_list [simp]:
  "errors_of (put_list (error_key i) m s) i = m"
  "rttl (put_list (error_key i) m s) (error_key i) = (if m = [] then None else rttl s (error_key i))"
  by (simp_all add: errors_of_def) (simp add: put_list_def)

lemma way_later: "on_the_way i l l' d s \<Longrightarrow> rclock s \<le> t \<Longrightarrow> on_the_way i l l' d (at_time t s)"
  using due_later [of s t d "error_key i"] by (auto simp: on_the_way_def errors_at_time)

lemma way_trim:
  "on_the_way i l l' d s \<Longrightarrow>
     on_the_way i (take 100 l) (take 100 l') d (put_list (error_key i) (take 100 (errors_of s i)) s)"
  by (auto simp: on_the_way_def)

lemma wp_push:
  "sound (rdb v) \<Longrightarrow> wp (redis_do (Lpush (error_key i) x)) (\<lambda>r l' v'. r = Inr () \<longrightarrow>
     on_the_way i [x] (x # errors_of (rdb v) i) (rttl (rdb v) (error_key i)) (rdb v')) l v"
  using due_later [of "rdb v" _ "rttl (rdb v) (error_key i)" "error_key i"]
  by (auto simp: wp_redis_do on_the_way_def errors_of_def [symmetric] errors_at_time)

lemma wp_trim:
  "on_the_way i l l' d (rdb v) \<Longrightarrow> wp (redis_do (Ltrim (error_key i) 0 99)) (\<lambda>r _ v'. r = Inr () \<longrightarrow>
     on_the_way i (take 100 l) (take 100 l') d (rdb v')) lo v"
  by (auto simp: wp_redis_do errors_of_def [symmetric] trim_100 intro!: way_trim way_later)

lemma wp_expire:
  "on_the_way i l l' d (rdb v) \<Longrightarrow> wp (redis_do (Expire (error_key i) error_ttl)) (\<lambda>r _ v'. r = Inr () \<longrightarrow>
     sound (rdb v') \<and> errors_of (rdb v') i \<in> {[], l, l'} \<and> (\<not> due d (rdb v') \<longrightarrow> errors_of (rdb v') i = l') \<and>
     (errors_of (rdb v') i \<noteq> [] \<longrightarrow> rttl (rdb v') (error_key i) = Some (rclock (rdb v') + 1000 * error_ttl))) lo v"
  by (auto simp: wp_redis_do on_the_way_def errors_of_def list_at_def live_def may_expire_def error_ttl_def due_def expired_def
      split: option.splits)

text \<open>The outcome of recording: at most one hundred entries, the new one in front of those
  that were there; the list may have expired meanwhile. Afterwards it lives for a day.\<close>

definition entry_stored :: "string \<Rightarrow> string \<Rightarrow> rdb \<Rightarrow> rdb \<Rightarrow> bool" where
  "entry_stored i x s s' =
     (sound s' \<and> errors_of s' i \<in> {[], [x], take 100 (x # errors_of s i)} \<and>
      (\<not> expired (rclock s') s (error_key i) \<longrightarrow> errors_of s' i = take 100 (x # errors_of s i)) \<and>
      (errors_of s' i \<noteq> [] \<longrightarrow> rttl s' (error_key i) = Some (rclock s' + 1000 * error_ttl)))"

lemma wp_store_entry:
  "sound (rdb v) \<Longrightarrow> wp (store_entry i x) (\<lambda>r l' v'. r = Inr () \<longrightarrow> entry_stored i x (rdb v) (rdb v')) l v"
  unfolding store_entry_def
  by (rule wp_seq_andthen [OF wp_push], assumption, simp)
     (rule wp_seq_andthen [OF wp_trim], simp, simp, rule wp_mono [OF wp_expire], simp,
       auto simp: entry_stored_def due_expired)

definition error_recorded :: "string \<Rightarrow> string \<Rightarrow> string \<Rightarrow> bool \<Rightarrow> rdb \<Rightarrow> rdb \<Rightarrow> bool" where
  "error_recorded i et msg rec s s' =
     (\<exists>uid ts. entry_stored i (json_dumps (error_entry uid et msg rec ts)) s s')"

lemma wp_record_error:
  assumes s: "sound (rdb v)"
  shows "wp (record_error db i et msg rec) (\<lambda>r l' v'. r = Inr () \<longrightarrow>
     error_recorded i et msg rec (rdb v) (rdb v')) l v"
proof -
  have "wp (andthen (store_entry i (json_dumps (error_entry u et msg rec ts))) (persist db q))
    (\<lambda>r l' v'. r = Inr () \<longrightarrow> error_recorded i et msg rec (rdb v) (rdb v')) l v1"
    if "rdb v1 = rdb v" for u ts q v1
    using s that
    by (intro wp_seq_andthen [OF wp_store_entry]) (auto simp: wp_persist error_recorded_def)
  then show ?thesis
    unfolding record_error_def Let_def
    by (simp add: wp_bind wp_now wp_uuid4 wp_andthen [of "emit m" for m] wp_basic)
qed

lemma frame_record_error: "keeps (frame {error_key i} s) (record_error db i et msg rec)"
  unfolding record_error_def store_entry_def by (intro keeps_rules) auto

text \<open>Reading back.\<close>

lemma bind_returns: "bind p f = Ret y \<longleftrightarrow> (\<exists>x. p = Ret x \<and> f x = Ret y)"
  by (cases p) auto

lemma entry_keys: "distinct (map fst (error_entry uid et msg rec ts))"
  by (simp add: error_entry_def)

lemma entry_text_nonempty [simp]: "json_dumps d \<noteq> []"
  by (simp add: json_dumps_def)

lemma load_entry:
  "load_entries (json_dumps (error_entry uid et msg rec ts) # es) =
     bind (load_entries es) (\<lambda>ds. Ret (error_entry uid et msg rec ts # ds))"
  by (simp add: json_loads_dumps entry_keys)

lemma load_entries_any: "load_entries es = (Ret ds :: ('l, dict list) prog) \<Longrightarrow> load_entries es = (Ret ds :: ('m, dict list) prog)"
  by (induction es arbitrary: ds rule: load_entries.induct) (auto simp: bind_returns split: if_splits option.splits)

text \<open>A list of texts, all written by \<open>record_error\<close>, is read back in order.\<close>

lemma load_entries_written:
  "\<forall>d \<in> set ds. distinct (map fst d) \<Longrightarrow> load_entries (map json_dumps ds) = Ret ds"
  by (induction ds) (auto simp: json_loads_dumps)

lemma wp_get_recent_errors:
  assumes s: "sound (rdb v)"
  shows "wp (get_recent_errors i limit) (\<lambda>r l' v'. passed (rdb v) (rdb v') \<and>
    (\<forall>ds. r = Inr ds \<longrightarrow> load_entries (list_range 0 (limit - 1) (errors_of (rdb v') i)) = (Ret ds :: ('l, dict list) prog))) (l :: 'l) v"
proof -
  have load: "wp (load_entries es) (\<lambda>r l' v'. v' = v1 \<and> (\<forall>ds. r = Inr ds \<longrightarrow> load_entries es = (Ret ds :: ('l, dict list) prog))) l v1"
    for es v1 and l :: 'l
    by (induction es rule: load_entries.induct)
       (auto simp: wp_bind split: option.splits sum.splits elim!: wp_mono)
  show ?thesis
    using s unfolding get_recent_errors_def
    by (auto simp: wp_bind wp_lrange errors_of_def intro!: wp_mono [OF load])
qed

end
