(* ===== verification/Circuit_Breaker.thy ===== *)
theory Circuit_Breaker
  imports Error_Handler
begin

section \<open>The circuit breaker\<close>

text \<open>
  \<^verbatim>\<open>CircuitBreaker\<close> of src/stream/circuit\_breaker.py. The constructor's arguments are a
  configuration, the attributes that change are a record; a method is a function of both
  and of the moment \<^verbatim>\<open>datetime.now(UTC)\<close> answers, and \<open>breaker_call\<close> is the coroutine that
  wraps another one. Elapsed times are whole microseconds, which is what \<^verbatim>\<open>timedelta\<close>
  holds; the backoff multiplier is a rational number. The breaker's \<^verbatim>\<open>asyncio.Lock\<close> guards
  sections without an \<^verbatim>\<open>await\<close>, so it is never contended and leaves no trace here.
\<close>

datatype circuit_state = CLOSED | OPEN | HALF_OPEN

record breaker_config =
  failure_threshold :: int
  recovery_timeout :: int
  success_threshold :: int
  backoff_multiplier :: rat
  max_backoff :: int

record breaker =
  cb_state :: circuit_state
  failure_count :: int
  success_count :: int
  last_failure_time :: "datetime option"
  backoff_seconds :: int

definition new_breaker :: "breaker_config \<Rightarrow> breaker" where
  "new_breaker cfg = \<lparr>cb_state = CLOSED, failure_count = 0, success_count = 0,
     last_failure_time = None, backoff_seconds = recovery_timeout cfg\<rparr>"

fun state_value :: "circuit_state \<Rightarrow> string" where
  "state_value CLOSED = ''closed''"
| "state_value OPEN = ''open''"
| "state_value HALF_OPEN = ''half_open''"

definition transition :: "circuit_state \<Rightarrow> metric" where
  "transition st = Inc ''circuit_breaker_transitions'' [state_value st]"

subsection \<open>The methods\<close>

text \<open>Microseconds since the last failure.\<close>

definition elapsed :: "datetime \<Rightarrow> datetime \<Rightarrow> int" where
  "elapsed now since = to_micros now - to_micros since"

definition should_attempt_reset :: "breaker \<Rightarrow> datetime \<Rightarrow> bool" where
  "should_attempt_reset cb now =
     (case last_failure_time cb of None \<Rightarrow> True
      | Some f \<Rightarrow> 1000000 * backoff_seconds cb \<le> elapsed now f)"

text \<open>\<^verbatim>\<open>max(0, math.ceil(self.backoff_seconds - elapsed))\<close>.\<close>

definition time_until_retry :: "breaker \<Rightarrow> datetime \<Rightarrow> int" where
  "time_until_retry cb now =
     (case last_failure_time cb of None \<Rightarrow> 0
      | Some f \<Rightarrow> max 0 (- ((elapsed now f - 1000000 * backoff_seconds cb) div 1000000)))"

definition breaker_success :: "breaker_config \<Rightarrow> breaker \<Rightarrow> breaker \<times> metric list" where
  "breaker_success cfg cb =
     (let cb = cb\<lparr>failure_count := 0\<rparr> in
      if cb_state cb = HALF_OPEN then
        let cb = cb\<lparr>success_count := success_count cb + 1\<rparr> in
        if success_count cb \<ge> success_threshold cfg
        then (cb\<lparr>cb_state := CLOSED, backoff_seconds := recovery_timeout cfg\<rparr>, [transition CLOSED])
        else (cb, [])
      else (cb, []))"

text \<open>\<^verbatim>\<open>int(min(max(self.backoff_seconds * self.backoff_multiplier, suggested), self.max_backoff))\<close>.\<close>

definition next_backoff :: "breaker_config \<Rightarrow> int \<Rightarrow> int \<Rightarrow> int" where
  "next_backoff cfg backoff suggested =
     \<lfloor>min (max (of_int backoff * backoff_multiplier cfg) (of_int suggested)) (of_int (max_backoff cfg))\<rfloor>"

definition breaker_failure :: "breaker_config \<Rightarrow> pyexn \<Rightarrow> datetime \<Rightarrow> breaker \<Rightarrow> breaker \<times> metric list" where
  "breaker_failure cfg exc now cb =
     (let cb = cb\<lparr>failure_count := failure_count cb + 1, last_failure_time := Some now, success_count := 0\<rparr>;
          suggested = get_backoff_duration exc
      in if cb_state cb = HALF_OPEN then
           (cb\<lparr>backoff_seconds := next_backoff cfg (backoff_seconds cb) suggested, cb_state := OPEN\<rparr>,
            [transition OPEN])
         else if failure_count cb \<ge> failure_threshold cfg then
           (cb\<lparr>backoff_seconds := next_backoff cfg (backoff_seconds cb) suggested, cb_state := OPEN\<rparr>,
            [transition OPEN])
         else (cb, []))"

definition breaker_half_open :: "breaker \<Rightarrow> breaker \<times> metric list" where
  "breaker_half_open cb = (cb\<lparr>cb_state := HALF_OPEN, success_count := 0\<rparr>, [transition HALF_OPEN])"

definition breaker_reset :: "breaker_config \<Rightarrow> breaker \<Rightarrow> breaker \<times> metric list" where
  "breaker_reset cfg cb =
     (cb\<lparr>cb_state := CLOSED, failure_count := 0, success_count := 0,
         backoff_seconds := recovery_timeout cfg, last_failure_time := None\<rparr>, [transition CLOSED])"

definition is_open :: "breaker \<Rightarrow> bool" where
  "is_open cb = (cb_state cb = OPEN)"

subsection \<open>The coroutine\<close>

text \<open>The object that owns a breaker keeps it under \<open>g\<close> and replaces it with \<open>s\<close>.\<close>

fun emit_all :: "metric list \<Rightarrow> ('l, unit) prog" where
  "emit_all [] = skip"
| "emit_all (m # ms) = andthen (emit m) (emit_all ms)"

definition breaker_step ::
    "('l \<Rightarrow> breaker) \<Rightarrow> (breaker \<Rightarrow> 'l \<Rightarrow> 'l) \<Rightarrow> (breaker \<Rightarrow> breaker \<times> metric list) \<Rightarrow> ('l, unit) prog" where
  "breaker_step g s f =
     bind get_local (\<lambda>l.
     andthen (modify_local (s (fst (f (g l))))) (emit_all (snd (f (g l)))))"

definition record_success :: "breaker_config \<Rightarrow> ('l \<Rightarrow> breaker) \<Rightarrow> (breaker \<Rightarrow> 'l \<Rightarrow> 'l) \<Rightarrow> ('l, unit) prog" where
  "record_success cfg g s = breaker_step g s (breaker_success cfg)"

definition breaker_guard :: "('l \<Rightarrow> breaker) \<Rightarrow> (breaker \<Rightarrow> 'l \<Rightarrow> 'l) \<Rightarrow> ('l, unit) prog" where
  "breaker_guard g s =
     bind get_local (\<lambda>l.
     if cb_state (g l) = OPEN then
       bind datetime_now (\<lambda>now.
       if should_attempt_reset (g l) now then breaker_step g s breaker_half_open
       else bind datetime_now (\<lambda>now. Raise (circuit_open_error (time_until_retry (g l) now))))
     else skip)"

definition breaker_call ::
    "breaker_config \<Rightarrow> ('l \<Rightarrow> breaker) \<Rightarrow> (breaker \<Rightarrow> 'l \<Rightarrow> 'l) \<Rightarrow> ('l, 'a) prog \<Rightarrow> ('l, 'a) prog" where
  "breaker_call cfg g s coro =
     andthen (breaker_guard g s)
       (except is_exception
         (bind coro (\<lambda>result. andthen (record_success cfg g s) (Ret result)))
         (\<lambda>e. bind datetime_now (\<lambda>now.
            andthen (breaker_step g s (breaker_failure cfg e now)) (Raise e))))"

subsection \<open>The breaker's invariant\<close>

definition config_ok :: "breaker_config \<Rightarrow> bool" where
  "config_ok cfg = (1 \<le> failure_threshold cfg \<and> 1 \<le> success_threshold cfg \<and>
     1 \<le> recovery_timeout cfg \<and> recovery_timeout cfg \<le> max_backoff cfg \<and> 1 \<le> backoff_multiplier cfg)"

definition breaker_ok :: "breaker_config \<Rightarrow> breaker \<Rightarrow> bool" where
  "breaker_ok cfg cb =
     (recovery_timeout cfg \<le> backoff_seconds cb \<and> backoff_seconds cb \<le> max_backoff cfg \<and>
      0 \<le> failure_count cb \<and> 0 \<le> success_count cb \<and>
      (cb_state cb = CLOSED \<longrightarrow> failure_count cb < failure_threshold cfg) \<and>
      (cb_state cb = HALF_OPEN \<longrightarrow> success_count cb < success_threshold cfg) \<and>
      (cb_state cb = OPEN \<longrightarrow> last_failure_time cb \<noteq> None))"

lemma next_backoff_bounds:
  assumes "config_ok cfg" and "backoff \<le> max_backoff cfg" and "recovery_timeout cfg \<le> backoff"
  shows "backoff \<le> next_backoff cfg backoff suggested" "next_backoff cfg backoff suggested \<le> max_backoff cfg"
proof -
  have "(of_int backoff :: rat) \<le> of_int backoff * backoff_multiplier cfg"
    using assms mult_left_mono [of 1 "backoff_multiplier cfg" "of_int backoff"]
    by (simp add: config_ok_def)
  then have "(of_int backoff :: rat) \<le>
      min (max (of_int backoff * backoff_multiplier cfg) (of_int suggested)) (of_int (max_backoff cfg))"
    using assms by auto
  then show "backoff \<le> next_backoff cfg backoff suggested"
    unfolding next_backoff_def by (rule iffD2 [OF le_floor_iff])
  show "next_backoff cfg backoff suggested \<le> max_backoff cfg"
    by (simp add: next_backoff_def floor_le_iff min_less_iff_disj)
qed

lemma next_backoff_integral:
  assumes "backoff_multiplier cfg = of_int m"
  shows "next_backoff cfg backoff suggested = min (max (backoff * m) suggested) (max_backoff cfg)"
proof -
  have "min (max (of_int backoff * of_int m) (of_int suggested)) (of_int (max_backoff cfg) :: rat) =
    of_int (min (max (backoff * m) suggested) (max_backoff cfg))"
    by (simp add: of_int_max of_int_min)
  then show ?thesis
    by (simp add: next_backoff_def assms del: of_int_min of_int_max)
qed

lemma ok_new: "config_ok cfg \<Longrightarrow> breaker_ok cfg (new_breaker cfg)"
  by (simp add: config_ok_def breaker_ok_def new_breaker_def)

lemma ok_reset: "config_ok cfg \<Longrightarrow> breaker_ok cfg (fst (breaker_reset cfg cb))"
  by (simp add: config_ok_def breaker_ok_def breaker_reset_def)

lemma ok_half_open: "config_ok cfg \<Longrightarrow> breaker_ok cfg cb \<Longrightarrow> breaker_ok cfg (fst (breaker_half_open cb))"
  by (simp add: config_ok_def breaker_ok_def breaker_half_open_def)

lemma ok_success: "config_ok cfg \<Longrightarrow> breaker_ok cfg cb \<Longrightarrow> breaker_ok cfg (fst (breaker_success cfg cb))"
  by (auto simp: config_ok_def breaker_ok_def breaker_success_def Let_def)

lemma ok_failure:
  assumes "config_ok cfg" and "breaker_ok cfg cb"
  shows "breaker_ok cfg (fst (breaker_failure cfg e now cb))"
  using assms next_backoff_bounds [OF assms(1), of "backoff_seconds cb" "get_backoff_duration e"]
  by (auto simp: breaker_ok_def breaker_failure_def Let_def)

subsection \<open>Reachable breakers\<close>

text \<open>The states of a breaker through any sequence of its methods, at any moments. An open
  breaker becomes half-open only when its waiting time is over.\<close>

inductive breaker_reach :: "breaker_config \<Rightarrow> breaker \<Rightarrow> bool" for cfg where
  reach_new: "breaker_reach cfg (new_breaker cfg)"
| reach_success: "breaker_reach cfg cb \<Longrightarrow> breaker_reach cfg (fst (breaker_success cfg cb))"
| reach_failure: "breaker_reach cfg cb \<Longrightarrow> breaker_reach cfg (fst (breaker_failure cfg e now cb))"
| reach_half_open: "breaker_reach cfg cb \<Longrightarrow> cb_state cb = OPEN \<Longrightarrow> should_attempt_reset cb now \<Longrightarrow>
    breaker_reach cfg (fst (breaker_half_open cb))"
| reach_reset: "breaker_reach cfg cb \<Longrightarrow> breaker_reach cfg (fst (breaker_reset cfg cb))"

inductive_cases breaker_reachE: "breaker_reach cfg cb"

lemma reach_ok:
  assumes "breaker_reach cfg cb" and "config_ok cfg"
  shows "breaker_ok cfg cb"
  using assms(1)
  by induction (use assms(2) in \<open>auto simp: ok_new ok_success ok_failure ok_half_open ok_reset\<close>)

text \<open>The specification automaton: the state changes that \<^verbatim>\<open>CircuitState\<close> documents.\<close>

fun circuit_edge :: "circuit_state \<Rightarrow> circuit_state \<Rightarrow> bool" where
  "circuit_edge CLOSED OPEN = True"
| "circuit_edge OPEN HALF_OPEN = True"
| "circuit_edge HALF_OPEN OPEN = True"
| "circuit_edge HALF_OPEN CLOSED = True"
| "circuit_edge st st' = (st = st')"

lemma edges:
  "circuit_edge (cb_state cb) (cb_state (fst (breaker_success cfg cb)))"
  "circuit_edge (cb_state cb) (cb_state (fst (breaker_failure cfg e now cb)))"
  "cb_state cb = OPEN \<Longrightarrow> circuit_edge (cb_state cb) (cb_state (fst (breaker_half_open cb)))"
  by (cases "cb_state cb"; simp add: breaker_success_def breaker_failure_def breaker_half_open_def Let_def)+

text \<open>A change of state, and nothing else, is counted; the count names the new state.\<close>

lemma transitions_counted:
  "snd (breaker_success cfg cb) =
     (if cb_state (fst (breaker_success cfg cb)) = cb_state cb then [] else [transition CLOSED])"
  "cb_state cb \<noteq> OPEN \<Longrightarrow> snd (breaker_failure cfg e now cb) =
     (if cb_state (fst (breaker_failure cfg e now cb)) = cb_state cb then [] else [transition OPEN])"
  by (auto simp: breaker_success_def breaker_failure_def Let_def)

subsection \<open>Waiting\<close>

lemma retry_enough:
  assumes "elapsed now' now \<ge> 1000000 * time_until_retry cb now"
  shows "should_attempt_reset cb now'"
proof (cases "last_failure_time cb")
  case (Some f)
  have "elapsed now' f = elapsed now' now + elapsed now f"
    by (simp add: elapsed_def)
  moreover have "1000000 * time_until_retry cb now \<ge> 1000000 * backoff_seconds cb - elapsed now f"
    using Some by (simp add: time_until_retry_def)
  ultimately show ?thesis
    using assms Some by (simp add: should_attempt_reset_def)
qed (simp add: should_attempt_reset_def)

lemma retry_not_too_long:
  assumes "last_failure_time cb = Some f" and "0 \<le> elapsed now f" and "\<not> should_attempt_reset cb now"
  shows "1 \<le> time_until_retry cb now" "time_until_retry cb now \<le> backoff_seconds cb"
    "1000000 * (time_until_retry cb now - 1) < 1000000 * backoff_seconds cb - elapsed now f"
  using assms by (simp_all add: should_attempt_reset_def time_until_retry_def)

subsection \<open>Counting failures and successes\<close>

definition fail_with :: "breaker_config \<Rightarrow> pyexn \<times> datetime \<Rightarrow> breaker \<Rightarrow> breaker" where
  "fail_with cfg = (\<lambda>(e, now) cb. fst (breaker_failure cfg e now cb))"

lemma failures_count:
  "failure_count (fold (fail_with cfg) fs cb) = failure_count cb + int (length fs)"
  by (induction fs arbitrary: cb) (auto simp: fail_with_def breaker_failure_def Let_def)

lemma closed_below_threshold:
  "cb_state cb = CLOSED \<Longrightarrow> failure_count cb + int (length fs) < failure_threshold cfg \<Longrightarrow>
     cb_state (fold (fail_with cfg) fs cb) = CLOSED \<and>
     backoff_seconds (fold (fail_with cfg) fs cb) = backoff_seconds cb"
  by (induction fs arbitrary: cb) (auto simp: fail_with_def breaker_failure_def Let_def)

lemma opens_at_threshold:
  assumes "cb_state cb = CLOSED" and "failure_count cb + int (length fs) + 1 = failure_threshold cfg"
  shows "cb_state (fold (fail_with cfg) (fs @ [f]) cb) = OPEN"
  using closed_below_threshold [of cb fs cfg] failures_count [of cfg fs cb] assms
  by (auto simp: fail_with_def breaker_failure_def Let_def split: prod.split)

text \<open>A half-open breaker counts its successes, and closes with the one that reaches the threshold.\<close>

lemma successes_close:
  assumes "config_ok cfg" and "cb_state cb = HALF_OPEN" and "success_count cb = 0"
  defines "cb' \<equiv> \<lambda>n. ((\<lambda>cb. fst (breaker_success cfg cb)) ^^ n) cb"
  shows "if int n < success_threshold cfg
    then cb_state (cb' n) = HALF_OPEN \<and> success_count (cb' n) = int n \<and> backoff_seconds (cb' n) = backoff_seconds cb
    else cb_state (cb' n) = CLOSED \<and> failure_count (cb' n) = 0 \<and> backoff_seconds (cb' n) = recovery_timeout cfg"
proof (induction n)
  case 0
  with assms(1-3) show ?case by (simp add: cb'_def config_ok_def)
next
  case (Suc n)
  have "cb' (Suc n) = fst (breaker_success cfg (cb' n))" by (simp add: cb'_def)
  with Suc show ?case by (auto simp: breaker_success_def Let_def split: if_splits)
qed

text \<open>Failed recoveries multiply the waiting time up to its bound.\<close>

definition failed_recovery :: "breaker_config \<Rightarrow> pyexn \<times> datetime \<Rightarrow> breaker \<Rightarrow> breaker" where
  "failed_recovery cfg f cb = fail_with cfg f (fst (breaker_half_open cb))"

lemma backoff_grows:
  assumes "backoff_multiplier cfg = of_int m" and "1 \<le> m" and "1 \<le> backoff_seconds cb"
    and "backoff_seconds cb \<le> max_backoff cfg"
    and "\<forall>(e, now) \<in> set fs. get_backoff_duration e \<le> backoff_seconds cb * m"
  shows "backoff_seconds (fold (failed_recovery cfg) fs cb) =
    min (backoff_seconds cb * m ^ length fs) (max_backoff cfg)"
  using assms(3-5)
proof (induction fs arbitrary: cb)
  case (Cons f fs)
  obtain e now where f: "f = (e, now)" by (cases f)
  let ?cb = "failed_recovery cfg f cb"
  have b: "backoff_seconds ?cb = min (backoff_seconds cb * m) (max_backoff cfg)"
    using Cons.prems(3) f
    by (simp add: failed_recovery_def fail_with_def breaker_failure_def breaker_half_open_def Let_def
        next_backoff_integral [OF assms(1)])
  have grow: "backoff_seconds cb \<le> backoff_seconds cb * m"
    using Cons.prems(1) assms(2) mult_left_mono [of 1 m "backoff_seconds cb"] by simp
  show ?case
  proof (cases "backoff_seconds cb * m \<le> max_backoff cfg")
    case True
    have "backoff_seconds cb * m \<le> backoff_seconds cb * m * m"
      using Cons.prems(1) assms(2) grow mult_left_mono [of 1 m "backoff_seconds cb * m"] by simp
    then have "\<forall>(e, now) \<in> set fs. get_backoff_duration e \<le> backoff_seconds ?cb * m"
      using Cons.prems(3) b True by (auto simp: min_def)
    with Cons.IH [of ?cb] b True grow Cons.prems(1) show ?thesis
      by (simp add: mult.assoc)
  next
    case False
    have max: "backoff_seconds (fold (failed_recovery cfg) fs cb') = max_backoff cfg"
      if "backoff_seconds cb' = max_backoff cfg" for cb'
      using that Cons.prems(1,2) assms(2)
    proof (induction fs arbitrary: cb')
      case (Cons g gs)
      have "min (max (max_backoff cfg * m) x) (max_backoff cfg) = max_backoff cfg" for x
        using Cons.prems assms(2) mult_left_mono [of 1 m "max_backoff cfg"] by linarith
      then have "backoff_seconds (failed_recovery cfg g cb') = max_backoff cfg"
        using Cons.prems(1)
        by (auto simp: failed_recovery_def fail_with_def breaker_failure_def breaker_half_open_def Let_def
            next_backoff_integral [OF assms(1)] split: prod.split)
      with Cons show ?case by simp
    qed simp
    have "1 \<le> m ^ length fs"
      using assms(2) by simp
    then have "backoff_seconds cb * m * 1 \<le> backoff_seconds cb * m * m ^ length fs"
      using Cons.prems(1) assms(2) by (intro mult_left_mono) auto
    then show ?thesis
      using max [of ?cb] b False by (simp add: mult.assoc)
  qed
qed simp

subsection \<open>The wrapped coroutine\<close>

lemma run_bind:
  "run S (bind p f) l w =
     (case run S p l w of (Inl e, l', w') \<Rightarrow> (Inl e, l', w') | (Inr x, l', w') \<Rightarrow> run S (f x) l' w')"
  by (induction p arbitrary: l w) (auto split: prod.split)

text \<open>While the clock stands before the end of the waiting time, an open breaker answers at
  once, whatever it wraps.\<close>

lemma open_fails_fast:
  assumes "cb_state (g l) = OPEN" and "\<not> should_attempt_reset (g l) now"
    and "ask S Now w = (Inr (Time_Reply now), w')" and "ask S Now w' = (Inr (Time_Reply now'), w'')"
  shows "run S (breaker_call cfg g s coro) l w =
    (Inl (circuit_open_error (time_until_retry (g l) now')), l, w'')"
  using assms
  by (simp add: breaker_call_def breaker_guard_def andthen_def run_bind get_local_def datetime_now_def)

lemma wp_emit_all:
  "(\<And>ms. Q (Inr ()) l (v\<lparr>metrics := ms\<rparr>)) \<Longrightarrow> wp (emit_all ms) Q l v"
proof (induction ms arbitrary: v)
  case Nil
  from Nil [of "metrics v"] show ?case by (simp add: wp_basic)
next
  case (Cons m ms)
  then show ?case by (simp add: wp_andthen wp_basic)
qed

lemma wp_breaker_step:
  "(\<And>ms. Q (Inr ()) (s (fst (f (g l))) l) (v\<lparr>metrics := ms\<rparr>)) \<Longrightarrow> wp (breaker_step g s f) Q l v"
  unfolding breaker_step_def by (simp add: wp_bind wp_andthen wp_basic wp_emit_all)

text \<open>A call keeps the breaker well formed if the coroutine does.\<close>

lemma breaker_call_ok:
  assumes lens: "\<And>b l. g (s b l) = b" and cfg: "config_ok cfg" and ok: "breaker_ok cfg (g l)"
    and coro: "\<And>l v. breaker_ok cfg (g l) \<Longrightarrow> wp coro (\<lambda>r l' v'. breaker_ok cfg (g l')) l v"
  shows "wp (breaker_call cfg g s coro) (\<lambda>r l' v'. breaker_ok cfg (g l')) l v"
proof -
  have guard: "wp (breaker_guard g s) (\<lambda>r l' v'. breaker_ok cfg (g l')) l v"
    using ok cfg lens unfolding breaker_guard_def
    by (auto simp: wp_bind wp_basic wp_now ok_half_open intro!: wp_breaker_step)
  have body: "wp (except is_exception
      (bind coro (\<lambda>result. andthen (record_success cfg g s) (Ret result)))
      (\<lambda>e. bind datetime_now (\<lambda>now. andthen (breaker_step g s (breaker_failure cfg e now)) (Raise e))))
      (\<lambda>r l' v'. breaker_ok cfg (g l')) l' v'" if "breaker_ok cfg (g l')" for l' v'
    unfolding wp_except wp_bind record_success_def
    by (rule wp_mono [OF coro [OF that]])
       (auto simp: wp_bind wp_andthen wp_now ok_failure ok_success cfg lens
          intro!: wp_breaker_step split: sum.split)
  show ?thesis
    unfolding breaker_call_def by (rule wp_seq_andthen [OF guard], assumption, rule body)
qed

end
