(* ===== verification/Recovery_Theorems.thy ===== *)
theory Recovery_Theorems
  imports Error_Handler Circuit_Breaker Ref_Runs
begin

section \<open>What the error handler and the circuit breaker promise\<close>

text \<open>
  The properties of src/stream/error\_handler.py and src/stream/circuit\_breaker.py, from the
  lemmas of theories Error\_Handler and Circuit\_Breaker. The default configuration of the
  service is the one the witnesses use.
\<close>

definition default_config :: breaker_config where
  "default_config = \<lparr>failure_threshold = 5, recovery_timeout = 60, success_threshold = 2,
     backoff_multiplier = 2, max_backoff = 3600\<rparr>"

lemma default_config_ok [simp]: "config_ok default_config"
  by (simp add: config_ok_def default_config_def)

lemma default_config_sel [simp]:
  "failure_threshold default_config = 5" "recovery_timeout default_config = 60"
  "success_threshold default_config = 2" "backoff_multiplier default_config = 2" "max_backoff default_config = 3600"
  by (simp_all add: default_config_def)

subsection \<open>The circuit breaker\<close>

text \<open>C17: whatever successes, failures, recovery attempts and resets a circuit breaker goes
  through, its backoff stays between the recovery timeout and the maximum, a closed breaker
  is below the failure threshold, a half-open one below the success threshold, and an open one
  knows when it failed last.\<close>

theorem breaker_invariant:
  assumes "breaker_reach cfg cb" and "config_ok cfg"
  shows "breaker_ok cfg cb"
  using assms by (rule reach_ok)

theorem breaker_invariant_witness:
  "breaker_ok default_config (fst (breaker_failure default_config (timeout_error []) default_time
     (fst (breaker_success default_config (new_breaker default_config)))))"
  by (rule breaker_invariant [OF reach_failure [OF reach_success [OF reach_new]] default_config_ok])

text \<open>A closed breaker opens at exactly the failure threshold: any fewer consecutive
  failures leave it closed with its backoff unchanged, and the one that reaches the threshold
  opens it.\<close>

theorem breaker_opens_at_threshold:
  assumes "cb_state cb = CLOSED"
    and "failure_count cb + int (length fs) + 1 = failure_threshold cfg"
  shows "cb_state (fold (fail_with cfg) fs cb) = CLOSED \<and>
    backoff_seconds (fold (fail_with cfg) fs cb) = backoff_seconds cb \<and>
    cb_state (fold (fail_with cfg) (fs @ [f]) cb) = OPEN"
  using closed_below_threshold [OF assms(1)] opens_at_threshold [OF assms] assms(2) by simp

theorem breaker_opens_at_threshold_witness:
  "cb_state (fold (fail_with default_config) (replicate 4 (timeout_error [], default_time) @ [(response_error, default_time)])
     (new_breaker default_config)) = OPEN"
  using breaker_opens_at_threshold [of "new_breaker default_config" "replicate 4 (timeout_error [], default_time)"
    default_config "(response_error, default_time)"]
  by (simp add: new_breaker_def)

text \<open>While an open breaker's recovery window lasts, a call through it raises
  \<^verbatim>\<open>CircuitOpenError\<close> at once: the wrapped coroutine does not run and the breaker does not
  change. The delay the error carries, counted from the moment it was computed, is enough for
  the next attempt to be let through.\<close>

theorem breaker_fails_fast:
  assumes "cb_state (g l) = OPEN" and "\<not> should_attempt_reset (g l) now"
    and "ask S Now w = (Inr (Time_Reply now), w')" and "ask S Now w' = (Inr (Time_Reply now'), w'')"
  shows "run S (breaker_call cfg g s coro) l w =
      (Inl (circuit_open_error (time_until_retry (g l) now')), l, w'') \<and>
    (\<forall>later. elapsed later now' \<ge> 1000000 * time_until_retry (g l) now' \<longrightarrow> should_attempt_reset (g l) later)"
  using open_fails_fast [where g = g and s = s, OF assms] retry_enough by blast

definition open_breaker :: breaker where
  "open_breaker = \<lparr>cb_state = OPEN, failure_count = 5, success_count = 0,
     last_failure_time = Some default_time, backoff_seconds = 120\<rparr>"

theorem breaker_fails_fast_witness:
  "run ref_services (breaker_call default_config id (\<lambda>b _. b) (Raise response_error :: (breaker, unit) prog))
     open_breaker (ref_start empty_view []) =
   (Inl (circuit_open_error 120), open_breaker, (ref_start empty_view [])\<lparr>wall := []\<rparr>)"
proof -
  have t: "time_until_retry (id open_breaker) default_time = 120"
    by (simp add: time_until_retry_def open_breaker_def elapsed_def)
  have n: "\<not> should_attempt_reset (id open_breaker) default_time"
    by (simp add: should_attempt_reset_def open_breaker_def elapsed_def)
  have o1: "cb_state (id open_breaker) = OPEN" by (simp add: open_breaker_def)
  have "ask ref_services Now (ref_start empty_view []) =
      (Inr (Time_Reply default_time), (ref_start empty_view [])\<lparr>wall := []\<rparr>)"
    "ask ref_services Now ((ref_start empty_view [])\<lparr>wall := []\<rparr>) =
      (Inr (Time_Reply default_time), (ref_start empty_view [])\<lparr>wall := []\<rparr>)"
    by (simp_all add: next_wall_def)
  from breaker_fails_fast [where g = id, OF o1 n this, of default_config "\<lambda>b _. b" "Raise response_error :: (breaker, unit) prog"]
  show ?thesis unfolding t by (elim conjE)
qed

text \<open>C21: each failed recovery multiplies the backoff, up to the maximum: after \<open>n\<close> of them,
  none suggesting a longer wait, it is \<open>min (backoff * m ^ n) max_backoff\<close>.\<close>

theorem breaker_backoff_exponential:
  assumes "backoff_multiplier cfg = of_int m" and "1 \<le> m" and "1 \<le> backoff_seconds cb"
    and "backoff_seconds cb \<le> max_backoff cfg"
    and "list_all (\<lambda>(e, now). get_backoff_duration e \<le> backoff_seconds cb * m) fs"
  shows "backoff_seconds (fold (failed_recovery cfg) fs cb) = min (backoff_seconds cb * m ^ length fs) (max_backoff cfg)"
  using backoff_grows [OF assms(1-4)] assms(5) by (simp add: list_all_iff)

theorem breaker_backoff_exponential_witness:
  "backoff_seconds (fold (failed_recovery default_config) [(timeout_error [], default_time), (response_error, default_time), (timeout_error [], default_time)] open_breaker) = 960"
  using breaker_backoff_exponential [of default_config 2 open_breaker
    "[(timeout_error [], default_time), (response_error, default_time), (timeout_error [], default_time)]"]
  by (simp add: open_breaker_def get_backoff_duration_def)

text \<open>C22: a breaker that has just become half-open closes with exactly the success that reaches the threshold: with fewer it
  stays half-open, its backoff as it was, and one failure opens it again; from then on it is closed, its failure
  count and its backoff afresh.\<close>

theorem breaker_recovers:
  fixes n :: nat
  assumes "config_ok cfg" and "cb_state cb = HALF_OPEN" and "success_count cb = 0"
  defines "cb' \<equiv> ((\<lambda>cb. fst (breaker_success cfg cb)) ^^ n) cb"
  shows "if int n < success_threshold cfg
    then cb_state cb' = HALF_OPEN \<and> success_count cb' = int n \<and> backoff_seconds cb' = backoff_seconds cb \<and>
      (\<forall>e now. cb_state (fst (breaker_failure cfg e now cb')) = OPEN)
    else cb_state cb' = CLOSED \<and> failure_count cb' = 0 \<and> backoff_seconds cb' = recovery_timeout cfg"
  using successes_close [OF assms(1-3), of n] by (auto simp: cb'_def breaker_failure_def Let_def)

theorem breaker_recovers_witness:
  "cb_state (((\<lambda>cb. fst (breaker_success default_config cb)) ^^ 1) (fst (breaker_half_open open_breaker))) = HALF_OPEN \<and>
   cb_state (((\<lambda>cb. fst (breaker_success default_config cb)) ^^ 2) (fst (breaker_half_open open_breaker))) = CLOSED"
  using breaker_recovers [of default_config "fst (breaker_half_open open_breaker)" 1]
    breaker_recovers [of default_config "fst (breaker_half_open open_breaker)" 2]
  by (simp add: breaker_half_open_def)

subsection \<open>The error handler\<close>

text \<open>At most one of the worker's three reactions to an error applies to it, but for
  an error that both requires a backoff and is fatal; an error is retryable exactly if it is
  retried at once or after a backoff and does not make the worker give up.\<close>

theorem recovery_decisions:
  "\<not> (should_retry_transient e \<and> should_retry_with_backoff e) \<and>
   \<not> (should_retry_transient e \<and> should_abandon_stream e) \<and>
   (is_retryable e = ((should_retry_transient e \<or> should_retry_with_backoff e) \<and> \<not> should_abandon_stream e))"
  using decisions_exclusive [of e] retryable_split [of e] by blast

text \<open>\<^verbatim>\<open>record_error\<close> keeps at most the last hundred errors of a stream, the new one
  first, and has them expire a day later. Nothing but that stream's list is written in
  Redis. (The list may also have expired while it ran.)\<close>

theorem record_error_bounded:
  assumes "documented_services S V" and "sound (rdb (V w))"
    and "run S (record_error db i et msg rec) l w = (Inr (), l', w')"
  shows "length (errors_of (rdb (V w')) i) \<le> 100 \<and> error_recorded i et msg rec (rdb (V w)) (rdb (V w')) \<and>
    framed {error_key i} (rdb (V w)) (rdb (V w'))"
proof -
  have e: "error_recorded i et msg rec (rdb (V w)) (rdb (V w'))"
    using documented_services.run_wp [OF assms(1,3) wp_record_error [OF assms(2)]] by simp
  have "frame {error_key i} (rdb (V w)) (V w')"
    by (rule keeps_run [OF assms(1) frame_record_error frame_refl assms(3)])
  with e show ?thesis
    by (auto simp: frame_def error_recorded_def entry_stored_def)
qed

lemmas record_run = ref_run record_error_def store_entry_def fresh_uuid_nonempty

theorem record_error_bounded_witness:
  "\<exists>w'. run ref_services (record_error False ''s1'' ''TimeoutError'' ''late'' True) () (ref_start empty_view []) =
     (Inr (), (), w') \<and> length (errors_of (rdb (rview w')) ''s1'') \<le> 100"
proof -
  have "\<exists>w'. run ref_services (record_error False ''s1'' ''TimeoutError'' ''late'' True) () (ref_start empty_view []) =
     (Inr (), (), w')"
    by (simp add: record_run)
  then obtain w' where e: "run ref_services (record_error False ''s1'' ''TimeoutError'' ''late'' True) ()
     (ref_start empty_view []) = (Inr (), (), w')" by blast
  from record_error_bounded [OF ref.documented_services_axioms _ e]
  have "length (errors_of (rdb (rview w')) ''s1'') \<le> 100" by simp
  with e show ?thesis by blast
qed

text \<open>C23: what \<^verbatim>\<open>get_recent_errors\<close> returns within a day after an error was recorded starts with that error, decoded to the
  very entry that was encoded, and goes on with those recorded before it. (Unless the older list's lifetime ended
  while the error was being recorded.)\<close>

theorem recorded_error_read_back:
  assumes "documented_services S V" and "sound (rdb (V w))" and "1 \<le> limit"
    and "run S (record_error db i et msg rec) l w = (Inr (), l1, w1)"
    and "run S (get_recent_errors i limit) l1 w1 = (Inr ds, l2, w2)"
    and "\<not> expired (rclock (rdb (V w1))) (rdb (V w)) (error_key i)"
    and "rclock (rdb (V w2)) < rclock (rdb (V w1)) + 1000 * error_ttl"
  shows "\<exists>uid ts older. ds = error_entry uid et msg rec ts # older \<and>
     load_entries (take (nat limit - 1) (take 99 (errors_of (rdb (V w)) i))) = (Ret older :: (unit, dict list) prog)"
proof -
  let ?old = "errors_of (rdb (V w)) i"
  obtain uid ts where e: "entry_stored i (json_dumps (error_entry uid et msg rec ts)) (rdb (V w)) (rdb (V w1))" (is "entry_stored i ?x _ _")
    using documented_services.run_wp [OF assms(1,4) wp_record_error [OF assms(2)]] by (auto simp: error_recorded_def)
  then have s1: "sound (rdb (V w1))" by (simp add: entry_stored_def)
  have p: "passed (rdb (V w1)) (rdb (V w2))"
      "load_entries (list_range 0 (limit - 1) (errors_of (rdb (V w2)) i)) = (Ret ds :: ('b, dict list) prog)"
    using documented_services.run_wp [OF assms(1,5) wp_get_recent_errors [OF s1]] by simp_all
  have "errors_of (rdb (V w1)) i = ?x # take 99 ?old" "rttl (rdb (V w1)) (error_key i) = Some (rclock (rdb (V w1)) + 1000 * error_ttl)"
    using e assms(6) by (auto simp: entry_stored_def numeral_eq_Suc)
  with p(1) assms(7) have "errors_of (rdb (V w2)) i = ?x # take 99 ?old"
    by (auto simp: passed_def errors_at_time expired_def)
  moreover have "list_range 0 (limit - 1) xs = take (nat limit) xs" for xs :: "string list"
    using assms(3) by (simp add: list_range_def)
  moreover obtain n where "nat limit = Suc n" using assms(3) by (cases "nat limit") auto
  ultimately have "load_entries (?x # take n (take 99 ?old)) = (Ret ds :: ('b, dict list) prog)" using p(2) by simp
  then obtain older where "ds = error_entry uid et msg rec ts # older" "load_entries (take n (take 99 ?old)) = (Ret older :: ('b, dict list) prog)"
    by (auto simp: json_loads_dumps entry_keys bind_returns)
  with load_entries_any [of "take n (take 99 ?old)" older] \<open>nat limit = Suc n\<close> show ?thesis by auto
qed

theorem recorded_error_read_back_witness:
  "\<exists>w1 w2 uid ts. run ref_services (record_error False ''s1'' ''TimeoutError'' ''late'' True) () (ref_start empty_view []) =
     (Inr (), (), w1) \<and>
     run ref_services (get_recent_errors ''s1'' 10) () w1 = (Inr [error_entry uid ''TimeoutError'' ''late'' True ts], (), w2)"
proof -
  have "\<exists>w1. run ref_services (record_error False ''s1'' ''TimeoutError'' ''late'' True) () (ref_start empty_view []) =
     (Inr (), (), w1) \<and> rclock (rdb (rview w1)) = 0 \<and>
     (\<exists>ds w2. run ref_services (get_recent_errors ''s1'' 10) () w1 = (Inr ds, (), w2) \<and> rclock (rdb (rview w2)) = 0)"
    by (simp add: record_run get_recent_errors_def redis_lrange_def list_range_def json_loads_dumps entry_keys error_ttl_def
        put_list_def)
  then obtain w1 ds w2 where
    e: "run ref_services (record_error False ''s1'' ''TimeoutError'' ''late'' True) () (ref_start empty_view []) = (Inr (), (), w1)"
      "run ref_services (get_recent_errors ''s1'' 10) () w1 = (Inr ds, (), w2)" and
    t: "rclock (rdb (rview w1)) = 0" "rclock (rdb (rview w2)) = 0" by blast
  have "errors_of (rdb empty_view) i = []" "\<not> expired t (rdb empty_view) k" for i t k
    by (simp_all add: errors_of_def ref_run)
  with recorded_error_read_back [OF ref.documented_services_axioms _ _ e] t
  obtain uid ts where "ds = [error_entry uid ''TimeoutError'' ''late'' True ts]" by (auto simp: error_ttl_def)
  with e show ?thesis by blast
qed

end
