(* ===== verification/Outcomes.thy ===== *)
theory Outcomes
  imports Interleaving
begin

section \<open>What a program can raise\<close>

text \<open>
  \<open>raises P p\<close>: every exception \<open>p\<close> ends with, on any path of answers and attribute values,
  satisfies \<open>P\<close>. It does not depend on the state, so it holds of a coroutine whatever runs
  beside it.
\<close>

primrec raises :: "(pyexn \<Rightarrow> bool) \<Rightarrow> ('l, 'a) prog \<Rightarrow> bool" where
  "raises P (Ret x) = True"
| "raises P (Raise e) = P e"
| "raises P (Call c k) = (\<forall>r. raises P (k r))"
| "raises P (Get_Local k) = (\<forall>l. raises P (k l))"
| "raises P (Put_Local l p) = raises P p"
| "raises P (Emit m p) = raises P p"

named_theorems raises_rules \<open>the exceptions of composed programs\<close>

lemma raises_mono: "raises P p \<Longrightarrow> (\<And>e. P e \<Longrightarrow> Q e) \<Longrightarrow> raises Q p"
  by (induction p) auto

lemma raises_any [raises_rules]: "raises (\<lambda>_. True) p"
  by (induction p) auto

lemma raises_bind [raises_rules]: "raises P p \<Longrightarrow> (\<And>x. raises P (f x)) \<Longrightarrow> raises P (bind p f)"
  by (induction p) auto

lemma raises_andthen [raises_rules]: "raises P p \<Longrightarrow> raises P q \<Longrightarrow> raises P (andthen p q)"
  by (simp add: andthen_def raises_bind)

lemma raises_except: "raises (\<lambda>e. \<not> g e \<longrightarrow> P e) p \<Longrightarrow> (\<And>e. g e \<Longrightarrow> raises P (h e)) \<Longrightarrow> raises P (except g p h)"
  by (induction p) auto

text \<open>A handler for everything \<open>P\<close> does not allow.\<close>

lemma raises_caught: "(\<And>e. \<not> g e \<Longrightarrow> P e) \<Longrightarrow> (\<And>e. g e \<Longrightarrow> raises P (h e)) \<Longrightarrow> raises P (except g p h)"
  by (rule raises_except) (auto intro: raises_mono [OF raises_any])

lemma raises_finally [raises_rules]: "raises P p \<Longrightarrow> raises P q \<Longrightarrow> raises P (finally_do p q)"
  by (induction p) (auto intro!: raises_bind)

lemma raises_attempt [raises_rules]: "raises P (attempt p)"
  unfolding attempt_def by (rule raises_caught) auto

lemma raises_basic [raises_rules]:
  "raises P (Ret x)" "raises P skip" "raises P get_local" "raises P (modify_local f)" "raises P (emit m)"
  by (simp_all add: skip_def get_local_def modify_local_def emit_def)

lemma raises_if [raises_rules]:
  "(b \<Longrightarrow> raises P p) \<Longrightarrow> (\<not> b \<Longrightarrow> raises P q) \<Longrightarrow> raises P (if b then p else q)"
  by simp

lemma raises_option [raises_rules]:
  "(x = None \<Longrightarrow> raises P p) \<Longrightarrow> (\<And>y. x = Some y \<Longrightarrow> raises P (f y)) \<Longrightarrow>
     raises P (case x of None \<Rightarrow> p | Some y \<Rightarrow> f y)"
  by (cases x) auto

lemma raises_sum [raises_rules]:
  "(\<And>e. r = Inl e \<Longrightarrow> raises P (f e)) \<Longrightarrow> (\<And>x. r = Inr x \<Longrightarrow> raises P (g x)) \<Longrightarrow>
     raises P (case r of Inl e \<Rightarrow> f e | Inr x \<Rightarrow> g x)"
  by (cases r) auto

lemma raises_prod [raises_rules]:
  "(\<And>x y. t = (x, y) \<Longrightarrow> raises P (f x y)) \<Longrightarrow> raises P (case t of (x, y) \<Rightarrow> f x y)"
  by (cases t) simp

lemma raises_let [raises_rules]: "(\<And>x. x = t \<Longrightarrow> raises P (f x)) \<Longrightarrow> raises P (let x = t in f x)"
  by simp

lemma raises_for_each [raises_rules]:
  "(\<And>x. x \<in> set xs \<Longrightarrow> raises P (f x)) \<Longrightarrow> raises P (for_each xs f)"
  by (induction xs) (auto intro: raises_rules)

text \<open>A program that only lets pass what \<^verbatim>\<open>except Exception\<close> does not catch.\<close>

abbreviation not_exception :: "pyexn \<Rightarrow> bool" where
  "not_exception e \<equiv> \<not> is_exception e"

lemma raises_catch_all [raises_rules]:
  "(\<And>e. raises not_exception (h e)) \<Longrightarrow> raises not_exception (except is_exception p h)"
  by (rule raises_caught) auto

text \<open>A loop that may run for ever counts its rounds down from a given number and then raises
  this, which no handler of the source catches: it stands for "still running".\<close>

definition out_of_rounds :: pyexn where
  "out_of_rounds = \<lparr>etype = [], emro = [], estr = [], eretry = 0\<rparr>"

lemma out_of_rounds_uncaught [simp]: "emro out_of_rounds = []"
  by (simp add: out_of_rounds_def)

subsection \<open>Runs\<close>

lemma run_raises: "raises P p \<Longrightarrow> run S p l w = (Inl e, l', w') \<Longrightarrow> P e"
proof (induction p arbitrary: l w)
  case (Call c k)
  obtain r w1 where "ask S c w = (r, w1)" by (cases "ask S c w")
  with Call.prems Call.IH [OF rangeI, of r l w1] show ?case by simp
next
  case (Get_Local k)
  from Get_Local.IH [OF rangeI] Get_Local.prems show ?case by simp
qed auto

end
