(* ===== verification/Cleanup.thy ===== *)
theory Cleanup
  imports Outcomes Registry_Spec
begin

section \<open>Background tasks and the cleanup of dead streams\<close>

text \<open>
  The two background tasks of src/tasks share the shape of their life cycle: \<^verbatim>\<open>start\<close>,
  \<^verbatim>\<open>stop\<close> and a loop that sleeps and works until \<^verbatim>\<open>_running\<close> is cleared. It is stated once
  here, over the attributes of the task's object. The loop counts its rounds down from a
  given number of them: its value says whether it left the loop or has rounds to go.
  Below it, \<^verbatim>\<open>DeadStreamCleanup\<close> of src/tasks/dead\_stream\_cleanup.py.
\<close>

subsection \<open>The life cycle of a background task\<close>

record background =
  bg_running :: bool
  bg_task :: bool  \<comment> \<open>whether the loop's task has been created\<close>

definition start_background :: "(background, unit) prog" where
  "start_background =
     bind get_local (\<lambda>self.
     if bg_running self then skip
     else modify_local (\<lambda>self. self\<lparr>bg_running := True, bg_task := True\<rparr>))"

text \<open>\<^verbatim>\<open>await asyncio.wait_for(self._task, timeout=5)\<close>; on a timeout the task is cancelled.\<close>

definition stop_background :: "string \<Rightarrow> (background, unit) prog" where
  "stop_background task =
     andthen (modify_local (\<lambda>self. self\<lparr>bg_running := False\<rparr>))
    (bind get_local (\<lambda>self.
     if bg_task self then
       except (\<lambda>e. isinstance e [Timeout_Error]) (wait_for (unit_call (Join_Task task)))
         (\<lambda>_. unit_call (Cancel_Task task))
     else skip))"

fun background_loop :: "nat \<Rightarrow> int \<Rightarrow> (background, unit) prog \<Rightarrow> (background, bool) prog" where
  "background_loop 0 interval work = Ret False"
| "background_loop (Suc n) interval work =
     bind get_local (\<lambda>self.
     if \<not> bg_running self then Ret True
     else
       bind (attempt (andthen (sleep_ms (1000 * interval)) work)) (\<lambda>r. case r of
         Inr _ \<Rightarrow> background_loop n interval work
       | Inl e \<Rightarrow>
           if is_cancelled e then Ret True
           else if is_exception e then background_loop n interval work
           else Raise e))"

subsection \<open>Dead streams\<close>

definition is_dead_stream :: "stream_data \<Rightarrow> bool" where
  "is_dead_stream stream =
     (let status = (case dict_get (sd_fields stream) ''status'' of None \<Rightarrow> [] | Some st \<Rightarrow> st)
      in status \<in> {''stopped'', ''error'', ''inactive''})"

text \<open>One round of the scan's loop: whether the stream was deleted.\<close>

definition retire_stream :: "stream_data \<Rightarrow> ('l, bool) prog" where
  "retire_stream stream =
     (let stream_id = dict_get (sd_fields stream) ''id'';
          status = dict_get (sd_fields stream) ''status'';
          updated_at = dict_get (sd_fields stream) ''updated_at''
      in if is_dead_stream stream then
           except is_exception
             (if truthy stream_id
              then delete_stream (or_empty stream_id) (or_none status) (or_none updated_at) False
              else Ret False)
             (\<lambda>_. Ret False)
         else Ret False)"

fun retire_streams :: "stream_data list \<Rightarrow> nat \<Rightarrow> ('l, nat) prog" where
  "retire_streams [] dead_count = Ret dead_count"
| "retire_streams (stream # streams) dead_count =
     bind (retire_stream stream) (\<lambda>deleted.
       retire_streams streams (if deleted then dead_count + 1 else dead_count))"

definition cleanup_sweep :: "('l, nat) prog" where
  "cleanup_sweep = bind list_streams (\<lambda>streams. retire_streams streams 0)"

text \<open>\<^verbatim>\<open>cleanup\<close>: an \<^verbatim>\<open>Exception\<close> makes the result \<^verbatim>\<open>error\<close>; the run is counted in every case.\<close>

definition cleanup :: "('l, unit) prog" where
  "cleanup =
     bind (attempt (bind cleanup_sweep (\<lambda>dead_count. emit (Inc_By ''cleanup_removed'' [] dead_count)))) (\<lambda>r.
     let result = (case r of Inl e \<Rightarrow> if is_exception e then ''error'' else ''success'' | Inr _ \<Rightarrow> ''success'') in
     andthen (emit (Inc ''cleanup_runs'' [result]))
       (case r of Inl e \<Rightarrow> if is_exception e then skip else Raise e | Inr _ \<Rightarrow> skip))"

definition cleanup_loop :: "nat \<Rightarrow> int \<Rightarrow> (background, bool) prog" where
  "cleanup_loop n cleanup_interval = background_loop n cleanup_interval cleanup"

subsection \<open>The loop survives its work\<close>

lemma raises_loop: "raises (\<lambda>e. \<not> is_cancelled e \<and> \<not> is_exception e) (background_loop n interval work)"
proof (induction n)
  case (Suc n)
  show ?case
    unfolding background_loop.simps
    by (intro raises_rules Suc) auto
qed simp

lemma raises_cleanup: "raises not_exception cleanup"
  unfolding cleanup_def by (intro raises_rules) auto

subsection \<open>What a sweep leaves alone\<close>

definition dead_status :: "string option \<Rightarrow> bool" where
  "dead_status st = (st \<in> {Some ''stopped'', Some ''error'', Some ''inactive''})"

text \<open>A stream that is not dead keeps its metadata, and every subreddit with an identity
  keeps it.\<close>

definition spared :: "rdb \<Rightarrow> view \<Rightarrow> bool" where
  "spared s v =
     (sound (rdb v) \<and>
      (\<forall>i. \<not> dead_status (meta_status s i) \<longrightarrow> meta_field (rdb v) i = meta_field s i) \<and>
      (\<forall>i. meta_field (rdb v) i \<in> {meta_field s i, (\<lambda>_. None)}) \<and>
      (\<forall>sub. ident s sub \<noteq> None \<longrightarrow> ident (rdb v) sub \<noteq> None))"

lemma dead_stream_status: "is_dead_stream stream \<Longrightarrow> dead_status (dict_get (sd_fields stream) ''status'')"
  by (auto simp: is_dead_stream_def dead_status_def Let_def split: option.splits if_splits)

lemma spared_later: "spared s v \<Longrightarrow> spared s (later t v)"
  by (simp add: spared_def)

lemma spared_frame [simp]:
  "spared s (v\<lparr>metrics := m\<rparr>) = spared s v" "spared s (v\<lparr>pgd := d\<rparr>) = spared s v"
  by (simp_all add: spared_def)

text \<open>The delete of a snapshot with a dead status, whatever becomes of its calls.\<close>

lemma spared_delete:
  assumes "spared s v" and "dead_status (Some st)"
  shows "spared s (with_rdb (redis_effect (Eval (delete_script i sub st up False))) v)"
proof (cases "deletable (rdb v) i st up")
  case True
  let ?s' = "redis_effect (Eval (delete_script i sub st up False)) (rdb v)"
  from assms have sv: "sound (rdb v)" by (simp add: spared_def)
  have m: "meta_field ?s' = (meta_field (rdb v))(i := (\<lambda>_. None))" "ident ?s' = (ident (rdb v))(sub := Some i)"
    using delete_script_effect(1) [OF sv True, of sub False] by (simp_all add: removed_def)
  have "st \<noteq> []" using assms(2) by (auto simp: dead_status_def)
  with True have "meta_status (rdb v) i = Some st"
    by (simp add: deletable_def unchanged_def meta_status_def meta_field_def)
  then have "meta_field (rdb v) i = meta_field s i" "dead_status (meta_status s i)"
    using assms by (auto simp: spared_def meta_status_def)
  with assms(1) m sound_delete_script [OF sv] show ?thesis by (auto simp: spared_def)
next
  case False
  with assms delete_script_effect(2) [of "rdb v"] show ?thesis
    by (simp add: spared_def)
qed

lemma keeps_spared_calls [keeps_rules]:
  "keeps (spared s) (redis_hgetall k)" "keeps (spared s) (redis_hgetalls ks)" "keeps (spared s) (redis_smembers k)"
  "kind_of k \<in> {All_Kind, Instance_Kind} \<Longrightarrow> keeps (spared s) (redis_do (Srem k xs))"
  by (auto simp: keeps_def wp_rules spared_later) (simp_all add: spared_def)

lemma keeps_spared_delete [keeps_rules]:
  "dead_status (Some st) \<Longrightarrow> keeps (spared s) (delete_stream i (Some st) up False)"
proof -
  assume d: "dead_status (Some st)"
  have "keeps (spared s) (redis_eval (delete_script i sub st (or_empty up) False))" for sub
    using spared_delete [OF spared_later d] spared_later
    by (auto simp: keeps_def wp_eval split: rreply.split)
  then show ?thesis
    unfolding delete_stream_def delete_script_def
    by (intro keeps_rules) auto
qed

lemma keeps_spared_list [keeps_rules]: "keeps (spared s) list_streams"
  unfolding list_streams_def by (intro keeps_rules) auto

lemma keeps_spared_sweep: "keeps (spared s) cleanup"
proof -
  have "keeps (spared s) (retire_stream stream)" for stream
    unfolding retire_stream_def Let_def
    by (intro keeps_rules) (auto dest!: dead_stream_status simp: dead_status_def intro!: keeps_spared_delete)
  then have "keeps (spared s) (retire_streams streams n)" for streams n
    by (induction streams n rule: retire_streams.induct) (auto intro!: keeps_rules)
  then show ?thesis
    unfolding cleanup_def cleanup_sweep_def
    by (intro keeps_rules keeps_emit) auto
qed

definition sweep_keys :: "string set" where
  "sweep_keys = {streams_all} \<union> range meta_key \<union> range stop_request_key \<union> range subreddit_key
     \<union> range identity_key \<union> range instance_key"

lemma frame_cleanup: "keeps (frame sweep_keys s) cleanup"
proof -
  have del: "keeps (frame sweep_keys s) (delete_stream i st up False)" for i st up
    unfolding delete_stream_def
    by (intro keeps_rules) (auto simp: sweep_keys_def)
  have "keeps (frame sweep_keys s) (retire_stream stream)" for stream
    unfolding retire_stream_def Let_def by (intro keeps_rules del) 
  then have "keeps (frame sweep_keys s) (retire_streams streams n)" for streams n
    by (induction streams n rule: retire_streams.induct) (auto intro!: keeps_rules)
  moreover have "keeps (frame sweep_keys s) list_streams"
    unfolding list_streams_def by (intro keeps_rules) (auto simp: sweep_keys_def)
  ultimately show ?thesis
    unfolding cleanup_def cleanup_sweep_def by (intro keeps_rules) auto
qed

end
