(* ===== verification/Flusher.thy ===== *)
theory Flusher
  imports Cleanup Checkpoints
begin

section \<open>Flushing checkpoints to PostgreSQL\<close>

text \<open>
  \<^verbatim>\<open>CheckpointFlusher\<close> of src/tasks/checkpoint\_flusher.py. Its \<^verbatim>\<open>start\<close>, \<^verbatim>\<open>stop\<close> and loop are
  those of theory Cleanup. A session that executes one statement and commits is one
  \<open>pg_transaction\<close>: it raises and leaves the database as it was, or takes effect.
\<close>

subsection \<open>Reading a checkpoint\<close>

definition rstrip :: "char \<Rightarrow> string \<Rightarrow> string" where
  "rstrip c s = rev (dropWhile (\<lambda>x. x = c) (rev s))"

text \<open>\<open>Some\<close> of the two normalised fields, or \<open>None\<close> when the timestamp cannot be parsed.\<close>

definition parse_checkpoint_data :: "dict \<Rightarrow> (string option \<times> datetime option) option" where
  "parse_checkpoint_data checkpoint_data =
     (let last_processed_at_str = dict_get checkpoint_data ''last_processed_at'';
          last_comment_id = dict_get checkpoint_data ''last_comment_id''
      in if truthy last_processed_at_str then
           (case fromisoformat (rstrip CHR ''Z'' (or_empty last_processed_at_str)) of
              None \<Rightarrow> None
            | Some dt \<Rightarrow> Some (last_comment_id, Some (if tz dt \<noteq> None then naive dt else dt)))
         else Some (last_comment_id, None))"

subsection \<open>The batch\<close>

definition index_error :: pyexn where
  "index_error = \<lparr>etype = ''IndexError'', emro = [Py_Exception, Base_Exception],
     estr = ''list index out of range'', eretry = 0\<rparr>"

definition checkpoint_row_of :: "string \<Rightarrow> string option \<times> datetime option \<Rightarrow> checkpoint_param" where
  "checkpoint_row_of stream_id parsed =
     \<lparr>cp_id = stream_id, cp_stream_id = stream_id, cp_last_comment_id = fst parsed,
      cp_last_processed_at = snd parsed\<rparr>"

text \<open>The loop over the identifiers and the pipeline's results, two per identifier: the rows
  to upsert and the stale identifiers, or \<open>None\<close> if results are missing.\<close>

fun collect_checkpoints ::
    "string \<Rightarrow> string list \<Rightarrow> dict list \<Rightarrow> (checkpoint_param list \<times> string list) option" where
  "collect_checkpoints instance_id [] results = Some ([], [])"
| "collect_checkpoints instance_id (stream_id # ids) (meta # checkpoint_data # results) =
     (case collect_checkpoints instance_id ids results of
        None \<Rightarrow> None
      | Some (rows, stale) \<Rightarrow>
          if meta = [] \<or> dict_get meta ''instance_id'' \<noteq> Some instance_id then Some (rows, stream_id # stale)
          else if checkpoint_data = [] then Some (rows, stale)
          else (case parse_checkpoint_data checkpoint_data of
                  None \<Rightarrow> Some (rows, stale)
                | Some parsed \<Rightarrow> Some (checkpoint_row_of stream_id parsed # rows, stale)))"
| "collect_checkpoints instance_id (stream_id # ids) results = None"

text \<open>\<^verbatim>\<open>checkpoint.get("id") or str(uuid.uuid4())\<close>, for each parameter set.\<close>

fun checkpoint_parameters :: "checkpoint_param list \<Rightarrow> ('l, checkpoint_param list) prog" where
  "checkpoint_parameters [] = Ret []"
| "checkpoint_parameters (p # ps) =
     bind (if cp_id p \<noteq> [] then Ret (cp_id p) else uuid4) (\<lambda>i.
     bind (checkpoint_parameters ps) (\<lambda>qs. Ret (p\<lparr>cp_id := i\<rparr> # qs)))"

definition upsert_checkpoints :: "checkpoint_param list \<Rightarrow> ('l, unit) prog" where
  "upsert_checkpoints checkpoints =
     bind (checkpoint_parameters checkpoints) (\<lambda>parameters. pg_transaction (Upsert_Checkpoints parameters))"

fun pipeline_keys :: "string list \<Rightarrow> string list" where
  "pipeline_keys [] = []"
| "pipeline_keys (stream_id # ids) = meta_key stream_id # checkpoint_key stream_id # pipeline_keys ids"

definition flush_owned :: "string \<Rightarrow> ('l, unit) prog" where
  "flush_owned instance_id =
     bind (redis_smembers (instance_key instance_id)) (\<lambda>stream_ids.
     if stream_ids = [] then skip
     else
       bind (redis_hgetalls (pipeline_keys stream_ids)) (\<lambda>results.
       case collect_checkpoints instance_id stream_ids results of
         None \<Rightarrow> Raise index_error
       | Some (rows, stale) \<Rightarrow>
           andthen (if stale \<noteq> [] then redis_do (Srem (instance_key instance_id) stale) else skip)
             (if rows \<noteq> []
              then andthen (emit (Observe ''checkpoint_batch_size'' [])) (upsert_checkpoints rows)
              else skip)))"

definition flush :: "string \<Rightarrow> ('l, unit) prog" where
  "flush instance_id =
     bind (attempt (flush_owned instance_id)) (\<lambda>r.
     let result = (case r of Inl e \<Rightarrow> if is_exception e then ''error'' else ''success'' | Inr _ \<Rightarrow> ''success'') in
     andthen (emit (Inc ''checkpoint_flushes'' [result]))
    (andthen (emit (Observe ''checkpoint_flush_duration'' [result]))
      (case r of Inl e \<Rightarrow> if is_exception e then skip else Raise e | Inr _ \<Rightarrow> skip)))"

definition flush_stream_on_stop :: "string \<Rightarrow> ('l, unit) prog" where
  "flush_stream_on_stop stream_id =
     except is_exception
       (bind (redis_hgetall (checkpoint_key stream_id)) (\<lambda>checkpoint_data.
        if checkpoint_data \<noteq> [] then
          (case parse_checkpoint_data checkpoint_data of
             None \<Rightarrow> Raise (value_error ''Invalid isoformat string'')
           | Some parsed \<Rightarrow> upsert_checkpoints [checkpoint_row_of stream_id parsed])
        else skip))
       (\<lambda>_. skip)"

definition start_flusher :: "(background, unit) prog" where
  "start_flusher = start_background"

definition stop_flusher :: "string \<Rightarrow> (background, unit) prog" where
  "stop_flusher task = stop_background task"

definition flush_loop :: "nat \<Rightarrow> int \<Rightarrow> string \<Rightarrow> (background, bool) prog" where
  "flush_loop n flush_interval instance_id = background_loop n flush_interval (flush instance_id)"

lemma raises_flush: "raises not_exception (flush instance_id)"
  unfolding flush_def by (intro raises_rules) auto

subsection \<open>Timestamps survive the trip\<close>

lemma rstrip_last: "s = [] \<or> last s \<noteq> c \<Longrightarrow> rstrip c s = s"
proof -
  assume "s = [] \<or> last s \<noteq> c"
  then have "dropWhile (\<lambda>x. x = c) (rev s) = rev s"
    by (cases "rev s") (auto simp: last_rev hd_rev [symmetric] dropWhile_eq_self_iff)
  then show ?thesis by (simp add: rstrip_def)
qed

lemma last_pad: "last (pad (Suc w) n) = digit (n mod 10)" "pad (Suc w) n \<noteq> []"
  by simp_all

lemma digit_not_Z: "n < 10 \<Longrightarrow> digit n \<noteq> CHR ''Z''"
  by (auto simp: digit_def dest: arg_cong [of _ _ "of_char :: char \<Rightarrow> nat"])

lemma rstrip_iso: "rstrip CHR ''Z'' (isoformat d) = isoformat d"
proof (rule rstrip_last, rule disjI2, cases "micro d = 0")
  case True
  then have "isoformat d = (iso_date d @ ''T'' @ pad 2 (hour d) @ '':'' @ pad 2 (minute d) @ '':'') @ pad (Suc (Suc 0)) (second d)"
    by (simp add: isoformat_def iso_clock_def iso_fraction_def numeral_2_eq_2 del: pad.simps)
  then have "last (isoformat d) = digit (second d mod 10)"
    by (simp only: last_appendR [OF last_pad(2)] last_pad(1))
  with digit_not_Z [of "second d mod 10"] show "last (isoformat d) \<noteq> CHR ''Z''" by simp
next
  case False
  then have "isoformat d = (iso_date d @ ''T'' @ iso_clock d @ ''.'') @ pad (Suc 5) (micro d)"
    by (simp add: isoformat_def iso_fraction_def del: pad.simps)
  then have "last (isoformat d) = digit (micro d mod 10)"
    by (simp only: last_appendR [OF last_pad(2)] last_pad(1))
  with digit_not_Z [of "micro d mod 10"] show "last (isoformat d) \<noteq> CHR ''Z''" by simp
qed

text \<open>The worker writes naive timestamps without a zone: they are read back exactly.\<close>

lemma parse_written:
  assumes "valid_datetime d" and "dict_get data ''last_processed_at'' = Some (isoformat (naive d))"
  shows "parse_checkpoint_data data = Some (dict_get data ''last_comment_id'', Some (naive d))"
proof -
  have "isoformat (naive d) \<noteq> []" by (simp add: isoformat_def)
  moreover have "fromisoformat (isoformat (naive d)) = Some (naive d)"
    using fromisoformat_written [of "naive d" "[]" None] assms(1)
    by (cases d) (simp add: read_zone_def naive_def valid_datetime_def)
  ultimately show ?thesis
    using assms(2) by (simp add: parse_checkpoint_data_def rstrip_iso)
qed

subsection \<open>What a flush writes\<close>

definition parse_fields :: "(string \<Rightarrow> string option) \<Rightarrow> (string option \<times> datetime option) option" where
  "parse_fields f =
     (if truthy (f ''last_processed_at'') then
        map_option (\<lambda>dt. (f ''last_comment_id'', Some (naive dt)))
          (fromisoformat (rstrip CHR ''Z'' (or_empty (f ''last_processed_at''))))
      else Some (f ''last_comment_id'', None))"

lemma parse_by_fields: "parse_checkpoint_data d = parse_fields (map_of d)"
proof -
  have "tz dt = None \<Longrightarrow> naive dt = dt" for dt by (cases dt) (simp add: naive_def)
  then show ?thesis
    by (auto simp: parse_checkpoint_data_def parse_fields_def Let_def split: option.splits)
qed

text \<open>The checkpoint of a stream as it should be in PostgreSQL, if Redis has one that can be
  read; and who owns which stream.\<close>

definition durable :: "rdb \<Rightarrow> string \<Rightarrow> (string option \<times> datetime option) option" where
  "durable s i = (if checkpoint_fields s i = (\<lambda>_. None) then None else parse_fields (checkpoint_fields s i))"

definition owned :: "string \<Rightarrow> rdb \<Rightarrow> string \<Rightarrow> bool" where
  "owned inst s i = (i \<in> assigned s inst \<and> meta_owner s i = Some inst)"

definition row_content :: "checkpoint_param \<Rightarrow> string \<times> string option \<times> datetime option" where
  "row_content p = (cp_stream_id p, cp_last_comment_id p, cp_last_processed_at p)"

lemma row_content_id [simp]: "row_content (p\<lparr>cp_id := i\<rparr>) = row_content p"
  by (simp add: row_content_def)

lemma row_content_of: "row_content (checkpoint_row_of i p) = (i, p)"
  by (cases p) (simp add: row_content_def checkpoint_row_of_def)

lemma empty_reply: "map_of d = map_of e \<Longrightarrow> d = [] \<longleftrightarrow> map_of e = (\<lambda>_. None)"
  by (metis map_of_eq_empty_iff)

lemma collect_spec:
  assumes "list_all2 (\<lambda>d e. map_of d = map_of e) results (map (hash_at s) (pipeline_keys ids))"
  shows "\<exists>rows. collect_checkpoints inst ids results =
      Some (rows, filter (\<lambda>i. meta_owner s i \<noteq> Some inst) ids) \<and>
    map row_content rows = map (\<lambda>i. (i, the (durable s i)))
      (filter (\<lambda>i. meta_owner s i = Some inst \<and> durable s i \<noteq> None) ids)"
  using assms
proof (induction ids arbitrary: results)
  case (Cons i ids)
  from Cons.prems obtain meta cp rest where r: "results = meta # cp # rest"
    and m: "map_of meta = meta_field s i" and c: "map_of cp = checkpoint_fields s i"
    and rest: "list_all2 (\<lambda>d e. map_of d = map_of e) rest (map (hash_at s) (pipeline_keys ids))"
    by (auto simp: list_all2_Cons2 hash_at_meta checkpoint_fields_hash)
  from Cons.IH [OF rest] obtain rows where
    "collect_checkpoints inst ids rest = Some (rows, filter (\<lambda>i. meta_owner s i \<noteq> Some inst) ids)"
    "map row_content rows = map (\<lambda>i. (i, the (durable s i)))
      (filter (\<lambda>i. meta_owner s i = Some inst \<and> durable s i \<noteq> None) ids)" by blast
  moreover have "durable s i = (if cp = [] then None else parse_checkpoint_data cp)"
    using empty_reply [of cp "hash_at s (checkpoint_key i)"] c
    by (simp add: durable_def parse_by_fields checkpoint_fields_hash)
  moreover have "meta_owner s i = dict_get meta ''instance_id''" by (simp add: meta_owner_def m)
  ultimately show ?case by (auto simp: r row_content_of split: option.splits)
qed simp

lemma wp_parameters:
  "rdb v = s \<Longrightarrow> pgd v = db \<Longrightarrow> wp (checkpoint_parameters ps :: ('l, checkpoint_param list) prog)
     (\<lambda>r l' v'. rdb v' = s \<and> pgd v' = db \<and> (\<forall>qs. r = Inr qs \<longrightarrow> map row_content qs = map row_content ps)) l v"
proof (induction ps arbitrary: l v)
  case (Cons p ps)
  have step: "wp (bind (checkpoint_parameters ps) (\<lambda>qs. Ret (p\<lparr>cp_id := i\<rparr> # qs)))
     (\<lambda>r l' v'. rdb v' = s \<and> pgd v' = db \<and>
        (\<forall>qs. r = Inr qs \<longrightarrow> map row_content qs = map row_content (p # ps))) l v'"
    if "rdb v' = s" "pgd v' = db" for i v' and l :: 'l
    by (rule wp_seq [OF Cons.IH [OF that]]) auto
  show ?case
    unfolding checkpoint_parameters.simps
    by (rule wp_seq [where R = "\<lambda>r l' v'. rdb v' = s \<and> pgd v' = db"])
      (use Cons.prems step in \<open>auto simp: wp_uuid4\<close>)
qed simp

definition upserted :: "checkpoint_param list \<Rightarrow> pgdb \<Rightarrow> pgdb \<Rightarrow> bool" where
  "upserted ps db db' =
     (\<forall>i. checkpoint_of db' i = (case map_of (rev (map row_content ps)) i of Some c \<Rightarrow> Some c | None \<Rightarrow> checkpoint_of db i))"

lemma upsert_content: "upsert_checkpoints_sql ps db = Some db' \<Longrightarrow> upserted ps db db'"
  unfolding upserted_def row_content_def [abs_def] using upsert_checkpoints_of by blast

lemma upserted_same: "map row_content qs = map row_content ps \<Longrightarrow> upserted qs db db' \<Longrightarrow> upserted ps db db'"
  by (simp add: upserted_def)

lemma wp_upsert:
  "rdb v = s \<Longrightarrow> pgd v = db \<Longrightarrow> wp (upsert_checkpoints ps)
     (\<lambda>r l' v'. rdb v' = s \<and> (r = Inr () \<longrightarrow> upserted ps db (pgd v'))) l v"
  unfolding upsert_checkpoints_def
proof (rule wp_seq [OF wp_parameters], assumption, assumption)
  fix qs :: "checkpoint_param list" and v' :: view and l'
  assume "rdb v' = s \<and> pgd v' = db \<and> (\<forall>qs'. Inr qs = Inr qs' \<longrightarrow> map row_content qs' = map row_content ps)"
  then show "wp (pg_transaction (Upsert_Checkpoints qs))
     (\<lambda>r l' v'. rdb v' = s \<and> (r = Inr () \<longrightarrow> upserted ps db (pgd v'))) l' v'"
    using upserted_same [of qs ps] upsert_content by (simp add: wp_pg)
qed auto

definition flushed :: "string \<Rightarrow> rdb \<Rightarrow> pgdb \<Rightarrow> view \<Rightarrow> bool" where
  "flushed inst s db v' =
     (assigned (rdb v') inst = {i. owned inst s i} \<and>
      (\<forall>i. checkpoint_of (pgd v') i = (if owned inst s i \<and> durable s i \<noteq> None then durable s i else checkpoint_of db i)))"

lemma upserted_flushed:
  assumes "upserted rows db db'" and "distinct ids" and "set ids = assigned s inst"
    and "map row_content rows = map (\<lambda>i. (i, the (durable s i)))
      (filter (\<lambda>i. meta_owner s i = Some inst \<and> durable s i \<noteq> None) ids)"
  shows "checkpoint_of db' i = (if owned inst s i \<and> durable s i \<noteq> None then durable s i else checkpoint_of db i)"
proof -
  let ?ids = "filter (\<lambda>i. meta_owner s i = Some inst \<and> durable s i \<noteq> None) ids"
  have "map_of (rev (map (\<lambda>i. (i, the (durable s i))) ?ids)) i =
      (if i \<in> set ?ids then Some (the (durable s i)) else None)"
    by (simp add: rev_map map_of_map_restrict restrict_map_def)
  with assms show ?thesis
    by (auto simp: upserted_def owned_def)
qed

lemma wp_flush_rest:
  assumes "sound (rdb v)"
  shows "wp (andthen (if stale \<noteq> [] then redis_do (Srem (instance_key inst) stale) else skip)
     (if rows \<noteq> [] then andthen (emit (Observe ''checkpoint_batch_size'' [])) (upsert_checkpoints rows) else skip))
     (\<lambda>r l' v'. r = Inr () \<longrightarrow> assigned (rdb v') inst = assigned (rdb v) inst - set stale \<and>
        upserted rows (pgd v) (pgd v')) l v"
proof (rule wp_seq_andthen)
  show "wp (if stale \<noteq> [] then redis_do (Srem (instance_key inst) stale) else skip)
     (\<lambda>r l' v'. r = Inr () \<longrightarrow> assigned (rdb v') inst = assigned (rdb v) inst - set stale \<and> pgd v' = pgd v) l v"
    using assms by (auto simp: wp_rules assigned_def)
next
  fix x :: unit and v' :: view and l'
  assume "Inr x = Inr () \<longrightarrow> assigned (rdb v') inst = assigned (rdb v) inst - set stale \<and> pgd v' = pgd v"
  then have v': "assigned (rdb v') inst = assigned (rdb v) inst - set stale" "pgd v' = pgd v" by auto
  show "wp (if rows \<noteq> [] then andthen (emit (Observe ''checkpoint_batch_size'' [])) (upsert_checkpoints rows) else skip)
     (\<lambda>r l' v'. r = Inr () \<longrightarrow> assigned (rdb v') inst = assigned (rdb v) inst - set stale \<and>
        upserted rows (pgd v) (pgd v')) l' v'"
  proof (cases "rows = []")
    case True
    with v' show ?thesis by (simp add: wp_basic upserted_def)
  next
    case False
    have "wp (upsert_checkpoints rows) (\<lambda>r l' v'. r = Inr () \<longrightarrow> assigned (rdb v') inst = assigned (rdb v) inst - set stale \<and>
        upserted rows (pgd v) (pgd v')) l' (v'\<lparr>metrics := m\<rparr>)" for m
      by (rule wp_mono [OF wp_upsert [OF refl refl]]) (use v' in simp)
    with False show ?thesis by (simp add: wp_andthen wp_basic)
  qed
qed auto

lemma flush_result:
  assumes "distinct ids" and "set ids = assigned s inst"
    and "list_all2 (\<lambda>d e. map_of d = map_of e) results (map (hash_at s) (pipeline_keys ids))"
  shows "\<exists>rows stale. collect_checkpoints inst ids results = Some (rows, stale) \<and>
    (\<forall>v'. assigned (rdb v') inst = assigned s inst - set stale \<longrightarrow> upserted rows db (pgd v') \<longrightarrow> flushed inst s db v')"
proof -
  from collect_spec [OF assms(3)] obtain rows where
    c: "collect_checkpoints inst ids results = Some (rows, filter (\<lambda>i. meta_owner s i \<noteq> Some inst) ids)"
    and r: "map row_content rows = map (\<lambda>i. (i, the (durable s i)))
      (filter (\<lambda>i. meta_owner s i = Some inst \<and> durable s i \<noteq> None) ids)" by blast
  have "flushed inst s db v'" if "assigned (rdb v') inst = assigned s inst - set (filter (\<lambda>i. meta_owner s i \<noteq> Some inst) ids)"
    "upserted rows db (pgd v')" for v'
    unfolding flushed_def
    using that assms(2) upserted_flushed [OF that(2) assms(1,2) r] by (auto simp: owned_def)
  with c show ?thesis by blast
qed

lemma wp_flush_owned:
  assumes s: "sound (rdb v)"
  shows "wp (flush_owned inst) (\<lambda>r l' v'. r = Inr () \<longrightarrow> flushed inst (rdb v) (pgd v) v') l v"
proof -
  have empty: "flushed inst (rdb v) (pgd v) v'" if "assigned (rdb v) inst = {}" "pgd v' = pgd v" "assigned (rdb v') = assigned (rdb v)" for v'
    using that by (simp add: flushed_def owned_def)
  have some: "wp (case collect_checkpoints inst ids results of
         None \<Rightarrow> Raise index_error
       | Some (rows, stale) \<Rightarrow>
           andthen (if stale \<noteq> [] then redis_do (Srem (instance_key inst) stale) else skip)
             (if rows \<noteq> []
              then andthen (emit (Observe ''checkpoint_batch_size'' [])) (upsert_checkpoints rows)
              else skip)) (\<lambda>r l' v'. r = Inr () \<longrightarrow> flushed inst (rdb v) (pgd v) v') l v1"
    if "sound (rdb v1)" "pgd v1 = pgd v" "assigned (rdb v1) = assigned (rdb v)" "distinct ids" "set ids = assigned (rdb v) inst"
      "list_all2 (\<lambda>d e. map_of d = map_of e) results (map (hash_at (rdb v)) (pipeline_keys ids))" for ids results v1 l
  proof -
    from flush_result [OF that(4,5,6), of "pgd v"] obtain rows stale where
      c: "collect_checkpoints inst ids results = Some (rows, stale)" and
      f: "\<And>v'. assigned (rdb v') inst = assigned (rdb v) inst - set stale \<Longrightarrow> upserted rows (pgd v) (pgd v') \<Longrightarrow>
        flushed inst (rdb v) (pgd v) v'" by blast
    show ?thesis
      unfolding c option.case prod.case
      by (rule wp_mono [OF wp_flush_rest [OF that(1)]]) (simp add: that(2,3) f)
  qed
  have keys: "map (hash_at (at_time t s)) (pipeline_keys ids) = map (hash_at s) (pipeline_keys ids)"
    if "sound s" for t ids s
    using that by (induction ids) auto
  show ?thesis
    using s unfolding flush_owned_def
    by (auto simp: wp_bind wp_smembers wp_hgetalls assigned_def [symmetric] wp_basic keys
        intro!: some empty)
qed

end
