(* ===== verification/Task_Theorems.thy ===== *)
theory Task_Theorems
  imports Flusher Ref_Runs
begin

section \<open>What the background tasks promise\<close>

text \<open>
  The properties of src/tasks/checkpoint\_flusher.py and src/tasks/dead\_stream\_cleanup.py,
  from the lemmas of theories Flusher and Cleanup, and of the way a checkpoint takes from the
  registry to PostgreSQL.
\<close>

text \<open>C18: a flush that ends without an error has brought PostgreSQL up to Redis: for every
  stream in the instance's index whose metadata names the instance as owner, and whose
  checkpoint can be read, the table has exactly that checkpoint; every other row is as it
  was. Streams that another instance owns by now have left the index, the others stay.\<close>

theorem flush_refines_checkpoints:
  assumes "documented_services S V" and "sound (rdb (V w))"
    and "run S (flush_owned inst) l w = (Inr (), l', w')"
  shows "flushed inst (rdb (V w)) (pgd (V w)) (V w')"
  using documented_services.run_wp [OF assms(1,3) wp_flush_owned [OF assms(2)]] by simp

definition owned_world :: ref_world where
  "owned_world = ref_start (with_rdb (\<lambda>s.
     put_key (instance_key ''n'') (VSet [''s1'', ''s2''])
    (put_key (meta_key ''s1'') (VHash [(''instance_id'', ''n'')])
    (put_key (meta_key ''s2'') (VHash [(''instance_id'', ''other'')])
    (put_key (checkpoint_key ''s1'') (VHash [(''last_comment_id'', ''c7'')]) s)))) empty_view) []"

lemma owned_world_sound [simp]: "sound (rdb (rview owned_world))"
  by (simp add: owned_world_def)

lemmas flush_run = ref_run flush_owned_def upsert_checkpoints_def parse_checkpoint_data_def checkpoint_row_of_def

theorem flush_refines_checkpoints_witness:
  "\<exists>w'. run ref_services (flush_owned ''n'') () owned_world = (Inr (), (), w') \<and>
     checkpoint_of (pgd (rview w')) ''s1'' = Some (Some ''c7'', None) \<and> assigned (rdb (rview w')) ''n'' = {''s1''}"
proof -
  have "\<exists>w'. run ref_services (flush_owned ''n'') () owned_world = (Inr (), (), w')"
    by (simp add: flush_run owned_world_def upsert_checkpoint_sql_def)
  then obtain w' where e: "run ref_services (flush_owned ''n'') () owned_world = (Inr (), (), w')" by blast
  have own: "owned ''n'' (rdb (rview owned_world)) ''s1''" "\<not> owned ''n'' (rdb (rview owned_world)) i" if "i \<noteq> ''s1''" for i
    using that by (auto simp: owned_world_def owned_def assigned_def meta_owner_def meta_field_def hash_field_def ref_run)
  have "checkpoint_fields (rdb (rview owned_world)) ''s1'' = map_of [(''last_comment_id'', ''c7'')]"
    by (simp add: owned_world_def checkpoint_fields_def hash_field_def fun_eq_iff)
  then have "durable (rdb (rview owned_world)) ''s1'' = Some (Some ''c7'', None)"
    by (simp add: durable_def parse_fields_def fun_eq_iff)
  with flush_refines_checkpoints [OF ref.documented_services_axioms _ e] own
  have "checkpoint_of (pgd (rview w')) ''s1'' = Some (Some ''c7'', None)" "assigned (rdb (rview w')) ''n'' = {''s1''}"
    by (auto simp: flushed_def)
  with e show ?thesis by blast
qed

text \<open>C19: a checkpoint the worker saves reaches PostgreSQL unchanged: after
  \<^verbatim>\<open>set_checkpoint\<close> with a comment's identifier and a timestamp, and a flush of the stream's
  owner, the row has that identifier and that very moment.\<close>

theorem checkpoint_reaches_postgres:
  assumes "documented_services S V" and "sound (rdb (V w))" and "valid_datetime d"
    and "run S (set_checkpoint i (Some c) (Some (isoformat (naive d)))) l w = (Inr (), l1, w1)"
    and "owned inst (rdb (V w1)) i"
    and "run S (flush_owned inst) l1 w1 = (Inr (), l2, w2)"
  shows "checkpoint_of (pgd (V w2)) i = Some (Some c, Some (naive d))"
proof -
  have "sound (rdb (V w1)) \<and> checkpoint_merged i (Some c) (Some (isoformat (naive d))) (rdb (V w)) (rdb (V w1))"
    using documented_services.run_wp [OF assms(1,4) wp_set_checkpoint [OF assms(2)]] by simp
  then obtain now where s1: "sound (rdb (V w1))" and
    c: "checkpoint_fields (rdb (V w1)) i = checkpoint_fields (rdb (V w)) i ++
        map_of (rev (checkpoint_update (Some c) (Some (isoformat (naive d))) now))"
    by (auto simp: checkpoint_merged_def)
  have f: "checkpoint_fields (rdb (V w1)) i ''last_comment_id'' = Some c"
    "checkpoint_fields (rdb (V w1)) i ''last_processed_at'' = Some (isoformat (naive d))"
    by (simp_all add: c checkpoint_update_def map_add_def)
  have "parse_fields (checkpoint_fields (rdb (V w1)) i) = Some (Some c, Some (naive d))"
    using parse_written [OF assms(3), of "hash_at (rdb (V w1)) (checkpoint_key i)"] f
    by (simp add: parse_by_fields checkpoint_fields_hash)
  then have "durable (rdb (V w1)) i = Some (Some c, Some (naive d))"
    using f by (auto simp: durable_def fun_eq_iff)
  then show ?thesis
    using documented_services.run_wp [OF assms(1,6) wp_flush_owned [OF s1]] assms(5)
    by (simp add: flushed_def)
qed

theorem checkpoint_reaches_postgres_witness:
  "\<exists>w1 w2. run ref_services (set_checkpoint ''s1'' (Some ''c8'') (Some (isoformat (naive default_time)))) () owned_world =
       (Inr (), (), w1) \<and> run ref_services (flush_owned ''n'') () w1 = (Inr (), (), w2) \<and>
     checkpoint_of (pgd (rview w2)) ''s1'' = Some (Some ''c8'', Some (naive default_time))"
proof -
  have "\<exists>w1. run ref_services (set_checkpoint ''s1'' (Some ''c8'') (Some (isoformat (naive default_time)))) () owned_world =
      (Inr (), (), w1) \<and> owned ''n'' (rdb (rview w1)) ''s1'' \<and>
      (\<exists>w2. run ref_services (flush_owned ''n'') () w1 = (Inr (), (), w2))"
    by (simp add: ref_run flush_owned_def upsert_checkpoints_def checkpoint_row_of_def set_checkpoint_def owned_world_def
        parse_written [of default_time] default_time_ok owned_def assigned_def meta_owner_def meta_field_def
        hash_field_def upsert_checkpoint_sql_def)
  then obtain w1 w2 where
    e: "run ref_services (set_checkpoint ''s1'' (Some ''c8'') (Some (isoformat (naive default_time)))) () owned_world =
      (Inr (), (), w1)" "owned ''n'' (rdb (rview w1)) ''s1''" "run ref_services (flush_owned ''n'') () w1 = (Inr (), (), w2)"
    by blast
  moreover from checkpoint_reaches_postgres [OF ref.documented_services_axioms _ _ e]
  have "checkpoint_of (pgd (rview w2)) ''s1'' = Some (Some ''c8'', Some (naive default_time))"
    by (simp add: default_time_ok)
  ultimately show ?thesis by blast
qed

text \<open>Neither background task can be ended by an error of its work: whatever the services
  answer, \<^verbatim>\<open>flush\<close> and \<^verbatim>\<open>cleanup\<close> raise no \<^verbatim>\<open>Exception\<close>, and their loops end only by being
  stopped or cancelled, or by something that is neither an \<^verbatim>\<open>Exception\<close> nor a cancellation.\<close>

theorem background_tasks_survive:
  "raises not_exception (flush inst) \<and> raises not_exception cleanup \<and>
   raises (\<lambda>e. \<not> is_exception e \<and> \<not> is_cancelled e) (flush_loop n interval inst) \<and>
   raises (\<lambda>e. \<not> is_exception e \<and> \<not> is_cancelled e) (cleanup_loop n interval)"
  using raises_flush [of inst] raises_cleanup
    raises_loop [of n interval "flush inst"] raises_loop [of n interval cleanup]
  by (simp add: flush_loop_def cleanup_loop_def conj_commute)

text \<open>C20: a cleanup sweep, whatever becomes of its calls, leaves the metadata of every stream
  that is not dead exactly as it was, changes a dead stream's metadata only by removing all of
  it, leaves every subreddit that has an identity with one, and writes no lock, no checkpoint
  and no error list.\<close>

theorem cleanup_spares_live_streams:
  assumes "documented_services S V" and "sound (rdb (V w))" and "run S cleanup l w = (r, l', w')"
  shows "spared (rdb (V w)) (V w') \<and> framed sweep_keys (rdb (V w)) (rdb (V w'))"
proof -
  have "spared (rdb (V w)) (V w)" using assms(2) by (simp add: spared_def)
  with keeps_run [OF assms(1) keeps_spared_sweep _ assms(3), of "rdb (V w)"]
    keeps_run [OF assms(1) frame_cleanup frame_refl assms(3)]
  show ?thesis by (simp add: frame_def)
qed

theorem cleanup_spares_live_streams_witness:
  "case run ref_services cleanup () owned_world of
     (_, _, w') \<Rightarrow> meta_field (rdb (rview w')) ''s1'' = meta_field (rdb (rview owned_world)) ''s1''"
  (is "case ?run of (_, _, w') \<Rightarrow> _")
proof -
  obtain r l' w' where e: "?run = (r, l', w')" by (rule prod_cases3)
  have "\<not> dead_status (meta_status (rdb (rview owned_world)) ''s1'')"
    by (simp add: owned_world_def dead_status_def meta_status_def meta_field_def hash_field_def)
  with cleanup_spares_live_streams [OF ref.documented_services_axioms _ e] show ?thesis
    unfolding e by (simp add: spared_def)
qed

end
