(* ===== verification/Lock.thy ===== *)
theory Lock
  imports Redis_Calls
begin

section \<open>The distributed lock\<close>

text \<open>
  \<^verbatim>\<open>DistributedLockManager\<close> of src/stream/lock.py: a lease on a subreddit is the Redis
  key \<open>lock_key\<close> holding the owner's token, with a deadline. The operations below are
  the class's methods; the lemmas give what each does to the key space on every
  branch, and the interface \<open>lease\<close> collects what a holder may rely on.
\<close>

subsection \<open>The methods\<close>

definition lock_metric :: "string \<Rightarrow> string \<Rightarrow> ('l, unit) prog" where
  "lock_metric operation result = emit (Inc ''lock_operations'' [operation, result])"

text \<open>\<^verbatim>\<open>try: ... except Exception: METRICS...inc(); raise\<close>, in every method.\<close>

definition count_lock_error :: "string \<Rightarrow> ('l, 'a) prog \<Rightarrow> ('l, 'a) prog" where
  "count_lock_error operation p =
     except is_exception p (\<lambda>e. andthen (lock_metric operation ''error'') (Raise e))"

definition acquire_lock :: "string \<Rightarrow> string \<Rightarrow> int \<Rightarrow> ('l, string option) prog" where
  "acquire_lock subreddit instance_id ttl =
     bind uuid4 (\<lambda>u.
     let key = lock_key subreddit; owner_token = instance_id @ '':'' @ u in
     bind (count_lock_error ''acquire'' (redis_setnx key owner_token (Some ttl))) (\<lambda>acquired.
       if acquired
       then andthen (lock_metric ''acquire'' ''success'') (Ret (Some owner_token))
       else andthen (lock_metric ''acquire'' ''contended'') (bind (redis_get key) (\<lambda>_. Ret None))))"

definition refresh_lock :: "string \<Rightarrow> string \<Rightarrow> int \<Rightarrow> ('l, bool) prog" where
  "refresh_lock subreddit owner_token ttl =
     bind (count_lock_error ''refresh''
            (redis_eval (Refresh_If_Owner (lock_key subreddit) owner_token ttl))) (\<lambda>success.
     andthen (lock_metric ''refresh'' (if success then ''success'' else ''not_owner''))
       (Ret success))"

definition owns_lock :: "string \<Rightarrow> string \<Rightarrow> ('l, bool) prog" where
  "owns_lock subreddit owner_token =
     bind (count_lock_error ''verify'' (redis_get (lock_key subreddit))) (\<lambda>current_token.
     let owns = (current_token = Some owner_token) in
     andthen (lock_metric ''verify'' (if owns then ''success'' else ''not_owner'')) (Ret owns))"

definition release_lock :: "string \<Rightarrow> string \<Rightarrow> ('l, bool) prog" where
  "release_lock subreddit owner_token =
     bind (count_lock_error ''release''
            (redis_eval (Delete_If_Owner (lock_key subreddit) owner_token))) (\<lambda>deleted.
     andthen (lock_metric ''release'' (if deleted then ''success'' else ''not_owner''))
       (Ret deleted))"

definition is_locked :: "string \<Rightarrow> ('l, bool) prog" where
  "is_locked subreddit = redis_exists (lock_key subreddit)"

definition get_lock_holder :: "string \<Rightarrow> ('l, string option) prog" where
  "get_lock_holder subreddit = bind (redis_get (lock_key subreddit)) (\<lambda>r. Ret (or_none r))"

lemmas lock_defs [handler_defs] = acquire_lock_def refresh_lock_def owns_lock_def release_lock_def
  is_locked_def get_lock_holder_def count_lock_error_def lock_metric_def

subsection \<open>The lease on the key space\<close>

definition holder :: "rdb \<Rightarrow> string \<Rightarrow> string option" where
  "holder s subreddit = str_at s (lock_key subreddit)"

definition lease_end :: "rdb \<Rightarrow> string \<Rightarrow> int option" where
  "lease_end s subreddit = rttl s (lock_key subreddit)"

text \<open>The effect of each method that writes, as one atomic change of the key space.\<close>

definition grant_lease :: "string \<Rightarrow> string \<Rightarrow> int \<Rightarrow> rdb \<Rightarrow> rdb" where
  "grant_lease subreddit token ttl s =
     (if live s (lock_key subreddit) then s
      else set_ttl (lock_key subreddit) (Some (rclock s + 1000 * ttl))
             (put_key (lock_key subreddit) (VStr token) s))"

definition extend_lease :: "string \<Rightarrow> string \<Rightarrow> int \<Rightarrow> rdb \<Rightarrow> rdb" where
  "extend_lease subreddit token ttl s =
     (if holder s subreddit = Some token
      then set_ttl (lock_key subreddit) (Some (rclock s + 1000 * ttl)) s else s)"

definition drop_lease :: "string \<Rightarrow> string \<Rightarrow> rdb \<Rightarrow> rdb" where
  "drop_lease subreddit token s =
     (if holder s subreddit = Some token then del_key (lock_key subreddit) s else s)"

lemma effect_refresh [simp]:
  "0 < ttl \<Longrightarrow> redis_effect (Eval (Refresh_If_Owner (lock_key sub) tok ttl)) s = extend_lease sub tok ttl s"
  by (auto simp: redis_effect_def refresh_closed extend_lease_def holder_def dest: str_at_is_str)

lemma answer_refresh [simp]:
  "0 < ttl \<Longrightarrow> redis_answer (Eval (Refresh_If_Owner (lock_key sub) tok ttl)) s y \<longleftrightarrow>
     is_str s (lock_key sub) \<and> y = RInt (if holder s sub = Some tok then 1 else 0)"
  by (auto simp: redis_answer_def refresh_closed holder_def)

lemma effect_release [simp]:
  "redis_effect (Eval (Delete_If_Owner (lock_key sub) tok)) s = drop_lease sub tok s"
  by (auto simp: redis_effect_def delete_owner_closed drop_lease_def holder_def dest: str_at_is_str)

lemma answer_release [simp]:
  "redis_answer (Eval (Delete_If_Owner (lock_key sub) tok)) s y \<longleftrightarrow>
     is_str s (lock_key sub) \<and> y = RInt (if holder s sub = Some tok then 1 else 0)"
  by (auto simp: redis_answer_def delete_owner_closed holder_def)

lemma holder_live: "holder s sub = Some tok \<Longrightarrow> live s (lock_key sub)"
  by (simp add: holder_def str_at_live)

lemma holder_at_time:
  "holder (at_time t s) sub = (if expired t s (lock_key sub) then None else holder s sub)"
  by (simp add: holder_def str_at_def)

lemma holder_later_mono: "holder (at_time t s) sub = Some tok \<Longrightarrow> holder s sub = Some tok"
  by (simp add: holder_at_time split: if_splits)

subsection \<open>The interface of a lease\<close>

text \<open>
  What the components that hold leases rely on, whatever the store: nobody but the holder
  changes a running lease, and a lease runs until its deadline. \<open>ops\<close> is any sequence of
  operations on leases, by anybody, and of moments of time.
\<close>

datatype ('k, 't) lease_op =
    Op_Acquire 'k 't int | Op_Refresh 'k 't int | Op_Release 'k 't | Op_Elapse int

fun op_by :: "('k, 't) lease_op \<Rightarrow> 'k \<Rightarrow> 't \<Rightarrow> bool" where
  "op_by (Op_Refresh k t _) k' t' = (k = k' \<and> t = t')"
| "op_by (Op_Release k t) k' t' = (k = k' \<and> t = t')"
| "op_by _ _ _ = False"

locale lease =
  fixes hold :: "'s \<Rightarrow> 'k \<Rightarrow> 't option" and dead_line :: "'s \<Rightarrow> 'k \<Rightarrow> int option"
    and acq :: "'k \<Rightarrow> 't \<Rightarrow> int \<Rightarrow> 's \<Rightarrow> 's" and refr :: "'k \<Rightarrow> 't \<Rightarrow> int \<Rightarrow> 's \<Rightarrow> 's"
    and rel :: "'k \<Rightarrow> 't \<Rightarrow> 's \<Rightarrow> 's" and elapse :: "int \<Rightarrow> 's \<Rightarrow> 's"
  assumes acq_held: "hold s k = Some h \<Longrightarrow>
      hold (acq k' t ttl s) k = Some h \<and> dead_line (acq k' t ttl s) k = dead_line s k"
    and refr_holder: "hold (refr k' t ttl s) k = hold s k"
    and refr_other: "hold s k = Some h \<Longrightarrow> \<not> (k' = k \<and> t = h) \<Longrightarrow>
      dead_line (refr k' t ttl s) k = dead_line s k"
    and rel_other: "hold s k = Some h \<Longrightarrow> \<not> (k' = k \<and> t = h) \<Longrightarrow>
      hold (rel k' t s) k = Some h \<and> dead_line (rel k' t s) k = dead_line s k"
    and elapse_before: "hold s k = Some h \<Longrightarrow> dead_line s k = Some d \<Longrightarrow> tm < d \<Longrightarrow>
      hold (elapse tm s) k = Some h \<and> dead_line (elapse tm s) k = Some d"
begin

fun apply_op :: "('k, 't) lease_op \<Rightarrow> 's \<Rightarrow> 's" where
  "apply_op (Op_Acquire k t ttl) s = acq k t ttl s"
| "apply_op (Op_Refresh k t ttl) s = refr k t ttl s"
| "apply_op (Op_Release k t) s = rel k t s"
| "apply_op (Op_Elapse t) s = elapse t s"

definition foreign :: "'k \<Rightarrow> 't \<Rightarrow> int \<Rightarrow> ('k, 't) lease_op \<Rightarrow> bool" where
  "foreign k h d opn = (case opn of Op_Elapse t \<Rightarrow> t < d | _ \<Rightarrow> \<not> op_by opn k h)"

lemma apply_op_keeps:
  assumes "hold s k = Some h" and "dead_line s k = Some d" and "foreign k h d opn"
  shows "hold (apply_op opn s) k = Some h \<and> dead_line (apply_op opn s) k = Some d"
  using assms acq_held refr_holder refr_other rel_other elapse_before
  by (cases opn) (auto simp: foreign_def)

text \<open>A running lease survives everything others do until its deadline.\<close>

lemma lease_kept:
  assumes "hold s k = Some h" and "dead_line s k = Some d" and "\<forall>opn \<in> set ops. foreign k h d opn"
  shows "hold (fold apply_op ops s) k = Some h \<and> dead_line (fold apply_op ops s) k = Some d"
  using assms
proof (induction ops arbitrary: s)
  case (Cons opn ops)
  then have "hold (apply_op opn s) k = Some h" "dead_line (apply_op opn s) k = Some d"
    using apply_op_keeps by auto
  with Cons show ?case by simp
qed simp

end

interpretation redis_lease: lease holder lease_end grant_lease extend_lease drop_lease at_time
proof
  fix s :: rdb and k k' h t :: string and ttl d tm :: int
  show "holder (extend_lease k' t ttl s) k = holder s k"
    by (simp add: extend_lease_def holder_def)
  assume h: "holder s k = Some h"
  then show "holder (grant_lease k' t ttl s) k = Some h
      \<and> lease_end (grant_lease k' t ttl s) k = lease_end s k"
    by (auto simp: grant_lease_def holder_def lease_end_def dest: str_at_live)
  { assume "\<not> (k' = k \<and> t = h)"
    with h show "lease_end (extend_lease k' t ttl s) k = lease_end s k"
      by (auto simp: extend_lease_def lease_end_def)
  }
  { assume "\<not> (k' = k \<and> t = h)"
    with h show "holder (drop_lease k' t s) k = Some h \<and> lease_end (drop_lease k' t s) k = lease_end s k"
      by (auto simp: drop_lease_def holder_def lease_end_def)
  }
  assume "lease_end s k = Some d" and "tm < d"
  with h show "holder (at_time tm s) k = Some h \<and> lease_end (at_time tm s) k = Some d"
    by (simp add: holder_at_time lease_end_def expired_def)
qed

subsection \<open>What each method does\<close>

lemma setnx_grant: "set_absent (lock_key sub) tok (Some ttl) = grant_lease sub tok ttl"
  by (auto simp: grant_lease_def set_absent_def)

text \<open>The outcome of acquiring: a grant on a free key under a token never issued before;
  a contended key left alone; or an exception, after which the lease may have been
  granted under the fresh token.\<close>

definition acquired :: "string \<Rightarrow> string \<Rightarrow> int \<Rightarrow> view \<Rightarrow> pyexn + string option \<Rightarrow> view \<Rightarrow> bool" where
  "acquired sub inst ttl v r v' =
     (\<exists>u. u \<notin> set (uuids v) \<and> uuids v' = u # uuids v \<and> pgd v' = pgd v \<and>
        (let tok = inst @ '':'' @ u; s = rdb v; s' = rdb v';
             granted = (\<exists>t \<ge> rclock s. \<not> live (at_time t s) (lock_key sub)
                                    \<and> s' = grant_lease sub tok ttl (at_time t s))
         in case r of
              Inr (Some x) \<Rightarrow> x = tok \<and> granted
            | Inr None \<Rightarrow> (\<exists>t \<ge> rclock s. live (at_time t s) (lock_key sub)) \<and> passed s s'
            | Inl e \<Rightarrow> passed s s' \<or> granted))"

lemma wp_acquire_lock:
  "wp (acquire_lock sub inst ttl) (\<lambda>r l' v'. l' = l \<and> acquired sub inst ttl v r v') l v"
  unfolding handler_defs
  by (auto simp: wp_rules Let_def setnx_grant acquired_def grant_lease_def at_time_at_time)

text \<open>Refreshing, checking and releasing a lease.\<close>

definition refreshed :: "string \<Rightarrow> string \<Rightarrow> int \<Rightarrow> view \<Rightarrow> pyexn + bool \<Rightarrow> view \<Rightarrow> bool" where
  "refreshed sub tok ttl v r v' =
     (pgd v' = pgd v \<and> uuids v' = uuids v \<and>
      (\<exists>t \<ge> rclock (rdb v). let s = at_time t (rdb v) in
        case r of
          Inr b \<Rightarrow> b = (holder s sub = Some tok) \<and> rdb v' = extend_lease sub tok ttl s
        | Inl e \<Rightarrow> rdb v' = s \<or> rdb v' = extend_lease sub tok ttl s))"

lemma wp_refresh_lock:
  "0 < ttl \<Longrightarrow> wp (refresh_lock sub tok ttl) (\<lambda>r l' v'. l' = l \<and> refreshed sub tok ttl v r v') l v"
  unfolding handler_defs
  by (auto simp: wp_rules wp_eval refreshed_def Let_def)

definition checked :: "string \<Rightarrow> string \<Rightarrow> view \<Rightarrow> pyexn + bool \<Rightarrow> view \<Rightarrow> bool" where
  "checked sub tok v r v' =
     (pgd v' = pgd v \<and> uuids v' = uuids v \<and> passed (rdb v) (rdb v') \<and>
      (case r of Inr b \<Rightarrow> b = (holder (rdb v') sub = Some tok) | Inl e \<Rightarrow> True))"

lemma wp_owns_lock:
  "wp (owns_lock sub tok) (\<lambda>r l' v'. l' = l \<and> checked sub tok v r v') l v"
  unfolding handler_defs
  by (auto simp: wp_rules checked_def Let_def holder_def)

definition released :: "string \<Rightarrow> string \<Rightarrow> view \<Rightarrow> pyexn + bool \<Rightarrow> view \<Rightarrow> bool" where
  "released sub tok v r v' =
     (pgd v' = pgd v \<and> uuids v' = uuids v \<and>
      (\<exists>t \<ge> rclock (rdb v). let s = at_time t (rdb v) in
        case r of
          Inr b \<Rightarrow> b = (holder s sub = Some tok) \<and> rdb v' = drop_lease sub tok s
        | Inl e \<Rightarrow> rdb v' = s \<or> rdb v' = drop_lease sub tok s))"

lemma wp_release_lock:
  "wp (release_lock sub tok) (\<lambda>r l' v'. l' = l \<and> released sub tok v r v') l v"
  unfolding handler_defs
  by (auto simp: wp_rules wp_eval released_def Let_def)

lemma wp_is_locked:
  "wp (is_locked sub)
     (\<lambda>r l' v'. l' = l \<and> pgd v' = pgd v \<and> uuids v' = uuids v \<and> passed (rdb v) (rdb v') \<and>
        (case r of Inr b \<Rightarrow> b = live (rdb v') (lock_key sub) | Inl e \<Rightarrow> True)) l v"
  unfolding handler_defs
  by (auto simp: wp_rules)

end
