(* ===== verification/Worker.thy ===== *)
theory Worker
  imports Error_Handler Circuit_Breaker Lock Registry Outcomes
begin

section \<open>The stream worker\<close>

text \<open>
  \<^verbatim>\<open>StreamWorker\<close> of src/stream/worker.py. What is fixed when a worker is made is \<open>worker_env\<close>;
  what changes is \<open>worker\<close>: the comments since the last checkpoint, the futures of its messages
  (a future is known by its message's place in the producer's queue) and how they were
  resolved, the stop event and the circuit breaker.

  A message's delivery callback belongs to the worker that produced it, also after the
  worker has dropped the future: \<open>wk_mine\<close> lists all of them. The event loop runs callbacks
  while the worker awaits something; the reports of \<open>Poll\<close> and \<open>Wait_Deliveries\<close> are those
  whose callbacks have run by then.

  The loops of the source that may run forever are counted down from a given number of
  rounds and then raise \<open>out_of_rounds\<close>, which no handler of the source catches: it stands for
  "still running". The loop that awaits a batch of deliveries is given as many rounds as it
  can need, and never runs out of them (theory Worker\_Acks).
\<close>

record worker_env =
  we_subreddit :: string
  we_stream_id :: string
  we_instance_id :: string
  we_topic :: string
  we_lock_token :: string
  we_delivery_timeout :: int  \<comment> \<open>microseconds\<close>
  we_timeout_text :: string  \<comment> \<open>\<^verbatim>\<open>f"{delivery_wait_timeout:g}"\<close>\<close>
  we_db :: bool  \<comment> \<open>whether the error handler and the registry have a session maker\<close>

record worker =
  wk_comments :: int
  wk_pending :: "nat list"
  wk_mine :: "nat list"
  wk_results :: "(nat \<times> string option) list"
  wk_stop :: bool
  wk_breaker :: breaker

definition breaker_settings :: breaker_config where
  "breaker_settings = \<lparr>failure_threshold = 5, recovery_timeout = 60, success_threshold = 2,
     backoff_multiplier = 2, max_backoff = 3600\<rparr>"

definition new_worker :: worker where
  "new_worker = \<lparr>wk_comments = 0, wk_pending = [], wk_mine = [], wk_results = [], wk_stop = False,
     wk_breaker = new_breaker breaker_settings\<rparr>"

definition checkpoint_interval :: int where "checkpoint_interval = 100"
definition lock_refresh_interval :: int where "lock_refresh_interval = 30"
definition lock_ttl :: int where "lock_ttl = 60"

definition set_breaker :: "breaker \<Rightarrow> worker \<Rightarrow> worker" where
  "set_breaker b l = l\<lparr>wk_breaker := b\<rparr>"

subsection \<open>Deliveries\<close>

definition delivery_done :: "worker \<Rightarrow> nat \<Rightarrow> bool" where
  "delivery_done l h = (map_of (wk_results l) h \<noteq> None)"

definition complete_delivery :: "delivery_report \<Rightarrow> worker \<Rightarrow> worker \<times> metric list" where
  "complete_delivery report l =
     (if delivery_done l (dr_handle report) then (l, [])
      else
        let l' = l\<lparr>wk_results := (dr_handle report, dr_error report) # wk_results l\<rparr> in
        (case dr_error report of
           None \<Rightarrow> (l', [Inc ''kafka_deliveries'' [''success''],
                        Inc_By ''kafka_delivery_bytes'' [''success''] (dr_size report),
                        Gauge_Now ''last_delivery_timestamp''])
         | Some error \<Rightarrow> (l', [Inc ''kafka_deliveries'' [''error''],
                        Inc_By ''kafka_delivery_bytes'' [''error''] (dr_size report)])))"

definition run_callbacks :: "delivery_report list \<Rightarrow> (worker, unit) prog" where
  "run_callbacks arrived =
     for_each arrived (\<lambda>report.
       bind get_local (\<lambda>self.
       if dr_handle report \<in> set (wk_mine self)
       then andthen (modify_local (\<lambda>self. fst (complete_delivery report self)))
              (emit_all (snd (complete_delivery report self)))
       else skip))"

definition poll_deliveries :: "(worker, unit) prog" where
  "poll_deliveries = bind (reports_call Poll) run_callbacks"

definition clear_pending :: "(worker, unit) prog" where
  "clear_pending = modify_local (\<lambda>self. self\<lparr>wk_pending := []\<rparr>)"

definition still_pending :: "nat list \<Rightarrow> (worker, nat list) prog" where
  "still_pending pending = bind get_local (\<lambda>self. Ret (filter (\<lambda>h. \<not> delivery_done self h) pending))"

fun await_pending :: "nat \<Rightarrow> worker_env \<Rightarrow> nat list \<Rightarrow> int \<Rightarrow> (worker, unit) prog" where
  "await_pending 0 env pending deadline = Raise out_of_rounds"
| "await_pending (Suc n) env pending deadline =
     (if pending = [] then skip
      else
        andthen (except is_exception poll_deliveries (\<lambda>error.
          andthen clear_pending (Raise (kafka_delivery_error (''Kafka poll failed: '' @ estr error)))))
       (bind (still_pending pending) (\<lambda>pending.
        if pending = [] then skip
        else
          bind loop_time (\<lambda>now.
          let remaining = deadline - now in
          if remaining \<le> 0 then
            andthen clear_pending (Raise (kafka_delivery_error (''Timed out after '' @ we_timeout_text env @
              ''s waiting for '' @ show_nat (length pending) @ '' Kafka delivery report(s)'')))
          else
            bind (reports_call (Wait_Deliveries pending (min 50000 remaining))) (\<lambda>arrived.
            andthen (run_callbacks arrived)
           (bind (still_pending pending) (\<lambda>pending.
              await_pending n env pending deadline)))))))"

definition enough_rounds :: "worker_env \<Rightarrow> nat list \<Rightarrow> nat" where
  "enough_rounds env deliveries = length deliveries + nat ((max 0 (we_delivery_timeout env) + 49999) div 50000) + 1"

definition wait_for_delivery_batch :: "worker_env \<Rightarrow> (worker, unit) prog" where
  "wait_for_delivery_batch env =
     bind get_local (\<lambda>self.
     let deliveries = wk_pending self in
     if deliveries = [] then skip
     else
       bind loop_time (\<lambda>now.
       andthen (await_pending (enough_rounds env deliveries) env deliveries (now + we_delivery_timeout env))
      (andthen clear_pending
      (bind get_local (\<lambda>self.
       let delivery_errors = List.map_filter (\<lambda>h. case map_of (wk_results self) h of Some r \<Rightarrow> r | None \<Rightarrow> None) deliveries in
       case delivery_errors of
         [] \<Rightarrow> skip
       | first # _ \<Rightarrow> Raise (kafka_delivery_error (''Kafka failed to deliver '' @
           show_nat (length delivery_errors) @ '' message(s): '' @ first)))))))"

subsection \<open>Checkpoints\<close>

definition save_checkpoint_for_comment_id :: "worker_env \<Rightarrow> string \<Rightarrow> (worker, unit) prog" where
  "save_checkpoint_for_comment_id env comment_id =
     except is_exception
       (bind datetime_now (\<lambda>now.
        set_checkpoint (we_stream_id env) (Some comment_id) (Some (isoformat (naive now)))))
       (\<lambda>_. skip)"

definition save_checkpoint :: "worker_env \<Rightarrow> (worker, unit) prog" where
  "save_checkpoint env =
     bind (get_checkpoint (we_stream_id env)) (\<lambda>checkpoint.
     if truthy (last_comment_id checkpoint)
     then save_checkpoint_for_comment_id env (or_empty (last_comment_id checkpoint)) else skip)"

subsection \<open>One comment\<close>

definition queue_message :: "worker_env \<Rightarrow> string \<Rightarrow> string \<Rightarrow> (worker, unit) prog" where
  "queue_message env comment_id payload =
     except is_exception
       (bind (produce (we_topic env) (we_subreddit env) payload) (\<lambda>h.
        andthen (modify_local (\<lambda>self. self\<lparr>wk_pending := wk_pending self @ [h], wk_mine := wk_mine self @ [h]\<rparr>))
          poll_deliveries))
       (\<lambda>e. Raise (kafka_delivery_error (''Kafka rejected comment '' @ comment_id @ '': '' @ estr e)))"

definition count_comment :: "worker_env \<Rightarrow> string \<Rightarrow> (worker, unit) prog" where
  "count_comment env comment_id =
     andthen (modify_local (\<lambda>self. self\<lparr>wk_comments := wk_comments self + 1\<rparr>))
    (bind get_local (\<lambda>self.
     if wk_comments self \<ge> checkpoint_interval then
       andthen (wait_for_delivery_batch env)
      (andthen (save_checkpoint_for_comment_id env comment_id)
        (modify_local (\<lambda>self. self\<lparr>wk_comments := 0\<rparr>)))
     else skip))"

definition publish_comment :: "worker_env \<Rightarrow> comment \<Rightarrow> (worker, unit) prog" where
  "publish_comment env comment =
     bind datetime_now (\<lambda>now.
     case comment_message (we_subreddit env) (case c_author comment of Some name \<Rightarrow> name | None \<Rightarrow> ''[deleted]'')
            (c_body comment) (stamp now) of
       Inl e \<Rightarrow> Raise e
     | Inr message \<Rightarrow>
         bind (serialize message) (\<lambda>serialized.
         case serialized of
           None \<Rightarrow> Raise (value_error ''Serializer returned no payload'')
         | Some payload \<Rightarrow>
             andthen (queue_message env (c_id comment) payload)
            (andthen (count_comment env (c_id comment))
              (emit (Inc ''comments'' [''queued''])))))"

definition processing_time :: "string \<Rightarrow> (worker, unit) prog" where
  "processing_time outcome = emit (Observe ''comment_processing_duration'' [outcome])"

definition process_comment :: "worker_env \<Rightarrow> comment \<Rightarrow> checkpoint \<Rightarrow> (worker, unit) prog" where
  "process_comment env comment checkpoint =
     (if truthy (last_comment_id checkpoint) \<and> last_comment_id checkpoint = Some (c_id comment)
      then emit (Inc ''comments'' [''replayed''])
      else
        bind (attempt (publish_comment env comment)) (\<lambda>r. case r of
          Inr _ \<Rightarrow> processing_time ''queued''
        | Inl e \<Rightarrow>
            if is_cancelled e then andthen (processing_time ''cancelled'') (Raise e)
            else if isinstance e [Kafka_Delivery_Error] then
              andthen (emit (Inc ''comments'' [''delivery_error'']))
             (andthen (processing_time ''delivery_error'') (Raise e))
            else if is_exception e then
              andthen (emit (Inc ''comments'' [''invalid'']))
                (finally_do
                  (record_error (we_db env) (we_stream_id env) ''CommentProcessingError'' (estr e) True)
                  (processing_time ''invalid''))
            else andthen (processing_time ''error'') (Raise e)))"

subsection \<open>The stream\<close>

definition handle_fetch_exception :: "worker_env \<Rightarrow> pyexn \<Rightarrow> (worker, unit) prog" where
  "handle_fetch_exception env error =
     (if isinstance error [Too_Many_Requests] then Raise error
      else if isinstance error [Not_Found, Forbidden] then
        bind (update_status_if_owner (we_db env) (we_stream_id env) ''error'' (we_instance_id env)) (\<lambda>_. Raise error)
      else Raise error)"

fun fetch_comments :: "nat \<Rightarrow> worker_env \<Rightarrow> bool \<Rightarrow> checkpoint \<Rightarrow> (worker, unit) prog" where
  "fetch_comments 0 env skip_existing checkpoint = Raise out_of_rounds"
| "fetch_comments (Suc n) env skip_existing checkpoint =
     bind (next_comment (we_subreddit env) skip_existing) (\<lambda>event. case event of
       Stream_End \<Rightarrow> skip
     | _ \<Rightarrow>
         bind get_local (\<lambda>self.
         if wk_stop self then skip
         else
           andthen (sleep_ms 0)
           (case event of
              Comment comment \<Rightarrow>
                andthen (emit (Inc ''reddit_comments_received'' []))
               (andthen (record_success breaker_settings wk_breaker set_breaker)
               (andthen (process_comment env comment checkpoint)
                 (fetch_comments n env skip_existing checkpoint)))
            | _ \<Rightarrow> fetch_comments n env skip_existing checkpoint)))"

definition fetch_and_process_comments :: "nat \<Rightarrow> worker_env \<Rightarrow> (worker, unit) prog" where
  "fetch_and_process_comments n env =
     andthen (unit_call (Reddit_Subreddit (we_subreddit env)))
    (bind (get_checkpoint (we_stream_id env)) (\<lambda>checkpoint.
     bind (attempt (fetch_comments n env (last_comment_id checkpoint = None) checkpoint)) (\<lambda>r. case r of
       Inr _ \<Rightarrow> skip
     | Inl e \<Rightarrow>
         if is_cancelled e then Raise e
         else if is_exception e then handle_fetch_exception env e
         else Raise e)))"

definition handle_error :: "worker_env \<Rightarrow> pyexn \<Rightarrow> (worker, unit) prog" where
  "handle_error env error =
     andthen (record_error (we_db env) (we_stream_id env) (etype error) (estr error) (is_retryable error))
     (if should_abandon_stream error then
        bind (update_status_if_owner (we_db env) (we_stream_id env) ''error'' (we_instance_id env)) (\<lambda>_. Raise error)
      else if should_retry_with_backoff error then sleep_ms (1000 * get_backoff_duration error)
      else if should_retry_transient error then sleep_ms (1000 * get_backoff_duration error)
      else Raise error)"

fun stream_loop :: "nat \<Rightarrow> nat \<Rightarrow> worker_env \<Rightarrow> (worker, unit) prog" where
  "stream_loop 0 m env = Raise out_of_rounds"
| "stream_loop (Suc n) m env =
     bind get_local (\<lambda>self.
     if wk_stop self then skip
     else
       bind (attempt (breaker_call breaker_settings wk_breaker set_breaker (fetch_and_process_comments m env)))
         (\<lambda>r. case r of
           Inr _ \<Rightarrow> stream_loop n m env
         | Inl e \<Rightarrow>
             if is_cancelled e then Raise e
             else if is_exception e then andthen (handle_error env e) (stream_loop n m env)
             else Raise e))"

subsection \<open>The lease\<close>

definition record_lock_loss :: "(worker, unit) prog" where
  "record_lock_loss =
     andthen (emit (Inc ''stream_lifecycle'' [''lease'', ''lost'']))
       (modify_local (\<lambda>self. self\<lparr>wk_stop := True\<rparr>))"

definition refresh_lock_or_raise :: "worker_env \<Rightarrow> (worker, unit) prog" where
  "refresh_lock_or_raise env =
     bind (attempt (wait_for (refresh_lock (we_subreddit env) (we_lock_token env) lock_ttl))) (\<lambda>r. case r of
       Inl e \<Rightarrow>
         if is_cancelled e then Raise e
         else if is_exception e then
           andthen record_lock_loss
             (Raise (lock_lost_error (''Could not verify lock ownership for '' @ we_subreddit env)))
         else Raise e
     | Inr success \<Rightarrow>
         if \<not> success then
           andthen record_lock_loss (Raise (lock_lost_error (''Lock ownership lost for '' @ we_subreddit env)))
         else
           except is_exception (bind (heartbeat (we_stream_id env) (we_instance_id env)) (\<lambda>_. skip)) (\<lambda>_. skip))"

fun lock_refresh_loop :: "nat \<Rightarrow> worker_env \<Rightarrow> (worker, unit) prog" where
  "lock_refresh_loop 0 env = Raise out_of_rounds"
| "lock_refresh_loop (Suc n) env =
     andthen (sleep_ms (1000 * lock_refresh_interval))
    (andthen (refresh_lock_or_raise env) (lock_refresh_loop n env))"

subsection \<open>The life of a worker\<close>

definition stream_task :: "worker_env \<Rightarrow> string" where
  "stream_task env = ''stream-loop-'' @ we_stream_id env"

definition lock_task :: "worker_env \<Rightarrow> string" where
  "lock_task env = ''lock-refresh-'' @ we_stream_id env"

text \<open>The two tasks have been created; how the wait for them ends: whether the worker is
  shutting down, and its outcome.\<close>

definition await_tasks :: "worker_env \<Rightarrow> (worker, bool \<times> (pyexn + unit)) prog" where
  "await_tasks env =
     bind (attempt (wait_tasks (we_stream_id env))) (\<lambda>t.
     let outcome = (case t of
         Inr (Watcher_Raised e) \<Rightarrow> (True, Inl e)
       | Inr Stop_Seen \<Rightarrow>
           (True, Inl (lock_lost_error (''Lock refresher stopped unexpectedly for '' @ we_subreddit env)))
       | Inr (Runner_Raised e) \<Rightarrow> (is_cancelled e, Inl e)
       | Inr Runner_Returned \<Rightarrow> (False, Inr ())
       | Inl e \<Rightarrow> (is_cancelled e, Inl e))
     in andthen (unit_call (Cancel_Task (stream_task env)))
       (andthen (unit_call (Cancel_Task (lock_task env)))
       (bind (attempt (unit_call (Gather [stream_task env, lock_task env]))) (\<lambda>g.
         Ret (case g of Inl e \<Rightarrow> (fst outcome, Inl e) | Inr _ \<Rightarrow> outcome)))))"

definition run_worker :: "worker_env \<Rightarrow> (worker, unit) prog" where
  "run_worker env =
     bind (bind (attempt (refresh_lock_or_raise env)) (\<lambda>r. case r of
         Inl e \<Rightarrow> Ret (False, Inl e)
       | Inr _ \<Rightarrow> await_tasks env)) (\<lambda>(shutdown, outcome).
     andthen (if shutdown then except is_exception (save_checkpoint env) (\<lambda>_. skip) else skip)
    (andthen (except is_exception
        (bind (release_lock (we_subreddit env) (we_lock_token env)) (\<lambda>_. skip)) (\<lambda>_. skip))
      (case outcome of Inl e \<Rightarrow> Raise e | Inr _ \<Rightarrow> skip)))"

end
