(* ===== verification/Rely.thy ===== *)
theory Rely
  imports Outcomes
begin

section \<open>A task among the other tasks of its object\<close>

text \<open>
  What a task does whatever the other tasks do meanwhile: between two of its steps others may
  change their object's attributes by \<open>T\<close>, and the services in any way in which the broker keeps what it
  has. \<open>rg T G p Q\<close> says of a program started with attributes \<open>l\<close>, while the broker has the
  messages \<open>a\<close>: every call it ever makes satisfies \<open>G\<close>, and if it ends, its outcome satisfies \<open>Q\<close>.
  \<open>pool_rg\<close> carries the statement to any interleaving.
\<close>

primrec rg ::
    "('l \<Rightarrow> 'l \<Rightarrow> bool) \<Rightarrow> (call \<Rightarrow> 'l \<Rightarrow> (nat \<Rightarrow> bool) \<Rightarrow> bool) \<Rightarrow> ('l, 'a) prog \<Rightarrow>
     (pyexn + 'a \<Rightarrow> 'l \<Rightarrow> (nat \<Rightarrow> bool) \<Rightarrow> bool) \<Rightarrow> 'l \<Rightarrow> (nat \<Rightarrow> bool) \<Rightarrow> bool" where
  "rg T G (Ret x) Q l a = Q (Inr x) l a"
| "rg T G (Raise e) Q l a = Q (Inl e) l a"
| "rg T G (Call c k) Q l a =
     (G c l a \<and>
      (\<forall>v r v' l' a'. a \<le> acked v \<longrightarrow> documented c v r v' \<longrightarrow> acked v' \<le> a' \<longrightarrow> T l l' \<longrightarrow>
         rg T G (k r) Q l' a'))"
| "rg T G (Get_Local k) Q l a = rg T G (k l) Q l a"
| "rg T G (Put_Local l' p) Q l a = rg T G p Q l' a"
| "rg T G (Emit m p) Q l a = rg T G p Q l a"

named_theorems rg_rules \<open>rely-guarantee rules of the basic programs\<close>

lemma rg_mono:
  assumes "rg T G p Q l a" and "\<And>r l a. Q r l a \<Longrightarrow> Q' r l a"
  shows "rg T G p Q' l a"
  using assms(1)
proof (induction p arbitrary: l a)
  case (Call c k)
  then show ?case by (auto intro: Call.IH [OF rangeI])
qed (auto intro: assms(2))

lemma rg_bind:
  "rg T G (bind p f) Q l a =
     rg T G p (\<lambda>r l a. case r of Inl e \<Rightarrow> Q (Inl e) l a | Inr x \<Rightarrow> rg T G (f x) Q l a) l a"
  by (induction p arbitrary: l a) auto

lemma rg_except:
  "rg T G (except g p h) Q l a =
     rg T G p (\<lambda>r l a. case r of
        Inl e \<Rightarrow> if g e then rg T G (h e) Q l a else Q (Inl e) l a | Inr x \<Rightarrow> Q (Inr x) l a) l a"
  by (induction p arbitrary: l a) auto

lemma rg_finally:
  "rg T G (finally_do p q) Q l a =
     rg T G p (\<lambda>r. rg T G q (\<lambda>r' l a. case r' of Inl e \<Rightarrow> Q (Inl e) l a | Inr _ \<Rightarrow> Q r l a)) l a"
  by (induction p arbitrary: l a) (simp_all add: rg_bind cong: sum.case_cong)

lemma rg_attempt: "rg T G (attempt p) Q l a = rg T G p (\<lambda>r. Q (Inr r)) l a"
proof -
  have "(\<lambda>r l a. case r of Inl e \<Rightarrow> Q (Inr (Inl e)) l a | Inr x \<Rightarrow> Q (Inr (Inr x)) l a) = (\<lambda>r. Q (Inr r))"
    by (auto simp: fun_eq_iff split: sum.splits)
  then show ?thesis by (simp add: attempt_def rg_except rg_bind cong: sum.case_cong)
qed

lemma rg_andthen:
  "rg T G (andthen p q) Q l a =
     rg T G p (\<lambda>r l a. case r of Inl e \<Rightarrow> Q (Inl e) l a | Inr _ \<Rightarrow> rg T G q Q l a) l a"
  by (simp add: andthen_def rg_bind)

lemma rg_seq:
  assumes "rg T G p R l a" and "\<And>e l a. R (Inl e) l a \<Longrightarrow> Q (Inl e) l a"
    and "\<And>x l a. R (Inr x) l a \<Longrightarrow> rg T G (f x) Q l a"
  shows "rg T G (bind p f) Q l a"
  unfolding rg_bind using assms(1) by (rule rg_mono) (auto intro: assms split: sum.splits)

lemma rg_seq_andthen:
  assumes "rg T G p R l a" and "\<And>e l a. R (Inl e) l a \<Longrightarrow> Q (Inl e) l a"
    and "\<And>x l a. R (Inr x) l a \<Longrightarrow> rg T G q Q l a"
  shows "rg T G (andthen p q) Q l a"
  unfolding andthen_def using assms by (rule rg_seq)

lemma rg_basic [rg_rules]:
  "rg T G (emit m) Q l a = Q (Inr ()) l a"
  "rg T G skip Q l a = Q (Inr ()) l a"
  "rg T G get_local Q' l a = Q' (Inr l) l a"
  "rg T G (modify_local f) Q l a = Q (Inr ()) (f l) a"
  by (simp_all add: emit_def skip_def get_local_def modify_local_def)

subsection \<open>Calls\<close>

text \<open>Every call lets time pass: the attributes may change by \<open>T\<close> and the broker may get more
  messages. \<open>passes T Q r\<close> says that \<open>Q\<close> holds of the answer after any such passage.\<close>

definition passes ::
    "('l \<Rightarrow> 'l \<Rightarrow> bool) \<Rightarrow> ('l \<Rightarrow> (nat \<Rightarrow> bool) \<Rightarrow> bool) \<Rightarrow> 'l \<Rightarrow> (nat \<Rightarrow> bool) \<Rightarrow> bool" where
  "passes T Q l a = (\<forall>l' a'. T l l' \<longrightarrow> a \<le> a' \<longrightarrow> Q l' a')"

lemma passesI: "(\<And>l' a'. T l l' \<Longrightarrow> a \<le> a' \<Longrightarrow> Q l' a') \<Longrightarrow> passes T Q l a"
  by (simp add: passes_def)

lemma documented_acked: "documented c v r v' \<Longrightarrow> acked v \<le> acked v'"
  by (cases c; cases r) (auto simp: truthful_def split: sum.splits)

text \<open>A call of whose answer nothing is assumed.\<close>

lemma rg_call:
  assumes "G c l a" and "\<And>r. passes T (\<lambda>l' a'. rg T G (k r) Q l' a') l a"
  shows "rg T G (Call c k) Q l a"
  using assms by (auto simp: passes_def dest!: documented_acked intro: order_trans)

text \<open>Programs that keep an invariant of the attributes and of what the broker has, which
  the passage of time keeps, and whose calls satisfy the guarantee.\<close>

definition steady ::
    "('l \<Rightarrow> 'l \<Rightarrow> bool) \<Rightarrow> (call \<Rightarrow> 'l \<Rightarrow> (nat \<Rightarrow> bool) \<Rightarrow> bool) \<Rightarrow> ('l \<Rightarrow> (nat \<Rightarrow> bool) \<Rightarrow> bool) \<Rightarrow>
     ('l, 'a) prog \<Rightarrow> bool" where
  "steady T G I p = (\<forall>l a. I l a \<longrightarrow> rg T G p (\<lambda>_. I) l a)"

named_theorems steady_rules \<open>composition of steady programs\<close>

lemma steadyD: "steady T G I p \<Longrightarrow> I l a \<Longrightarrow> rg T G p (\<lambda>_. I) l a"
  by (simp add: steady_def)

lemma steadyI: "(\<And>l a. I l a \<Longrightarrow> rg T G p (\<lambda>_. I) l a) \<Longrightarrow> steady T G I p"
  by (simp add: steady_def)

lemma steady_bind [steady_rules]:
  "steady T G I p \<Longrightarrow> (\<And>x. steady T G I (f x)) \<Longrightarrow> steady T G I (bind p f)"
  unfolding steady_def rg_bind
  by (intro allI impI, elim allE, erule (1) impE, erule rg_mono) (auto split: sum.splits)

lemma steady_andthen [steady_rules]: "steady T G I p \<Longrightarrow> steady T G I q \<Longrightarrow> steady T G I (andthen p q)"
  by (simp add: andthen_def steady_bind)

lemma steady_except [steady_rules]:
  "steady T G I p \<Longrightarrow> (\<And>e. steady T G I (h e)) \<Longrightarrow> steady T G I (except g p h)"
  unfolding steady_def rg_except
  by (intro allI impI, elim allE, erule (1) impE, erule rg_mono) (auto split: sum.splits)

lemma steady_basic [steady_rules]:
  "steady T G I (Ret x)" "steady T G I (Raise e)" "steady T G I skip" "steady T G I (emit m)"
  by (simp_all add: steady_def rg_basic)

lemma steady_modify [steady_rules]:
  "(\<And>l a. I l a \<Longrightarrow> I (f l) a) \<Longrightarrow> steady T G I (modify_local f)"
  by (simp add: steady_def rg_basic)

lemma steady_get [steady_rules]: "(\<And>l. steady T G I (f l)) \<Longrightarrow> steady T G I (bind get_local f)"
  by (simp add: steady_def rg_bind rg_basic)

lemma steady_cases [steady_rules]:
  "(b \<Longrightarrow> steady T G I p) \<Longrightarrow> (\<not> b \<Longrightarrow> steady T G I q) \<Longrightarrow> steady T G I (if b then p else q)"
  "(x = None \<Longrightarrow> steady T G I p) \<Longrightarrow> (\<And>y. x = Some y \<Longrightarrow> steady T G I (f y)) \<Longrightarrow>
     steady T G I (case x of None \<Rightarrow> p | Some y \<Rightarrow> f y)"
  "(\<And>e. r = Inl e \<Longrightarrow> steady T G I (g e)) \<Longrightarrow> (\<And>y. r = Inr y \<Longrightarrow> steady T G I (h y)) \<Longrightarrow>
     steady T G I (case r of Inl e \<Rightarrow> g e | Inr y \<Rightarrow> h y)"
  "(\<And>y. y = t \<Longrightarrow> steady T G I (f y)) \<Longrightarrow> steady T G I (let y = t in f y)"
  by (simp, cases x, auto, cases r, auto)

lemma steady_call:
  assumes "\<And>l a. I l a \<Longrightarrow> G c l a" and "\<And>l a l' a'. I l a \<Longrightarrow> T l l' \<Longrightarrow> a \<le> a' \<Longrightarrow> I l' a'"
    and "\<And>r. steady T G I (k r)"
  shows "steady T G I (Call c k)"
  using assms(3) by (intro steadyI rg_call passesI) (auto intro: assms(1,2) dest: steadyD)

subsection \<open>The calls of the source\<close>

definition lasting :: "('l \<Rightarrow> 'l \<Rightarrow> bool) \<Rightarrow> ('l \<Rightarrow> (nat \<Rightarrow> bool) \<Rightarrow> bool) \<Rightarrow> bool" where
  "lasting T I = (\<forall>l a l' a'. I l a \<longrightarrow> T l l' \<longrightarrow> a \<le> a' \<longrightarrow> I l' a')"

definition allowed :: "(call \<Rightarrow> 'l \<Rightarrow> (nat \<Rightarrow> bool) \<Rightarrow> bool) \<Rightarrow> ('l \<Rightarrow> (nat \<Rightarrow> bool) \<Rightarrow> bool) \<Rightarrow> call \<Rightarrow> bool" where
  "allowed G I c = (\<forall>l a. I l a \<longrightarrow> G c l a)"

lemma steady_issue: "lasting T I \<Longrightarrow> allowed G I c \<Longrightarrow> (\<And>r. steady T G I (k r)) \<Longrightarrow> steady T G I (Call c k)"
  by (rule steady_call) (auto simp: lasting_def allowed_def)

lemma steady_redis [steady_rules]:
  "lasting T I \<Longrightarrow> allowed G I (Redis c) \<Longrightarrow> steady T G I (redis c)"
  unfolding redis_def
  by (rule steady_issue) (auto intro: steady_rules split: sum.split reply.split)

lemma steady_readings [steady_rules]:
  "steady T G I (as_text x)" "steady T G I (as_bool x)" "steady T G I (as_ok x)" "steady T G I (as_hash x)"
  "steady T G I (as_hashes x)" "steady T G I (as_members x)" "steady T G I (as_list x)" "steady T G I (as_int x)"
  by (auto simp: as_text_def as_bool_def as_ok_def as_hash_def as_hashes_def as_members_def
      as_list_def as_int_def intro: steady_rules split: rreply.split)

lemma steady_calls [steady_rules]:
  "lasting T I \<Longrightarrow> allowed G I (Pg q) \<Longrightarrow> steady T G I (pg_transaction q)"
  "lasting T I \<Longrightarrow> allowed G I Now \<Longrightarrow> steady T G I datetime_now"
  "lasting T I \<Longrightarrow> allowed G I Uuid4 \<Longrightarrow> steady T G I uuid4"
  "lasting T I \<Longrightarrow> allowed G I (Sleep ms) \<Longrightarrow> steady T G I (sleep_ms ms)"
  "lasting T I \<Longrightarrow> allowed G I c \<Longrightarrow> steady T G I (unit_call c)"
  unfolding pg_transaction_def datetime_now_def uuid4_def sleep_ms_def unit_call_def
  by (rule steady_issue; auto intro: steady_rules split: sum.split reply.split)+

lemma steady_redis_do [steady_rules]:
  "lasting T I \<Longrightarrow> allowed G I (Redis c) \<Longrightarrow> steady T G I (redis_do c)"
  "lasting T I \<Longrightarrow> allowed G I (Redis (Eval sc)) \<Longrightarrow> steady T G I (redis_eval sc)"
  "lasting T I \<Longrightarrow> allowed G I (Redis (Hgetall k)) \<Longrightarrow> steady T G I (redis_hgetall k)"
  unfolding redis_do_def redis_eval_def redis_hgetall_def by (intro steady_rules; assumption)+

lemma steady_now_iso [steady_rules]: "lasting T I \<Longrightarrow> allowed G I Now \<Longrightarrow> steady T G I now_iso"
  unfolding now_iso_def by (intro steady_rules)

lemma steady_persist [steady_rules]: "lasting T I \<Longrightarrow> allowed G I (Pg q) \<Longrightarrow> steady T G I (persist db q)"
  unfolding persist_def by (intro steady_rules)

text \<open>The calls whose answers matter.\<close>

lemma rg_now:
  "G Now l a \<Longrightarrow> passes T (\<lambda>l a. \<forall>d. Q (Inr d) l a) l a \<Longrightarrow> rg T G datetime_now Q l a"
  by (auto simp: datetime_now_def passes_def)

lemma rg_sleep:
  "G (Sleep ms) l a \<Longrightarrow> passes T (\<lambda>l a. Q (Inr ()) l a \<and> (\<forall>e. \<not> is_exception e \<longrightarrow> Q (Inl e) l a)) l a \<Longrightarrow>
     rg T G (sleep_ms ms) Q l a"
  by (auto simp: sleep_ms_def passes_def)

lemma rg_loop_time:
  "G Loop_Time l a \<Longrightarrow> passes T (\<lambda>l a. \<forall>t. Q (Inr t) l a) l a \<Longrightarrow> rg T G loop_time Q l a"
  by (auto simp: loop_time_def passes_def)

lemma rg_next_comment:
  "G (Next_Comment sub sk) l a \<Longrightarrow> passes T (\<lambda>l a. \<forall>r. Q r l a) l a \<Longrightarrow> rg T G (next_comment sub sk) Q l a"
  by (auto simp: next_comment_def passes_def)

lemma rg_serialize:
  "G (Serialize m) l a \<Longrightarrow> passes T (\<lambda>l a. \<forall>r. Q r l a) l a \<Longrightarrow> rg T G (serialize m) Q l a"
  by (auto simp: serialize_def passes_def)

lemma rg_produce:
  "G (Produce topic key x) l a \<Longrightarrow> passes T (\<lambda>l a. \<forall>r. Q r l a) l a \<Longrightarrow> rg T G (produce topic key x) Q l a"
  by (auto simp: produce_def passes_def intro: order_trans)

definition reported :: "delivery_report list \<Rightarrow> (nat \<Rightarrow> bool) \<Rightarrow> bool" where
  "reported rs a = (\<forall>r \<in> set rs. dr_error r = None \<longrightarrow> a (dr_handle r))"

lemma reports_arrive:
  "a \<le> acked v \<Longrightarrow> truthful v rs a1 \<Longrightarrow> a1 \<le> a' \<Longrightarrow> a \<le> a' \<and> reported rs a'"
  by (auto simp: truthful_def reported_def le_fun_def)

lemma rg_poll:
  assumes "G Poll l a"
    and "passes T (\<lambda>l a. (\<forall>e. is_exception e \<longrightarrow> Q (Inl e) l a) \<and> (\<forall>rs. reported rs a \<longrightarrow> Q (Inr rs) l a)) l a"
  shows "rg T G (reports_call Poll) Q l a"
proof -
  have "\<And>l' a' e. T l l' \<Longrightarrow> a \<le> a' \<Longrightarrow> is_exception e \<Longrightarrow> Q (Inl e) l' a'"
    and "\<And>v l' a1 a' rs. T l l' \<Longrightarrow> a \<le> acked v \<Longrightarrow> truthful v rs a1 \<Longrightarrow> a1 \<le> a' \<Longrightarrow> Q (Inr rs) l' a'"
    using assms(2) reports_arrive [of a] unfolding passes_def by blast+
  with assms(1) show ?thesis
    unfolding reports_call_def by (auto intro: order_trans)
qed

lemma rg_wait:
  assumes "G (Wait_Deliveries hs timeout) l a"
    and "passes T (\<lambda>l a. (\<forall>e. \<not> is_exception e \<longrightarrow> Q (Inl e) l a) \<and> (\<forall>rs. reported rs a \<longrightarrow> Q (Inr rs) l a)) l a"
  shows "rg T G (reports_call (Wait_Deliveries hs timeout)) Q l a"
proof -
  have "\<And>l' a' e. T l l' \<Longrightarrow> a \<le> a' \<Longrightarrow> \<not> is_exception e \<Longrightarrow> Q (Inl e) l' a'"
    and "\<And>v l' a1 a' rs. T l l' \<Longrightarrow> a \<le> acked v \<Longrightarrow> truthful v rs a1 \<Longrightarrow> a1 \<le> a' \<Longrightarrow> Q (Inr rs) l' a'"
    using assms(2) reports_arrive [of a] unfolding passes_def by blast+
  with assms(1) show ?thesis
    unfolding reports_call_def by (auto intro: order_trans)
qed

subsection \<open>Soundness\<close>

text \<open>Of a task that runs alone.\<close>

lemma rg_wp: "rg T G p Q l (acked v) \<Longrightarrow> reflp T \<Longrightarrow> wp p (\<lambda>r l v. Q r l (acked v)) l v"
proof (induction p arbitrary: l v)
  case (Call c k)
  have "rg T G (k r) Q l (acked v')" if "documented c v r v'" for r v'
    using Call.prems(1) that reflpD [OF Call.prems(2), of l] unfolding rg.simps by blast
  with Call.prems(2) show ?case by (auto intro!: Call.IH [OF rangeI])
qed auto

text \<open>The updates other tasks make: every change of the attributes is in \<open>T\<close>.\<close>

primrec puts :: "('l \<Rightarrow> 'l \<Rightarrow> bool) \<Rightarrow> ('l, 'a) prog \<Rightarrow> 'l \<Rightarrow> bool" where
  "puts T (Ret x) l = True"
| "puts T (Raise e) l = True"
| "puts T (Call c k) l = (\<forall>r l'. puts T (k r) l')"
| "puts T (Get_Local k) l = puts T (k l) l"
| "puts T (Put_Local l' p) l = (T l l' \<and> puts T p l')"
| "puts T (Emit m p) l = puts T p l"

lemma puts_bind: "puts T p l \<Longrightarrow> (\<And>x l. puts T (f x) l) \<Longrightarrow> puts T (bind p f) l"
  by (induction p arbitrary: l) auto

lemma puts_except: "puts T p l \<Longrightarrow> (\<And>e l. puts T (h e) l) \<Longrightarrow> puts T (except g p h) l"
  by (induction p arbitrary: l) auto

definition mild :: "('l \<Rightarrow> 'l \<Rightarrow> bool) \<Rightarrow> ('l, 'a) prog \<Rightarrow> bool" where
  "mild T p = (\<forall>l. puts T p l)"

named_theorems mild_rules \<open>programs that change the attributes only by a relation\<close>

lemma mild_compose [mild_rules]:
  "mild T p \<Longrightarrow> (\<And>x. mild T (f x)) \<Longrightarrow> mild T (bind p f)"
  "mild T p \<Longrightarrow> mild T q \<Longrightarrow> mild T (andthen p q)"
  "mild T p \<Longrightarrow> (\<And>e. mild T (h e)) \<Longrightarrow> mild T (except g p h)"
  by (simp_all add: mild_def andthen_def puts_bind puts_except)

lemma mild_basic [mild_rules]:
  "mild T (Ret x)" "mild T (Raise e)" "mild T skip" "mild T (emit m)" "mild T get_local"
  by (simp_all add: mild_def skip_def emit_def get_local_def)

lemma mild_modify [mild_rules]: "(\<And>l. T l (f l)) \<Longrightarrow> mild T (modify_local f)"
  by (simp add: mild_def modify_local_def)

lemma mild_call [mild_rules]: "(\<And>r. mild T (k r)) \<Longrightarrow> mild T (Call c k)"
  by (simp add: mild_def)

lemma mild_attempt [mild_rules]: "mild T p \<Longrightarrow> mild T (attempt p)"
  unfolding attempt_def by (intro mild_rules)

lemma mild_cases [mild_rules]:
  "(b \<Longrightarrow> mild T p) \<Longrightarrow> (\<not> b \<Longrightarrow> mild T q) \<Longrightarrow> mild T (if b then p else q)"
  "(\<And>e. r = Inl e \<Longrightarrow> mild T (g e)) \<Longrightarrow> (\<And>y. r = Inr y \<Longrightarrow> mild T (h y)) \<Longrightarrow>
     mild T (case r of Inl e \<Rightarrow> g e | Inr y \<Rightarrow> h y)"
  by (simp, cases r, auto)

lemma mild_calls [mild_rules]:
  "mild T (redis c)" "mild T (as_bool x)" "mild T datetime_now" "mild T timed_out" "mild T (sleep_ms ms)"
  by (auto simp: redis_def as_bool_def datetime_now_def timed_out_def sleep_ms_def
      intro!: mild_rules split: sum.split reply.split rreply.split)

lemma mild_more_calls [mild_rules]:
  "mild T (redis_eval sc)" "mild T now_iso" "mild T p \<Longrightarrow> mild T (wait_for p)"
  unfolding redis_eval_def now_iso_def wait_for_def by (intro mild_rules; assumption)+

lemma raises_wp: "raises P p \<Longrightarrow> wp p (\<lambda>r _ _. \<forall>e. r = Inl e \<longrightarrow> P e) l v"
  by (induction p arbitrary: l v) auto

lemma mild_wp: "mild (=) p \<Longrightarrow> wp p (\<lambda>_ l' _. l' = l) l v"
proof -
  have "puts (=) p l \<Longrightarrow> wp p (\<lambda>_ l' _. l' = l) l v" by (induction p arbitrary: l v) auto
  then show "mild (=) p \<Longrightarrow> wp p (\<lambda>_ l' _. l' = l) l v" by (simp add: mild_def)
qed

text \<open>A program that is about to make a call, or has ended.\<close>

definition at_rest :: "('l, 'a) prog \<Rightarrow> bool" where
  "at_rest p = (case p of Ret x \<Rightarrow> True | Raise e \<Rightarrow> True | Call c k \<Rightarrow> True | _ \<Rightarrow> False)"

lemma at_rest_settle: "settle S p l w = (p', l', w') \<Longrightarrow> at_rest p'"
proof (induction p arbitrary: l w)
  case (Get_Local k)
  from Get_Local.IH [OF rangeI] Get_Local.prems show ?case by simp
qed (auto simp: at_rest_def)

lemma puts_at_rest: "at_rest p \<Longrightarrow> puts T p l = puts T p l'"
  by (cases p) (auto simp: at_rest_def)

lemma settle_puts:
  assumes "settle S p l w = (p', l', w')" and "puts T p l" and "reflp T" and "transp T"
  shows "T l l' \<and> (\<forall>l. puts T p' l)"
  using assms(1,2)
proof (induction p arbitrary: l w)
  case (Get_Local k)
  from Get_Local.IH [OF rangeI] Get_Local.prems show ?case by simp
next
  case (Put_Local l1 p)
  then show ?case using transpD [OF assms(4), of l l1 l'] by auto
qed (auto intro: reflpD [OF assms(3)])

lemma rg_at_rest:
  assumes "at_rest p" and "rg T G p Q l a" and "transp T"
    and "\<And>c l a l' a'. G c l a \<Longrightarrow> T l l' \<Longrightarrow> a \<le> a' \<Longrightarrow> G c l' a'"
    and "\<And>r l a l' a'. Q r l a \<Longrightarrow> T l l' \<Longrightarrow> a \<le> a' \<Longrightarrow> Q r l' a'"
  shows "passes T (rg T G p Q) l a"
proof (rule passesI)
  fix l' a'
  assume "T l l'" "a \<le> a'"
  with assms(1-3) show "rg T G p Q l' a'"
  proof (cases p)
    case (Call c k)
    with assms(2) have "G c l a" and k: "a \<le> acked v \<Longrightarrow> documented c v r v' \<Longrightarrow> acked v' \<le> a2 \<Longrightarrow>
      T l l2 \<Longrightarrow> rg T G (k r) Q l2 a2" for v r v' l2 a2
      by auto
    from this(1) \<open>T l l'\<close> \<open>a \<le> a'\<close> have "G c l' a'" by (rule assms(4))
    moreover have "rg T G (k r) Q l2 a2"
      if "a' \<le> acked v" "documented c v r v'" "acked v' \<le> a2" "T l' l2" for v r v' l2 a2
      using that order_trans [OF \<open>a \<le> a'\<close>] transpD [OF assms(3) \<open>T l l'\<close>] by (intro k)
    ultimately show ?thesis using Call by simp
  qed (auto simp: at_rest_def intro: assms(5))
qed

context documented_services
begin

lemma settle_rg:
  "rg T G p Q l (acked (V w)) \<Longrightarrow> settle S p l w = (p', l', w') \<Longrightarrow>
     rg T G p' Q l' (acked (V w'))"
proof (induction p arbitrary: l w)
  case (Get_Local k)
  from Get_Local.IH [OF rangeI] Get_Local.prems show ?case by simp
next
  case (Emit m p)
  from Emit.IH [of l "tell S m w"] Emit.prems show ?case by (simp add: tell_doc)
qed auto

lemma settle_acked: "settle S p l w = (p', l', w') \<Longrightarrow> acked (V w') = acked (V w)"
proof (induction p arbitrary: l w)
  case (Get_Local k)
  from Get_Local.IH [OF rangeI] Get_Local.prems show ?case by simp
next
  case (Emit m p)
  from Emit.IH [of l "tell S m w"] Emit.prems show ?case by (simp add: tell_doc)
qed auto

lemma ask_acked: "ask S c w = (r, w') \<Longrightarrow> acked (V w) \<le> acked (V w')"
  using documented_acked [OF ask_doc [of c w]] by simp

text \<open>The steps of the other tasks, and one's own.\<close>

lemma step_puts:
  assumes "pool_step S j (ps, l, w) = (ps', l', w')" and "mild T (ps ! j)"
    and "reflp T" and "transp T"
  shows "T l l' \<and> acked (V w) \<le> acked (V w') \<and> (j < length ps \<longrightarrow> mild T (ps' ! j))"
proof (cases "j < length ps")
  case True
  obtain p1 l1 w1 where s1: "settle S (ps ! j) l w = (p1, l1, w1)" by (cases "settle S (ps ! j) l w")
  from settle_puts [OF s1 _ assms(3,4)] assms(2) have p1: "T l l1" "mild T p1" by (auto simp: mild_def)
  from settle_acked [OF s1] have a1: "acked (V w1) = acked (V w)" .
  show ?thesis
  proof (cases "\<exists>c k. p1 = Call c k")
    case True
    then obtain c k where c: "p1 = Call c k" by auto
    obtain r w2 where r: "ask S c w1 = (r, w2)" by (cases "ask S c w1")
    obtain p2 l2 w3 where s2: "settle S (k r) l1 w2 = (p2, l2, w3)" by (cases "settle S (k r) l1 w2")
    from p1(2) c settle_puts [OF s2 _ assms(3,4)] have "T l1 l2" "mild T p2" by (auto simp: mild_def)
    with p1(1) a1 ask_acked [OF r] settle_acked [OF s2] assms(1) \<open>j < length ps\<close> s1 c r s2
    show ?thesis by (auto simp: pool_step_def intro: transpD [OF assms(4)])
  next
    case False
    then have "(ps', l', w') = (ps[j := p1], l1, w1)"
      using assms(1) \<open>j < length ps\<close> s1 by (cases p1) (auto simp: pool_step_def)
    with p1 a1 \<open>j < length ps\<close> show ?thesis by simp
  qed
next
  case False
  with assms show ?thesis by (auto simp: pool_step_def reflpD)
qed

lemma step_rg:
  assumes "pool_step S i (ps, l, w) = (ps', l', w')" and "i < length ps"
    and "rg T G (ps ! i) Q l (acked (V w))" and "reflp T"
  shows "rg T G (ps' ! i) Q l' (acked (V w')) \<and> at_rest (ps' ! i)"
proof -
  obtain p1 l1 w1 where s1: "settle S (ps ! i) l w = (p1, l1, w1)" by (cases "settle S (ps ! i) l w")
  from settle_rg [OF assms(3) s1] have p1: "rg T G p1 Q l1 (acked (V w1))" by simp
  show ?thesis
  proof (cases "\<exists>c k. p1 = Call c k")
    case True
    then obtain c k where c: "p1 = Call c k" by auto
    obtain r w2 where r: "ask S c w1 = (r, w2)" by (cases "ask S c w1")
    obtain p2 l2 w3 where s2: "settle S (k r) l1 w2 = (p2, l2, w3)" by (cases "settle S (k r) l1 w2")
    have "documented c (V w1) r (V w2)" using ask_doc [of c w1] r by simp
    with p1 c have "rg T G (k r) Q l1 (acked (V w2))" by (auto simp: reflpD [OF assms(4)])
    from settle_rg [OF this s2] at_rest_settle [OF s2] assms(1,2) s1 c r s2 show ?thesis
      by (auto simp: pool_step_def)
  next
    case False
    then have "(ps', l', w') = (ps[i := p1], l1, w1)"
      using assms(1,2) s1 by (cases p1) (auto simp: pool_step_def)
    with p1 assms(2) at_rest_settle [OF s1] show ?thesis by simp
  qed
qed

lemma pool_rg:
  assumes "pool_run S sch (ps, l, w) = (ps', l', w')" and "i < length ps"
    and "passes T (rg T G (ps ! i) Q) l (acked (V w))"
    and "\<forall>j < length ps. j \<noteq> i \<longrightarrow> mild T (ps ! j)"
    and T: "reflp T" "transp T"
    and G: "\<And>c l a l' a'. G c l a \<Longrightarrow> T l l' \<Longrightarrow> a \<le> a' \<Longrightarrow> G c l' a'"
    and Q: "\<And>r l a l' a'. Q r l a \<Longrightarrow> T l l' \<Longrightarrow> a \<le> a' \<Longrightarrow> Q r l' a'"
  shows "rg T G (ps' ! i) Q l' (acked (V w'))"
  using assms(1-4)
proof (induction sch arbitrary: ps l w)
  case Nil
  then show ?case by (auto simp: pool_run_def passes_def reflpD [OF T(1)])
next
  case (Cons j sch)
  obtain ps1 l1 w1 where st: "pool_step S j (ps, l, w) = (ps1, l1, w1)" by (cases "pool_step S j (ps, l, w)")
  have len: "length ps1 = length ps"
    using st by (auto simp: pool_step_def split: if_splits prod.splits prog.splits)
  have other: "ps1 ! m = ps ! m" if "m \<noteq> j" for m
    using st that by (auto simp: pool_step_def split: if_splits prod.splits prog.splits)
  have run: "pool_run S sch (ps1, l1, w1) = (ps', l', w')"
    using Cons.prems(1) st by (simp add: pool_run_def)
  have i: "i < length ps1" using Cons.prems(2) len by simp
  have "passes T (rg T G (ps1 ! i) Q) l1 (acked (V w1)) \<and>
    (\<forall>m < length ps1. m \<noteq> i \<longrightarrow> mild T (ps1 ! m))"
  proof (cases "j = i")
    case True
    have "rg T G (ps ! i) Q l (acked (V w))"
      using Cons.prems(3) by (auto simp: passes_def reflpD [OF T(1)])
    from step_rg [OF st [unfolded True] Cons.prems(2) this T(1)]
    have "passes T (rg T G (ps1 ! i) Q) l1 (acked (V w1))"
      by (intro rg_at_rest) (auto intro: T G Q)
    with Cons.prems(4) len other True show ?thesis by auto
  next
    case False
    show ?thesis
    proof (cases "j < length ps")
      case True
      from step_puts [OF st _ T] Cons.prems(4) True False
      have "T l l1" "acked (V w) \<le> acked (V w1)" "mild T (ps1 ! j)" by auto
      moreover from this(3) Cons.prems(4) other len
      have "\<forall>m < length ps1. m \<noteq> i \<longrightarrow> mild T (ps1 ! m)" by metis
      ultimately show ?thesis using Cons.prems(3) other False
        by (auto simp: passes_def intro: transpD [OF T(2)] order_trans)
    next
      case False
      with st Cons.prems show ?thesis by (auto simp: pool_step_def)
    qed
  qed
  then have h: "passes T (rg T G (ps1 ! i) Q) l1 (acked (V w1))"
    "\<forall>m < length ps1. m \<noteq> i \<longrightarrow> mild T (ps1 ! m)" by auto
  show ?case by (rule Cons.IH [OF run i h])
qed

end

end
