(* ===== verification/Worker_Acks.thy ===== *)
theory Worker_Acks
  imports Worker Rely
begin

section \<open>Checkpoints follow acknowledgements\<close>

text \<open>
  The worker's safety argument: the stream's checkpoint is written only while the broker has
  every message the worker ever produced. \<open>worker_ok\<close> is the invariant between two comments;
  \<open>acked_writes\<close> the guarantee on calls; the rely is that other tasks of the worker only set its
  stop event. With \<open>b\<close> the invariant also counts the pending messages.
\<close>

definition stop_only :: "worker \<Rightarrow> worker \<Rightarrow> bool" where
  "stop_only l l' = (l' = l \<or> l' = l\<lparr>wk_stop := True\<rparr>)"

lemma stop_only_rel: "reflp stop_only" "transp stop_only"
  by (auto simp: stop_only_def intro!: reflpI transpI)

lemma stop_only_sel:
  assumes "stop_only l l'"
  shows "wk_comments l' = wk_comments l" "wk_pending l' = wk_pending l" "wk_mine l' = wk_mine l"
    "wk_results l' = wk_results l" "wk_breaker l' = wk_breaker l"
  using assms by (auto simp: stop_only_def)

fun call_writes :: "call \<Rightarrow> string set" where
  "call_writes (Redis c) = writes c"
| "call_writes _ = {}"

definition all_acked :: "worker \<Rightarrow> (nat \<Rightarrow> bool) \<Rightarrow> bool" where
  "all_acked l a = (wk_pending l = [] \<and> (\<forall>h \<in> set (wk_mine l). a h))"

definition acked_writes :: "string \<Rightarrow> call \<Rightarrow> worker \<Rightarrow> (nat \<Rightarrow> bool) \<Rightarrow> bool" where
  "acked_writes i c l a = (checkpoint_key i \<in> call_writes c \<longrightarrow> all_acked l a)"

text \<open>What was produced and is no longer pending has arrived, and results tell the truth.\<close>

definition accounted :: "worker \<Rightarrow> (nat \<Rightarrow> bool) \<Rightarrow> bool" where
  "accounted l a =
     ((\<forall>h \<in> set (wk_mine l). h \<in> set (wk_pending l) \<or> a h) \<and> set (wk_pending l) \<subseteq> set (wk_mine l) \<and>
      (\<forall>h. (h, None) \<in> set (wk_results l) \<longrightarrow> a h))"

definition worker_ok :: "bool \<Rightarrow> worker \<Rightarrow> (nat \<Rightarrow> bool) \<Rightarrow> bool" where
  "worker_ok b l a = (accounted l a \<and>
     (b \<longrightarrow> int (length (wk_pending l)) = wk_comments l \<and> wk_comments l < checkpoint_interval))"

lemma ok_new_worker: "worker_ok b new_worker a"
  by (simp add: worker_ok_def accounted_def new_worker_def checkpoint_interval_def)

lemma accounted_stop [simp]: "accounted (l\<lparr>wk_stop := s\<rparr>) a = accounted l a"
  by (simp add: accounted_def)

lemma lasting_acks:
  "lasting stop_only accounted" "lasting stop_only (worker_ok b)" "lasting stop_only all_acked"
  by (auto simp: lasting_def accounted_def worker_ok_def all_acked_def stop_only_def le_fun_def)

lemma guarantee_lasts: "acked_writes i c l a \<Longrightarrow> stop_only l l' \<Longrightarrow> a \<le> a' \<Longrightarrow> acked_writes i c l' a'"
  using lasting_acks(3) by (auto simp: acked_writes_def lasting_def)

lemma allowed_acks: "checkpoint_key i \<notin> call_writes c \<Longrightarrow> allowed (acked_writes i) I c"
  "(\<And>l a. I l a \<Longrightarrow> all_acked l a) \<Longrightarrow> allowed (acked_writes i) I c"
  by (auto simp: allowed_def acked_writes_def)

subsection \<open>Delivery callbacks\<close>

definition arrive :: "delivery_report \<Rightarrow> worker \<Rightarrow> worker" where
  "arrive r l = (if dr_handle r \<in> set (wk_mine l) then fst (complete_delivery r l) else l)"

lemma arrive_sel [simp]:
  "wk_comments (arrive r l) = wk_comments l" "wk_pending (arrive r l) = wk_pending l"
  "wk_mine (arrive r l) = wk_mine l" "wk_breaker (arrive r l) = wk_breaker l" "wk_stop (arrive r l) = wk_stop l"
  by (auto simp: arrive_def complete_delivery_def Let_def split: option.splits)

lemma arrivals_sel [simp]:
  "wk_comments (fold arrive rs l) = wk_comments l" "wk_pending (fold arrive rs l) = wk_pending l"
  "wk_mine (fold arrive rs l) = wk_mine l" "wk_breaker (fold arrive rs l) = wk_breaker l"
  "wk_stop (fold arrive rs l) = wk_stop l"
  by (induction rs arbitrary: l) auto

lemma arrive_done: "delivery_done l h \<or> dr_handle r = h \<and> h \<in> set (wk_mine l) \<Longrightarrow> delivery_done (arrive r l) h"
  by (auto simp: arrive_def complete_delivery_def delivery_done_def Let_def split: option.splits)

lemma arrivals_done:
  "delivery_done l h \<or> (\<exists>r \<in> set rs. dr_handle r = h) \<and> h \<in> set (wk_mine l) \<Longrightarrow> delivery_done (fold arrive rs l) h"
proof (induction rs arbitrary: l)
  case (Cons r rs)
  then have "delivery_done (arrive r l) h \<or> (\<exists>r \<in> set rs. dr_handle r = h) \<and> h \<in> set (wk_mine (arrive r l))"
    using arrive_done [of l h r] by auto
  from Cons.IH [OF this] show ?case by simp
qed auto

lemma arrive_results:
  "(h, None) \<in> set (wk_results (arrive r l)) \<Longrightarrow>
     (h, None) \<in> set (wk_results l) \<or> dr_handle r = h \<and> dr_error r = None"
  by (auto simp: arrive_def complete_delivery_def Let_def split: if_splits option.splits)

lemma accounted_arrive:
  "accounted l a \<Longrightarrow> (dr_error r = None \<longrightarrow> a (dr_handle r)) \<Longrightarrow> accounted (arrive r l) a"
  by (auto simp: accounted_def dest!: arrive_results)

lemma accounted_arrivals: "accounted l a \<Longrightarrow> reported rs a \<Longrightarrow> accounted (fold arrive rs l) a"
  by (induction rs arbitrary: l) (auto simp: reported_def accounted_arrive)

lemma rg_emit_all: "rg T G (emit_all ms) Q l a = Q (Inr ()) l a"
  by (induction ms) (simp_all add: rg_andthen rg_basic)

lemma rg_run_callbacks: "rg T G (run_callbacks rs) Q l a = Q (Inr ()) (fold arrive rs l) a"
proof (induction rs arbitrary: l)
  case (Cons r rs)
  then show ?case
    by (auto simp: run_callbacks_def rg_bind rg_andthen rg_basic rg_emit_all arrive_def)
qed (simp add: run_callbacks_def)

lemma wp_run_callbacks:
  "(\<And>ms. Q (Inr ()) (fold arrive rs l) (v\<lparr>metrics := ms\<rparr>)) \<Longrightarrow> wp (run_callbacks rs) Q l v"
proof (induction rs arbitrary: l v)
  case Nil
  from Nil [of "metrics v"] show ?case by (simp add: run_callbacks_def)
next
  case (Cons r rs)
  then show ?case
    by (auto simp: run_callbacks_def wp_bind wp_andthen wp_basic arrive_def intro!: wp_emit_all)
qed

subsection \<open>Waiting for a batch\<close>

text \<open>How a wait may fail: as a delivery error, or by something that is no \<^verbatim>\<open>Exception\<close>.\<close>

definition delivery_failure :: "pyexn \<Rightarrow> bool" where
  "delivery_failure e = (\<not> is_exception e \<or> (\<exists>m. e = kafka_delivery_error m))"

lemma delivery_failures [simp]: "delivery_failure (kafka_delivery_error m)" "delivery_failure out_of_rounds"
  "\<not> is_exception e \<Longrightarrow> delivery_failure e"
  by (auto simp: delivery_failure_def out_of_rounds_def)

definition awaiting :: "nat list \<Rightarrow> int \<Rightarrow> nat list \<Rightarrow> worker \<Rightarrow> (nat \<Rightarrow> bool) \<Rightarrow> bool" where
  "awaiting ds n ps l a = (accounted l a \<and> wk_pending l = ds \<and> wk_comments l = n \<and>
     (\<forall>h \<in> set ds. h \<in> set ps \<or> delivery_done l h))"

lemma lasting_awaiting: "lasting stop_only (awaiting ds n ps)"
  using lasting_acks(1) by (auto simp: lasting_def awaiting_def stop_only_sel delivery_done_def)

lemma awaiting_arrivals: "awaiting ds n ps l a \<Longrightarrow> reported rs a \<Longrightarrow> awaiting ds n ps (fold arrive rs l) a"
  by (auto simp: awaiting_def accounted_arrivals arrivals_done)

lemma awaiting_filter:
  "awaiting ds n ps l a \<Longrightarrow> awaiting ds n (filter (\<lambda>h. \<not> delivery_done l h) ps) l a"
  by (auto simp: awaiting_def)

lemma passes_lasting:
  "lasting T I \<Longrightarrow> I l a \<Longrightarrow> (\<And>l a. I l a \<Longrightarrow> Q l a) \<Longrightarrow> passes T Q l a"
  by (auto simp: lasting_def passes_def)

lemma rg_poll_deliveries:
  assumes "lasting T I" and "I l a" and "G Poll l a"
    and "\<And>l a rs. I l a \<Longrightarrow> reported rs a \<Longrightarrow> Q (Inr ()) (fold arrive rs l) a"
    and "\<And>l a e. I l a \<Longrightarrow> is_exception e \<Longrightarrow> Q (Inl e) l a"
  shows "rg T G poll_deliveries Q l a"
  unfolding poll_deliveries_def rg_bind
  using assms by (intro rg_poll passes_lasting [OF assms(1,2)]) (auto simp: rg_run_callbacks)

lemma rg_still_pending:
  "rg T G (still_pending ps) Q l a = Q (Inr (filter (\<lambda>h. \<not> delivery_done l h) ps)) l a"
  by (simp add: still_pending_def rg_bind rg_basic)

lemma rg_bind_pending:
  "rg T G (bind (still_pending ps) f) Q l a = rg T G (f (filter (\<lambda>h. \<not> delivery_done l h) ps)) Q l a"
  by (simp add: rg_bind rg_still_pending)

lemma rg_bind_local:
  "rg T G (bind get_local g) Q l a = rg T G (g l) Q l a"
  "rg T G (andthen (modify_local u) p) Q l a = rg T G p Q (u l) a"
  "rg T G (andthen (emit m) p) Q l a = rg T G p Q l a"
  by (simp_all add: rg_bind rg_andthen rg_basic)

lemma quiet_calls [simp]:
  "acked_writes i Poll l a" "acked_writes i Loop_Time l a" "acked_writes i Now l a" "acked_writes i Uuid4 l a"
  "acked_writes i (Wait_Deliveries hs t) l a" "acked_writes i (Pg q) l a" "acked_writes i (Sleep ms) l a"
  "acked_writes i (Produce topic key x) l a" "acked_writes i (Serialize m) l a"
  "acked_writes i (Next_Comment sub sk) l a" "acked_writes i (Reddit_Subreddit sub) l a"
  by (simp_all add: acked_writes_def)

text \<open>Whoever returns from the wait has seen every message of the batch resolved.\<close>

lemma rg_await_pending:
  "awaiting ds n ps l a \<Longrightarrow> rg stop_only (acked_writes i) (await_pending k env ps deadline)
     (\<lambda>r l a. case r of Inr _ \<Rightarrow> awaiting ds n [] l a | Inl e \<Rightarrow> delivery_failure e) l a"
proof (induction k arbitrary: ps l a)
  case 0
  then show ?case by simp
next
  case (Suc k)
  let ?Q = "\<lambda>r l a. case r of Inr _ \<Rightarrow> awaiting ds n [] l a | Inl e \<Rightarrow> delivery_failure e"
  let ?last = "\<lambda>ps. if ps = [] then skip else bind loop_time (\<lambda>now.
      let remaining = deadline - now in
      if remaining \<le> 0 then
        andthen clear_pending (Raise (kafka_delivery_error (''Timed out after '' @ we_timeout_text env @
          ''s waiting for '' @ show_nat (length ps) @ '' Kafka delivery report(s)'')))
      else
        bind (reports_call (Wait_Deliveries ps (min 50000 remaining))) (\<lambda>arrived.
        andthen (run_callbacks arrived)
       (bind (still_pending ps) (\<lambda>ps. await_pending k env ps deadline))))"
  have fail: "rg stop_only (acked_writes i) (andthen clear_pending (Raise (kafka_delivery_error m))) ?Q l a" for m l a
    by (simp add: rg_andthen clear_pending_def rg_basic)
  have round: "rg stop_only (acked_writes i) (bind (reports_call (Wait_Deliveries ps t)) (\<lambda>arrived.
        andthen (run_callbacks arrived)
       (bind (still_pending ps) (\<lambda>ps. await_pending k env ps deadline)))) ?Q l a"
    if "awaiting ds n ps l a" for t ps l a
    unfolding rg_bind
    by (intro rg_wait passes_lasting [OF lasting_awaiting that])
       (auto simp: rg_andthen rg_run_callbacks rg_bind rg_still_pending
          intro!: Suc.IH awaiting_filter awaiting_arrivals)
  have last: "rg stop_only (acked_writes i) (?last ps) ?Q l a" if "awaiting ds n ps l a" for ps l a
  proof (cases "ps = []")
    case False
    have "rg stop_only (acked_writes i) (?last ps) ?Q l a"
      unfolding rg_bind if_not_P [OF False]
      by (intro rg_loop_time passes_lasting [OF lasting_awaiting that]) (auto simp: Let_def fail round)
    then show ?thesis .
  qed (use that in \<open>simp add: rg_basic\<close>)
  have poll: "rg stop_only (acked_writes i) poll_deliveries (\<lambda>r l a. case r of
      Inr _ \<Rightarrow> awaiting ds n ps l a | Inl e \<Rightarrow> is_exception e) l a"
    by (rule rg_poll_deliveries [OF lasting_awaiting Suc.prems]) (auto intro: awaiting_arrivals)
  show ?case
  proof (cases "ps = []")
    case True
    with Suc.prems show ?thesis by (simp add: rg_basic)
  next
    case False
    have "rg stop_only (acked_writes i) (except is_exception poll_deliveries (\<lambda>error.
        andthen clear_pending (Raise (kafka_delivery_error (''Kafka poll failed: '' @ estr error)))))
      (\<lambda>r l a. case r of Inr _ \<Rightarrow> awaiting ds n ps l a | Inl e \<Rightarrow> delivery_failure e) l a"
      unfolding rg_except
      by (rule rg_mono [OF poll])
         (auto simp: rg_andthen clear_pending_def rg_basic split: sum.splits)
    then show ?thesis
      unfolding await_pending.simps if_not_P [OF False]
    proof (rule rg_seq_andthen)
      fix x :: unit and l and a
      assume "case Inr x of Inr _ \<Rightarrow> awaiting ds n ps l a | Inl e \<Rightarrow> delivery_failure e"
      then have "awaiting ds n ps l a" by simp
      from last [OF awaiting_filter [OF this]]
      show "rg stop_only (acked_writes i) (bind (still_pending ps) ?last) ?Q l a"
        unfolding rg_bind_pending .
    qed simp
  qed
qed

subsection \<open>The wait ends\<close>

text \<open>Each round of the wait either sees a delivery of the batch or lets the clock pass by the
  poll interval or to the deadline.\<close>

definition polls_left :: "int \<Rightarrow> nat" where
  "polls_left remaining = nat ((max 0 remaining + 49999) div 50000)"

lemma polls_left_mono: "x \<le> y \<Longrightarrow> polls_left x \<le> polls_left y"
  unfolding polls_left_def by (intro nat_mono zdiv_mono1) auto

lemma polls_left_less:
  assumes "0 < x" and "y \<le> x - min 50000 x"
  shows "polls_left y < polls_left x"
proof (cases "50000 \<le> x")
  case True
  with assms have "polls_left y \<le> polls_left (x - 50000)" by (intro polls_left_mono) simp
  moreover have "(x + 49999) div 50000 = (x - 50000 + 49999) div 50000 + 1"
    using div_add_self2 [of 50000 "x - 50000 + 49999"] by simp
  with True have "polls_left (x - 50000) < polls_left x"
    by (simp add: polls_left_def pos_imp_zdiv_nonneg_iff nat_less_iff)
  ultimately show ?thesis by simp
next
  case False
  with assms have "polls_left y \<le> polls_left 0" by (intro polls_left_mono) simp
  also have "\<dots> = 0" by (simp add: polls_left_def)
  also have "0 < polls_left x" using assms(1) by (simp add: polls_left_def div_pos_pos_trivial pos_imp_zdiv_pos_iff)
  finally show ?thesis .
qed

lemma in_time: "kafka_delivery_error m \<noteq> out_of_rounds" "is_cancelled e \<Longrightarrow> e \<noteq> out_of_rounds"
  by (auto simp: kafka_delivery_error_def out_of_rounds_def)

lemma wp_poll_deliveries:
  assumes "\<And>e. is_exception e \<Longrightarrow> Q (Inl e) l v"
    and "\<And>rs a ms. Q (Inr ()) (fold arrive rs l) (v\<lparr>acked := a, metrics := ms\<rparr>)"
  shows "wp poll_deliveries Q l v"
  unfolding poll_deliveries_def wp_bind wp_poll using assms by (auto intro!: wp_run_callbacks)

lemma wp_bind_pending:
  "wp (bind (still_pending ps) f) Q l v = wp (f (filter (\<lambda>h. \<not> delivery_done l h) ps)) Q l v"
  by (simp add: still_pending_def wp_bind wp_basic)

lemma wp_await_pending:
  assumes "length ps + polls_left (deadline - loop_clock v) < k" and "set ps \<subseteq> set (wk_mine l)"
  shows "wp (await_pending k env ps deadline) (\<lambda>r l v. r \<noteq> Inl out_of_rounds) l v"
  using assms
proof (induction k arbitrary: ps l v)
  case (Suc k)
  let ?Q = "\<lambda>r l v. r \<noteq> Inl out_of_rounds"
  let ?wait = "\<lambda>ps remaining. bind (reports_call (Wait_Deliveries ps (min 50000 remaining))) (\<lambda>arrived.
        andthen (run_callbacks arrived) (bind (still_pending ps) (\<lambda>ps. await_pending k env ps deadline)))"
  have round: "wp (?wait ps (deadline - loop_clock v)) ?Q l v"
    if len: "length ps + polls_left (deadline - loop_clock v) < Suc k" and mine: "set ps \<subseteq> set (wk_mine l)"
      and rem: "0 < deadline - loop_clock v" for ps and l :: worker and v :: view
  proof -
    have after: "wp (await_pending k env (filter (\<lambda>h. \<not> delivery_done (fold arrive rs l) h) ps) deadline) ?Q
        (fold arrive rs l) (v\<lparr>acked := a, loop_clock := t, metrics := ms\<rparr>)"
      if t: "loop_clock v \<le> t"
        and d: "loop_clock v + min 50000 (deadline - loop_clock v) \<le> t \<or> (\<exists>d \<in> set rs. dr_handle d \<in> set ps)"
      for rs a t ms
    proof (rule Suc.IH)
      let ?ps = "filter (\<lambda>h. \<not> delivery_done (fold arrive rs l) h) ps"
      have "length ?ps + polls_left (deadline - t) < length ps + polls_left (deadline - loop_clock v)"
        using d
      proof
        assume "loop_clock v + min 50000 (deadline - loop_clock v) \<le> t"
        with rem have "polls_left (deadline - t) < polls_left (deadline - loop_clock v)"
          by (intro polls_left_less) auto
        with length_filter_le [of "\<lambda>h. \<not> delivery_done (fold arrive rs l) h" ps] show ?thesis by linarith
      next
        assume "\<exists>d \<in> set rs. dr_handle d \<in> set ps"
        then obtain r where r: "r \<in> set rs" "dr_handle r \<in> set ps" by blast
        with mine arrivals_done [of l "dr_handle r" rs] have "delivery_done (fold arrive rs l) (dr_handle r)" by auto
        with r have "length ?ps < length ps" by (intro length_filter_less) auto
        with t polls_left_mono [of "deadline - t" "deadline - loop_clock v"] show ?thesis by simp
      qed
      with len show "length ?ps + polls_left (deadline - loop_clock (v\<lparr>acked := a, loop_clock := t, metrics := ms\<rparr>)) < k"
        by simp
      show "set ?ps \<subseteq> set (wk_mine (fold arrive rs l))" using mine by auto
    qed
    show ?thesis
      unfolding wp_bind [where p = "reports_call c" for c] wp_wait_deliveries wp_andthen
      by (auto simp: in_time still_pending_def wp_bind wp_basic intro!: wp_run_callbacks after)
  qed
  have last: "wp (if ps = [] then skip else bind loop_time (\<lambda>now.
      let remaining = deadline - now in
      if remaining \<le> 0 then
        andthen clear_pending (Raise (kafka_delivery_error (m ps)))
      else ?wait ps remaining)) ?Q l v"
    if len: "length ps + polls_left (deadline - loop_clock v) < Suc k" and mine: "set ps \<subseteq> set (wk_mine l)"
    for m ps and l :: worker and v :: view
  proof -
    have "wp (?wait ps (deadline - t)) ?Q l (v\<lparr>loop_clock := t\<rparr>)" if "loop_clock v \<le> t" "t < deadline" for t
      using round [of ps "v\<lparr>loop_clock := t\<rparr>" l] len mine that
        polls_left_mono [of "deadline - t" "deadline - loop_clock v"] by simp
    then have "wp (bind loop_time (\<lambda>now. let remaining = deadline - now in
        if remaining \<le> 0 then andthen clear_pending (Raise (kafka_delivery_error (m ps)))
        else ?wait ps remaining)) ?Q l v"
      unfolding wp_bind [where p = loop_time] wp_loop_time
      by (auto simp: wp_basic wp_andthen clear_pending_def in_time Let_def)
    then show ?thesis by (simp add: wp_basic)
  qed
  have poll: "wp (except is_exception poll_deliveries (\<lambda>error.
        andthen clear_pending (Raise (kafka_delivery_error (m error)))))
      (\<lambda>r l' v'. case r of Inl e \<Rightarrow> e \<noteq> out_of_rounds
        | Inr _ \<Rightarrow> wk_mine l' = wk_mine l \<and> loop_clock v' = loop_clock v) l v" for m
    unfolding wp_except by (rule wp_poll_deliveries) (auto simp: wp_andthen wp_basic clear_pending_def in_time)
  show ?case
  proof (cases "ps = []")
    case False
    show ?thesis
      unfolding await_pending.simps if_not_P [OF False]
    proof (rule wp_seq_andthen [OF poll])
      fix x :: unit and l' :: worker and v' :: view
      assume "case Inr x of Inl e \<Rightarrow> e \<noteq> out_of_rounds
        | Inr _ \<Rightarrow> wk_mine l' = wk_mine l \<and> loop_clock v' = loop_clock v"
      then have same: "wk_mine l' = wk_mine l" "loop_clock v' = loop_clock v" by simp_all
      let ?ps = "filter (\<lambda>h. \<not> delivery_done l' h) ps"
      have "length ?ps + polls_left (deadline - loop_clock v') < Suc k"
        using Suc.prems(1) length_filter_le [of "\<lambda>h. \<not> delivery_done l' h" ps] unfolding same by linarith
      from last [OF this] have go: "set ?ps \<subseteq> set (wk_mine l') \<Longrightarrow> wp (if ?ps = [] then skip else bind loop_time (\<lambda>now.
          let remaining = deadline - now in
          if remaining \<le> 0 then andthen clear_pending (Raise (kafka_delivery_error (m ?ps)))
          else ?wait ?ps remaining)) ?Q l' v'" for m .
      show "wp (bind (still_pending ps) (\<lambda>pending. if pending = [] then skip else bind loop_time (\<lambda>now.
          let remaining = deadline - now in
          if remaining \<le> 0 then andthen clear_pending (Raise (kafka_delivery_error (''Timed out after '' @
            we_timeout_text env @ ''s waiting for '' @ show_nat (length pending) @ '' Kafka delivery report(s)'')))
          else ?wait pending remaining))) ?Q l' v'"
        unfolding wp_bind_pending by (rule go) (use Suc.prems(2) same in auto)
    qed simp
  qed (simp add: wp_basic)
qed simp

lemma wp_wait_ends:
  assumes "set (wk_pending l) \<subseteq> set (wk_mine l)"
  shows "wp (wait_for_delivery_batch env) (\<lambda>r l v. r \<noteq> Inl out_of_rounds) l v"
proof -
  have enough: "length ds + polls_left (t + we_delivery_timeout env - t) < enough_rounds env ds" for ds t
    by (simp add: enough_rounds_def polls_left_def)
  let ?D = "wk_pending l"
  let ?rest = "andthen clear_pending (bind get_local (\<lambda>self.
       let delivery_errors = List.map_filter (\<lambda>h. case map_of (wk_results self) h of Some r \<Rightarrow> r | None \<Rightarrow> None) ?D in
       case delivery_errors of
         [] \<Rightarrow> skip
       | first # _ \<Rightarrow> Raise (kafka_delivery_error (''Kafka failed to deliver '' @
           show_nat (length delivery_errors) @ '' message(s): '' @ first))))"
  have rest: "wp ?rest (\<lambda>r l v. r \<noteq> Inl out_of_rounds) l v" for l v
    by (auto simp: wp_andthen wp_bind clear_pending_def wp_basic Let_def in_time split: list.split)
  have "wp (bind loop_time (\<lambda>now. andthen (await_pending (enough_rounds env ?D) env ?D (now + we_delivery_timeout env)) ?rest))
      (\<lambda>r l v. r \<noteq> Inl out_of_rounds) l v"
    unfolding wp_bind [where p = loop_time] wp_loop_time sum.case
    by (intro allI impI wp_seq_andthen [OF wp_await_pending] rest) (use enough assms in auto)
  then show ?thesis
    unfolding wait_for_delivery_batch_def by (simp add: wp_bind [where p = get_local] wp_basic Let_def)
qed

subsection \<open>One comment\<close>

text \<open>A batch that was waited for has arrived.\<close>

definition batch_arrived :: "int \<Rightarrow> worker \<Rightarrow> (nat \<Rightarrow> bool) \<Rightarrow> bool" where
  "batch_arrived n l a = (accounted l a \<and> all_acked l a \<and> wk_comments l = n)"

lemma lasting_batch: "lasting stop_only (batch_arrived n)"
  using lasting_acks(1,3) by (auto simp: lasting_def batch_arrived_def stop_only_sel)

lemma no_errors_all_arrived:
  assumes "awaiting (wk_pending l) n [] l a"
    and "List.map_filter (\<lambda>h. case map_of (wk_results l) h of Some r \<Rightarrow> r | None \<Rightarrow> None) (wk_pending l) = []"
  shows "\<forall>h \<in> set (wk_mine l). a h"
proof -
  have "(h, None) \<in> set (wk_results l)" if "h \<in> set (wk_pending l)" for h
  proof -
    from assms(1) that obtain r where r: "map_of (wk_results l) h = Some r"
      by (auto simp: awaiting_def delivery_done_def)
    moreover have "r = None"
    proof (rule ccontr)
      assume "r \<noteq> None"
      with r that have "filter (\<lambda>h. (case map_of (wk_results l) h of Some r \<Rightarrow> r | None \<Rightarrow> None) \<noteq> None) (wk_pending l) \<noteq> []"
        by (auto simp: filter_empty_conv intro!: bexI [of _ h])
      with assms(2) show False by (simp add: List.map_filter_def o_def)
    qed
    ultimately show ?thesis by (auto dest: map_of_SomeD)
  qed
  with assms(1) show ?thesis by (auto simp: awaiting_def accounted_def)
qed

lemma rg_wait_for_batch:
  assumes "accounted l a" and "wk_comments l = n"
  shows "rg stop_only (acked_writes i) (wait_for_delivery_batch env)
    (\<lambda>r l a. case r of Inr _ \<Rightarrow> batch_arrived n l a | Inl e \<Rightarrow> delivery_failure e) l a"
proof -
  let ?Q = "\<lambda>r l a. case r of Inr _ \<Rightarrow> batch_arrived n l a | Inl e \<Rightarrow> delivery_failure e"
  let ?D = "wk_pending l"
  let ?errors = "\<lambda>l. List.map_filter (\<lambda>h. case map_of (wk_results l) h of Some r \<Rightarrow> r | None \<Rightarrow> None) ?D"
  let ?rest = "andthen clear_pending (bind get_local (\<lambda>self.
       let delivery_errors = ?errors self in
       case delivery_errors of
         [] \<Rightarrow> skip
       | first # _ \<Rightarrow> Raise (kafka_delivery_error (''Kafka failed to deliver '' @
           show_nat (length delivery_errors) @ '' message(s): '' @ first))))"
  have rest: "rg stop_only (acked_writes i) ?rest ?Q l a" if w: "awaiting ?D n [] l a" for l a
  proof (cases "?errors l")
    case Nil
    have "wk_pending l = ?D" using w by (simp add: awaiting_def)
    with w Nil no_errors_all_arrived [of l n a] have "\<forall>h \<in> set (wk_mine l). a h" by simp
    with w Nil show ?thesis
      by (auto simp: rg_andthen rg_bind clear_pending_def rg_basic Let_def batch_arrived_def all_acked_def
          awaiting_def accounted_def)
  qed (simp add: rg_andthen rg_bind clear_pending_def rg_basic Let_def)
  have start: "awaiting ?D n ?D l a" using assms by (simp add: awaiting_def)
  show ?thesis
  proof (cases "?D = []")
    case True
    with assms show ?thesis
      by (auto simp: wait_for_delivery_batch_def rg_bind rg_basic batch_arrived_def all_acked_def accounted_def)
  next
    case False
    have "rg stop_only (acked_writes i) (andthen (await_pending k env ?D t) ?rest) ?Q l a"
      if "awaiting ?D n ?D l a" for k t l a
      by (rule rg_seq_andthen [OF rg_await_pending [OF that]]) (simp_all add: rest)
    then have "rg stop_only (acked_writes i) (bind loop_time (\<lambda>now.
        andthen (await_pending (enough_rounds env ?D) env ?D (now + we_delivery_timeout env)) ?rest)) ?Q l a"
      unfolding rg_bind [where p = loop_time] by (intro rg_loop_time passes_lasting [OF lasting_awaiting start]) auto
    with False show ?thesis
      unfolding wait_for_delivery_batch_def rg_bind_local by (simp add: Let_def)
  qed
qed

lemma steady_checkpoint_calls:
  assumes "lasting T I"
  shows "allowed G I Now \<Longrightarrow> (\<And>m. allowed G I (Redis (Hset (checkpoint_key i) m))) \<Longrightarrow>
      steady T G I (set_checkpoint i c p)"
    "allowed G I (Redis (Hgetall (checkpoint_key i))) \<Longrightarrow> steady T G I (get_checkpoint i)"
  unfolding set_checkpoint_def get_checkpoint_def using assms by (intro steady_rules; simp)+

text \<open>Saving the checkpoint, whatever becomes of it; an error is swallowed.\<close>

lemma rg_save_checkpoint:
  assumes "batch_arrived n l a"
  shows "rg stop_only (acked_writes i) (save_checkpoint_for_comment_id env c)
    (\<lambda>r l a. case r of Inr _ \<Rightarrow> batch_arrived n l a | Inl e \<Rightarrow> delivery_failure e) l a"
proof -
  have "steady stop_only (acked_writes i) (batch_arrived n)
    (bind datetime_now (\<lambda>now. set_checkpoint (we_stream_id env) (Some c) (Some (isoformat (naive now)))))"
    by (intro steady_rules steady_checkpoint_calls lasting_batch allowed_acks(2)) (simp_all add: batch_arrived_def)
  from steadyD [OF this assms] show ?thesis
    unfolding save_checkpoint_for_comment_id_def rg_except
    by (rule rg_mono) (auto simp: rg_basic split: sum.split)
qed

text \<open>What a program of the worker may leave behind: the invariant, unless it ends with a
  delivery failure.\<close>

definition kept :: "bool \<Rightarrow> pyexn + 'a \<Rightarrow> worker \<Rightarrow> (nat \<Rightarrow> bool) \<Rightarrow> bool" where
  "kept b r l a = (case r of Inr _ \<Rightarrow> worker_ok b l a | Inl e \<Rightarrow> worker_ok b l a \<or> delivery_failure e)"

lemma kept_simps [simp]:
  "kept b (Inr x) l a = worker_ok b l a"
  "kept b (Inl e) l a = (worker_ok b l a \<or> delivery_failure e)"
  by (simp_all add: kept_def)

lemma steady_kept: "steady T G (worker_ok b) p \<Longrightarrow> worker_ok b l a \<Longrightarrow> rg T G p (kept b) l a"
  by (drule (1) steadyD, erule rg_mono) (simp add: kept_def split: sum.split)

text \<open>A message has been queued but not counted yet.\<close>

definition queued :: "bool \<Rightarrow> worker \<Rightarrow> (nat \<Rightarrow> bool) \<Rightarrow> bool" where
  "queued b l a = (accounted l a \<and> (b \<longrightarrow>
     int (length (wk_pending l)) = wk_comments l + 1 \<and> wk_comments l < checkpoint_interval))"

lemma lasting_queued: "lasting stop_only (queued b)"
  using lasting_acks(1) by (auto simp: lasting_def queued_def stop_only_sel)

lemma queued_arrivals: "queued b l a \<Longrightarrow> reported rs a \<Longrightarrow> queued b (fold arrive rs l) a"
  by (auto simp: queued_def accounted_arrivals)

lemma rg_queue_message:
  assumes "worker_ok b l a"
  shows "rg stop_only (acked_writes i) (queue_message env c x)
    (\<lambda>r l a. case r of Inr _ \<Rightarrow> queued b l a | Inl e \<Rightarrow> worker_ok b l a \<or> delivery_failure e) l a"
proof -
  let ?queue = "\<lambda>h. andthen (modify_local (\<lambda>self. self\<lparr>wk_pending := wk_pending self @ [h], wk_mine := wk_mine self @ [h]\<rparr>))
      poll_deliveries"
  have add: "queued b (l\<lparr>wk_pending := wk_pending l @ [h], wk_mine := wk_mine l @ [h]\<rparr>) a" if "worker_ok b l a" for h l a
    using that by (auto simp: worker_ok_def queued_def accounted_def)
  have "rg stop_only (acked_writes i) (?queue h) (\<lambda>r l a. case r of Inr _ \<Rightarrow> queued b l a | Inl e \<Rightarrow> True) l a"
    if "worker_ok b l a" for h l a
    unfolding rg_andthen rg_basic
    using add [OF that, of h] by (auto intro!: rg_poll_deliveries [OF lasting_queued] queued_arrivals)
  then have "rg stop_only (acked_writes i) (bind (produce (we_topic env) (we_subreddit env) x) ?queue)
    (\<lambda>r l a. case r of Inr _ \<Rightarrow> queued b l a | Inl e \<Rightarrow> True) l a"
    unfolding rg_bind [where p = "produce (we_topic env) (we_subreddit env) x"]
    by (intro rg_produce passes_lasting [OF lasting_acks(2) assms]) (auto split: sum.split)
  then show ?thesis
    unfolding queue_message_def rg_except
    by (rule rg_mono) (auto split: sum.splits)
qed

lemma rg_count_comment:
  assumes "queued b l a"
  shows "rg stop_only (acked_writes (we_stream_id env)) (count_comment env c) (kept b) l a"
proof -
  let ?l = "l\<lparr>wk_comments := wk_comments l + 1\<rparr>"
  let ?Q = "kept b :: pyexn + unit \<Rightarrow> _"
  have acc: "accounted ?l a" using assms by (simp add: queued_def accounted_def)
  have save: "rg stop_only (acked_writes (we_stream_id env))
    (andthen (save_checkpoint_for_comment_id env c) (modify_local (\<lambda>self. self\<lparr>wk_comments := 0\<rparr>))) ?Q l a"
    if "batch_arrived n l a" for n l a
    by (rule rg_seq_andthen [where R = "\<lambda>r l a. case r of Inr _ \<Rightarrow> batch_arrived n l a | Inl e \<Rightarrow> delivery_failure e"])
       (use that in \<open>auto simp: rg_basic batch_arrived_def worker_ok_def accounted_def all_acked_def
          checkpoint_interval_def intro!: rg_save_checkpoint\<close>)
  show ?thesis
  proof (cases "wk_comments ?l \<ge> checkpoint_interval")
    case True
    have "rg stop_only (acked_writes (we_stream_id env)) (andthen (wait_for_delivery_batch env)
      (andthen (save_checkpoint_for_comment_id env c) (modify_local (\<lambda>self. self\<lparr>wk_comments := 0\<rparr>)))) ?Q ?l a"
      by (rule rg_seq_andthen [OF rg_wait_for_batch [OF acc refl]]) (simp_all add: save)
    with True show ?thesis
      by (simp add: count_comment_def rg_bind_local)
  next
    case False
    with assms acc show ?thesis
      by (auto simp: count_comment_def rg_basic rg_bind_local queued_def worker_ok_def)
  qed
qed

lemma rg_publish_comment:
  assumes "worker_ok b l a"
  shows "rg stop_only (acked_writes (we_stream_id env)) (publish_comment env comment) (kept b) l a"
proof -
  let ?Q = "kept b :: pyexn + unit \<Rightarrow> _"
  let ?queue = "\<lambda>payload. andthen (queue_message env (c_id comment) payload)
    (andthen (count_comment env (c_id comment)) (emit (Inc ''comments'' [''queued''])))"
  have queue: "rg stop_only (acked_writes (we_stream_id env)) (?queue payload) ?Q l a" if "worker_ok b l a" for payload l a
    by (rule rg_seq_andthen [OF rg_queue_message [OF that]], simp,
        rule rg_seq_andthen [OF rg_count_comment]) (simp_all add: rg_basic)
  have send: "rg stop_only (acked_writes (we_stream_id env)) (bind (serialize message) (\<lambda>serialized.
      case serialized of None \<Rightarrow> Raise (value_error ''Serializer returned no payload'') | Some payload \<Rightarrow> ?queue payload)) ?Q l a"
    if "worker_ok b l a" for message l a
    unfolding rg_bind [where p = "serialize message"]
    by (intro rg_serialize passes_lasting [OF lasting_acks(2) that])
       (auto simp: queue split: sum.split option.split)
  show ?thesis
    unfolding publish_comment_def rg_bind [where p = datetime_now]
    by (intro rg_now passes_lasting [OF lasting_acks(2) assms]) (auto simp: send split: sum.split)
qed

lemma steady_record_error:
  assumes "lasting T I" and "\<And>c. checkpoint_key i \<notin> call_writes c \<Longrightarrow> allowed G I c"
  shows "steady T G I (record_error db i' et msg rec)"
  unfolding record_error_def store_entry_def
  by (intro steady_rules assms; simp)

lemma steady_update_status:
  assumes "lasting T I" and "\<And>c. checkpoint_key i \<notin> call_writes c \<Longrightarrow> allowed G I c"
  shows "steady T G I (update_status_if_owner db i' st own)"
  unfolding update_status_if_owner_def
  by (intro steady_rules assms; simp)

lemma steady_ok:
  "steady stop_only (acked_writes i) (worker_ok b) (record_error db j et msg rec)"
  "steady stop_only (acked_writes i) (worker_ok b) (update_status_if_owner db j st own)"
  by (intro steady_record_error steady_update_status lasting_acks allowed_acks(1); assumption)+

lemma rg_processing_time:
  "rg T G (processing_time s) Q l a = Q (Inr ()) l a"
  "rg T G (andthen (processing_time s) p) Q l a = rg T G p Q l a"
  by (simp_all add: processing_time_def rg_basic rg_bind_local)

lemma rg_process_comment:
  assumes "worker_ok b l a"
  shows "rg stop_only (acked_writes (we_stream_id env)) (process_comment env comment checkpoint) (kept b) l a"
proof -
  let ?Q = "kept b :: pyexn + unit \<Rightarrow> _"
  have invalid: "rg stop_only (acked_writes (we_stream_id env))
      (andthen (emit (Inc ''comments'' [''invalid''])) (finally_do
        (record_error (we_db env) (we_stream_id env) ''CommentProcessingError'' (estr e) True)
        (processing_time ''invalid''))) ?Q l a" if "worker_ok b l a" for e :: pyexn and l a
    using steady_kept [OF steady_ok(1) that]
    unfolding rg_bind_local rg_finally rg_processing_time
    by (rule rg_mono) simp
  have "rg stop_only (acked_writes (we_stream_id env)) (bind (attempt (publish_comment env comment)) (\<lambda>r. case r of
      Inr _ \<Rightarrow> processing_time ''queued''
    | Inl e \<Rightarrow>
        if is_cancelled e then andthen (processing_time ''cancelled'') (Raise e)
        else if isinstance e [Kafka_Delivery_Error] then
          andthen (emit (Inc ''comments'' [''delivery_error'']))
         (andthen (processing_time ''delivery_error'') (Raise e))
        else if is_exception e then
          andthen (emit (Inc ''comments'' [''invalid''])) (finally_do
            (record_error (we_db env) (we_stream_id env) ''CommentProcessingError'' (estr e) True)
            (processing_time ''invalid''))
        else andthen (processing_time ''error'') (Raise e))) ?Q l a"
    unfolding rg_bind [where p = "attempt p" for p] rg_attempt
    by (rule rg_mono [OF rg_publish_comment [OF assms]])
       (auto simp: invalid [unfolded rg_bind_local] rg_processing_time rg_bind_local delivery_failure_def split: sum.splits)
  with assms show ?thesis
    by (simp add: process_comment_def rg_basic)
qed

subsection \<open>The stream loop\<close>

lemma rg_handle_fetch:
  assumes "worker_ok b l a \<or> (\<exists>m. e = kafka_delivery_error m)"
  shows "rg stop_only (acked_writes (we_stream_id env)) (handle_fetch_exception env e) (kept b) l a"
proof (cases "worker_ok b l a")
  case True
  have "steady stop_only (acked_writes (we_stream_id env)) (worker_ok b) (handle_fetch_exception env e)"
    unfolding handle_fetch_exception_def by (intro steady_rules steady_ok)
  from steady_kept [OF this True] show ?thesis .
next
  case False
  with assms show ?thesis by (auto simp: handle_fetch_exception_def)
qed

lemma worker_ok_breaker [simp]: "worker_ok b (set_breaker cb l) a = worker_ok b l a"
  by (simp add: worker_ok_def accounted_def set_breaker_def)

lemma rg_breaker_step:
  "rg T G (breaker_step g s f) Q l a = Q (Inr ()) (s (fst (f (g l))) l) a"
  by (simp add: breaker_step_def rg_bind_local rg_emit_all)

lemma rg_fetch_comments:
  "worker_ok b l a \<Longrightarrow>
     rg stop_only (acked_writes (we_stream_id env)) (fetch_comments n env sk checkpoint) (kept b) l a"
proof (induction n arbitrary: l a)
  case (Suc n)
  let ?G = "acked_writes (we_stream_id env)"
  let ?next = "fetch_comments n env sk checkpoint"
  have comment: "rg stop_only ?G (andthen (emit (Inc ''reddit_comments_received'' []))
      (andthen (record_success breaker_settings wk_breaker set_breaker)
      (andthen (process_comment env c checkpoint) ?next))) (kept b) l a"
    if "worker_ok b l a" for c l a
    unfolding rg_bind_local
    by (rule rg_seq_andthen [where R = "kept b"])
       (auto simp: record_success_def rg_breaker_step that
          intro!: rg_seq_andthen [OF rg_process_comment] Suc.IH)
  have slept: "rg stop_only ?G (andthen (sleep_ms 0) p) (kept b) l a"
    if "worker_ok b l a" and "\<And>l a. worker_ok b l a \<Longrightarrow> rg stop_only ?G p (kept b) l a"
    for p :: "(worker, unit) prog" and l a
    unfolding rg_andthen
    by (intro rg_sleep passes_lasting [OF lasting_acks(2) that(1)]) (auto simp: that(2))
  have event: "rg stop_only ?G (case event of Stream_End \<Rightarrow> skip
     | _ \<Rightarrow> bind get_local (\<lambda>self. if wk_stop self then skip
         else andthen (sleep_ms 0) (case event of
              Comment comment \<Rightarrow>
                andthen (emit (Inc ''reddit_comments_received'' []))
               (andthen (record_success breaker_settings wk_breaker set_breaker)
               (andthen (process_comment env comment checkpoint) ?next))
            | _ \<Rightarrow> ?next))) (kept b) l a"
    if "worker_ok b l a" for event l a
    using that
    by (cases event) (auto simp: rg_bind_local(1) rg_basic Suc.IH intro!: slept comment)
  show ?case
    unfolding fetch_comments.simps rg_bind [where p = "next_comment s k" for s k]
    by (intro rg_next_comment passes_lasting [OF lasting_acks(2) Suc.prems]) (auto simp: event split: sum.split)
qed simp

lemma steady_get_checkpoint: "steady stop_only (acked_writes i) (worker_ok b) (get_checkpoint j)"
  by (intro steady_checkpoint_calls lasting_acks allowed_acks) simp

lemma rg_fetch_and_process:
  assumes "worker_ok b l a"
  shows "rg stop_only (acked_writes (we_stream_id env)) (fetch_and_process_comments n env) (kept b) l a"
proof -
  let ?G = "acked_writes (we_stream_id env)"
  have fetch: "rg stop_only ?G (bind (attempt (fetch_comments n env sk checkpoint)) (\<lambda>r. case r of
       Inr _ \<Rightarrow> skip
     | Inl e \<Rightarrow> if is_cancelled e then Raise e
         else if is_exception e then handle_fetch_exception env e else Raise e)) (kept b) l a"
    if "worker_ok b l a" for sk checkpoint l a
    unfolding rg_bind [where p = "attempt p" for p] rg_attempt
    by (rule rg_mono [OF rg_fetch_comments [OF that]])
       (auto simp: rg_basic delivery_failure_def intro!: rg_handle_fetch split: sum.splits)
  have "steady stop_only ?G (worker_ok b) (unit_call (Reddit_Subreddit (we_subreddit env)))"
    by (intro steady_rules lasting_acks allowed_acks) simp
  from steady_kept [OF this assms] show ?thesis
    unfolding fetch_and_process_comments_def
    by (rule rg_seq_andthen, simp, intro rg_seq [OF steady_kept [OF steady_get_checkpoint] _ fetch]) simp_all
qed

lemma rg_breaker_call:
  assumes coro: "\<And>l a. worker_ok b l a \<Longrightarrow> rg stop_only (acked_writes i) coro (kept b) l a"
    and ok: "worker_ok b l a"
  shows "rg stop_only (acked_writes i) (breaker_call breaker_settings wk_breaker set_breaker coro) (kept b) l a"
proof -
  have now: "rg stop_only (acked_writes i) datetime_now Q l a"
    if "\<And>l a d. I l a \<Longrightarrow> Q (Inr d) l a" "lasting stop_only I" "I l a" for Q I l a
    using that by (intro rg_now passes_lasting [OF that(2,3)]) auto
  have guard: "rg stop_only (acked_writes i) (breaker_guard wk_breaker set_breaker) (kept b) l a"
    using ok unfolding breaker_guard_def rg_bind_local
    by (auto simp: rg_bind rg_basic rg_breaker_step intro!: now [where I = "worker_ok b"] lasting_acks(2))
  have failed: "rg stop_only (acked_writes i) (bind datetime_now (\<lambda>now.
      andthen (breaker_step wk_breaker set_breaker (breaker_failure breaker_settings e now)) (Raise e))) (kept b) l a"
    if "kept b (Inl e :: pyexn + unit) l a" for e l a
  proof (cases "worker_ok b l a")
    case True
    then show ?thesis
      unfolding rg_bind [where p = datetime_now]
      by (intro now [OF _ lasting_acks(2)]) (auto simp: rg_andthen rg_breaker_step)
  next
    case False
    with that have "delivery_failure e" by simp
    then show ?thesis
      unfolding rg_bind [where p = datetime_now]
      by (intro now [where I = "\<lambda>_ _. True"]) (auto simp: rg_andthen rg_breaker_step lasting_def)
  qed
  show ?thesis
    unfolding breaker_call_def
    by (rule rg_seq_andthen [OF guard], simp, unfold rg_except rg_bind [where p = coro],
        rule rg_mono [OF coro])
       (auto simp: rg_andthen record_success_def rg_breaker_step failed [simplified] split: sum.split)
qed

lemma rg_handle_error:
  assumes "worker_ok b l a \<or> (\<exists>m. e = kafka_delivery_error m)"
  shows "rg stop_only (acked_writes (we_stream_id env)) (handle_error env e)
    (\<lambda>r l a. case r of Inr _ \<Rightarrow> worker_ok b l a | Inl _ \<Rightarrow> True) l a"
proof (cases "worker_ok b l a")
  case True
  have "steady stop_only (acked_writes (we_stream_id env)) (worker_ok b) (handle_error env e)"
    unfolding handle_error_def
    by (intro steady_rules steady_ok lasting_acks(2) allowed_acks(1)) simp_all
  from steadyD [OF this True] show ?thesis
    by (rule rg_mono) (simp split: sum.split)
next
  case False
  with assms have fatal: "should_abandon_stream e"
    by (auto simp: should_abandon_stream_def FATAL_EXCEPTIONS_def)
  have any: "rg stop_only (acked_writes (we_stream_id env)) p (\<lambda>_ _ _. True) l a"
    if "steady stop_only (acked_writes (we_stream_id env)) (\<lambda>_ _. True) p" for p :: "(worker, 'b) prog" and l a
    using steadyD [OF that] by simp
  have lasts: "lasting stop_only (\<lambda>_ _. True)" by (simp add: lasting_def)
  have rec: "steady stop_only (acked_writes (we_stream_id env)) (\<lambda>_ _. True)
      (record_error (we_db env) (we_stream_id env) et m r)"
    and upd: "steady stop_only (acked_writes (we_stream_id env)) (\<lambda>_ _. True)
      (update_status_if_owner (we_db env) (we_stream_id env) st own)" for et m r st own
    by (intro steady_record_error steady_update_status lasts allowed_acks(1); assumption)+
  show ?thesis
    unfolding handle_error_def if_P [OF fatal]
    by (rule rg_seq_andthen [OF any [OF rec]], simp, rule rg_seq [OF any [OF upd]]) simp_all
qed

lemma rg_stream_loop:
  "worker_ok b l a \<Longrightarrow>
     rg stop_only (acked_writes (we_stream_id env)) (stream_loop n m env) (\<lambda>r l a. r = Inr () \<longrightarrow> worker_ok b l a) l a"
proof (induction n arbitrary: l a)
  case (Suc n)
  let ?G = "acked_writes (we_stream_id env)"
  let ?Q = "\<lambda>r l a. r = Inr () \<longrightarrow> worker_ok b l a"
  have retry: "rg stop_only ?G (andthen (handle_error env e) (stream_loop n m env)) ?Q l a"
    if "worker_ok b l a \<or> (\<exists>m. e = kafka_delivery_error m)" for e l a
    by (rule rg_seq_andthen [OF rg_handle_error [OF that]]) (simp_all add: Suc.IH)
  have "rg stop_only ?G (bind (attempt (breaker_call breaker_settings wk_breaker set_breaker
      (fetch_and_process_comments m env))) (\<lambda>r. case r of
         Inr _ \<Rightarrow> stream_loop n m env
       | Inl e \<Rightarrow> if is_cancelled e then Raise e
           else if is_exception e then andthen (handle_error env e) (stream_loop n m env)
           else Raise e)) ?Q l a"
    unfolding rg_bind [where p = "attempt p" for p] rg_attempt
    by (rule rg_mono [OF rg_breaker_call [OF rg_fetch_and_process Suc.prems]])
       (auto simp: delivery_failure_def Suc.IH intro!: retry split: sum.splits)
  with Suc.prems show ?case
    by (cases "wk_stop l") (simp_all only: stream_loop.simps rg_bind_local rg_basic if_True if_False simp_thms)
qed simp

subsection \<open>The other task\<close>

lemma mild_lock_refresh: "mild stop_only (lock_refresh_loop k env)"
proof (induction k)
  case (Suc k)
  show ?case
    unfolding lock_refresh_loop.simps refresh_lock_or_raise_def record_lock_loss_def refresh_lock_def heartbeat_def
      lock_metric_def count_lock_error_def
    by (intro mild_rules Suc.IH; simp add: stop_only_def)
qed (simp add: mild_rules)

end
