(* ===== verification/Lock_Race.thy ===== *)
theory Lock_Race
  imports Registry_Race Lock Ref_Runs
begin

section \<open>The lock of a subreddit among many workers\<close>

text \<open>
  \<^verbatim>\<open>StreamLock\<close> of src/stream/lock.py used by many workers at once. A worker that owns the
  lock keeps it until its lease ends, whatever other workers do: they may take, refresh and
  release locks with tokens of their own and run every method of the registry, in any
  interleaving.
\<close>

lemmas lock_from_wp = documented_services.run_wp

subsection \<open>The calls of other workers\<close>

text \<open>A call that does not use the token \<open>tok\<close> of the lock of \<open>sub\<close>.\<close>

fun foreign_call :: "string \<Rightarrow> string \<Rightarrow> call \<Rightarrow> bool" where
  "foreign_call sub tok (Redis (Eval (Refresh_If_Owner k t e))) =
     (k \<in> range lock_key \<and> 0 < e \<and> (k = lock_key sub \<longrightarrow> t \<noteq> tok))"
| "foreign_call sub tok (Redis (Eval (Delete_If_Owner k t))) =
     (k \<in> range lock_key \<and> (k = lock_key sub \<longrightarrow> t \<noteq> tok))"
| "foreign_call sub tok (Redis (Set_Nx k x ex)) = command_ok (Set_Nx k x ex)"
| "foreign_call sub tok (Redis c) = (command_ok c \<and> lock_key sub \<notin> writes c)"
| "foreign_call sub tok _ = True"

lemma foreign_is_service: "foreign_call sub tok c \<Longrightarrow> service_call c"
  by (cases "(sub, tok, c)" rule: foreign_call.cases) auto

definition leased :: "string \<Rightarrow> string \<Rightarrow> int \<Rightarrow> view \<Rightarrow> bool" where
  "leased sub tok d v =
     (sound (rdb v) \<and>
      (rclock (rdb v) < d \<longrightarrow> holder (rdb v) sub = Some tok \<and> lease_end (rdb v) sub = Some d))"

lemma leased_time: "leased sub tok d v \<Longrightarrow> rclock (rdb v) \<le> t \<Longrightarrow> leased sub tok d (later t v)"
  using redis_lease.elapse_before [of "rdb v" sub tok d t] by (auto simp: leased_def)

lemma leased_framed:
  assumes "leased sub tok d v" and "framed K (rdb v) (rdb v')" and "lock_key sub \<notin> K" and "sound (rdb v')"
  shows "leased sub tok d v'"
  using assms by (auto simp: leased_def framed_def untouched_def holder_def lease_end_def str_at_def)

lemma leased_effect:
  assumes l: "leased sub tok d v" and f: "foreign_call sub tok (Redis c)"
  shows "leased sub tok d (with_rdb (redis_effect c) v)"
proof -
  have ok: "command_ok c" using foreign_is_service [OF f] by simp
  with l have s: "sound (redis_effect c (rdb v))" by (auto simp: leased_def intro: sound_effect)
  have "rclock (rdb v) < d \<Longrightarrow> holder (redis_effect c (rdb v)) sub = Some tok \<and> lease_end (redis_effect c (rdb v)) sub = Some d"
  proof (cases "lock_key sub \<in> writes c")
    case False
    assume "rclock (rdb v) < d"
    moreover have "framed (writes c) (rdb v) (rdb (with_rdb (redis_effect c) v))"
      using framed_effect [OF framed_refl order_refl] by simp
    from leased_framed [OF l this False] s have "leased sub tok d (with_rdb (redis_effect c) v)" by simp
    ultimately show ?thesis by (simp add: leased_def effect_clock)
  next
    case True
    assume "rclock (rdb v) < d"
    with l have h: "holder (rdb v) sub = Some tok" "lease_end (rdb v) sub = Some d" by (auto simp: leased_def)
    then have "live (rdb v) (lock_key sub)" by (rule_tac holder_live)
    with True f h show ?thesis
      by (cases "(sub, tok, Redis c)" rule: foreign_call.cases)
        (auto simp: set_absent_def redis_lease.refr_holder redis_lease.refr_other redis_lease.rel_other)
  qed
  with s show ?thesis by (simp add: leased_def effect_clock)
qed

lemma stable_leased: "stable (foreign_call sub tok) (leased sub tok d)"
proof -
  have "leased sub tok d v'" if "foreign_call sub tok c" "leased sub tok d v" "documented c v r v'" for c v r v'
  proof (cases c)
    case (Redis c')
    with that(3) obtain t where "t \<ge> rclock (rdb v)"
      "v' = later t v \<or> v' = with_rdb (redis_effect c') (later t v)"
      by (cases r) (auto simp: later_def with_rdb_def)
    then show ?thesis
      using leased_time [OF that(2)] leased_effect [of sub tok d "later t v" c'] that(1) Redis by auto
  qed (use that in \<open>cases r; auto simp: leased_def\<close>)+
  moreover have "leased sub tok d v \<Longrightarrow> leased sub tok d (v\<lparr>metrics := m\<rparr>)" for v m
    by (simp add: leased_def)
  ultimately show ?thesis unfolding stable_def by blast
qed

subsection \<open>What other workers run\<close>

lemma foreign_lock_calls [keeps_rules]:
  "issues (foreign_call sub tok) (acquire_lock sub' inst ttl)"
  "sub' = sub \<longrightarrow> tok' \<noteq> tok \<Longrightarrow> 0 < ttl \<Longrightarrow> issues (foreign_call sub tok) (refresh_lock sub' tok' ttl)"
  "sub' = sub \<longrightarrow> tok' \<noteq> tok \<Longrightarrow> issues (foreign_call sub tok) (release_lock sub' tok')"
  "issues (foreign_call sub tok) (owns_lock sub' tok')"
  "issues (foreign_call sub tok) (is_locked sub')"
  unfolding lock_defs by (intro keeps_rules; auto)+

lemma foreign_registry_calls [keeps_rules]:
  "issues (foreign_call sub tok) (create_stream db sub' cfg inst)"
  "issues (foreign_call sub tok) (get_stream i)" "issues (foreign_call sub tok) (get_stream_by_subreddit sub')"
  "issues (foreign_call sub tok) list_streams" "issues (foreign_call sub tok) (update_status db i st inst)"
  "issues (foreign_call sub tok) (update_status_if_owner db i st own)"
  "issues (foreign_call sub tok) (finalize_stop_if_unowned db i sub' up)"
  "issues (foreign_call sub tok) (heartbeat i own)" "issues (foreign_call sub tok) (request_stop db i)"
  "issues (foreign_call sub tok) (is_stop_requested i)" "issues (foreign_call sub tok) (delete_stream i est eup purge)"
  "issues (foreign_call sub tok) (set_checkpoint i c p)" "issues (foreign_call sub tok) (get_checkpoint i)"
  unfolding registry_defs
  by (intro keeps_rules; simp add: text_kinds_def)+

subsection \<open>Properties of the lock\<close>

text \<open>C15: \<^verbatim>\<open>acquire\<close> returns a token only if the lock was free at that moment; the token
  carries the instance's name and an identifier never issued before, and the lock then holds
  it with the full time to live. It returns None only if somebody held the lock, and leaves
  it alone. If it raises, the lock is untouched or granted to this call's token.\<close>

theorem acquire_takes_free_lock:
  assumes "documented_services S V" and "run S (acquire_lock sub inst ttl) l w = (r, l', w')"
  shows "acquired sub inst ttl (V w) r (V w')"
  using lock_from_wp [OF assms wp_acquire_lock] by simp

theorem acquire_takes_free_lock_witness:
  "\<exists>tok w'. run ref_services (acquire_lock ''python'' ''w1'' 60) () (ref_start empty_view []) =
       (Inr (Some tok), (), w') \<and> acquired ''python'' ''w1'' 60 empty_view (Inr (Some tok)) (rview w')"
proof -
  have "\<exists>tok w'. run ref_services (acquire_lock ''python'' ''w1'' 60) () (ref_start empty_view []) = (Inr (Some tok), (), w')"
    by (simp add: ref_run lock_defs)
  then obtain tok w' where e: "run ref_services (acquire_lock ''python'' ''w1'' 60) () (ref_start empty_view []) =
    (Inr (Some tok), (), w')" by blast
  from acquire_takes_free_lock [OF ref.documented_services_axioms e]
  have "acquired ''python'' ''w1'' 60 empty_view (Inr (Some tok)) (rview w')" by simp
  with e show ?thesis by blast
qed

text \<open>Once a worker holds the lock with a lease that ends at \<open>d\<close>, it holds it at every
  moment before \<open>d\<close>, whatever any number of other workers do in whatever interleaving: a
  program that never uses this token on this lock cannot take the lock away or shorten the
  lease.\<close>

theorem lease_survives_others:
  assumes "documented_services S V" and "sound (rdb (V w))"
    and "holder (rdb (V w)) sub = Some tok" and "lease_end (rdb (V w)) sub = Some d"
    and "list_all (issues (foreign_call sub tok)) ps"
    and "pool_run S sch (ps, l, w) = (ps', l', w')" and "rclock (rdb (V w')) < d"
  shows "holder (rdb (V w')) sub = Some tok \<and> lease_end (rdb (V w')) sub = Some d"
  using documented_services.pool_issues [OF assms(1) _ stable_leased _ assms(6), of sub tok d] assms(2-5,7)
  by (auto simp: leased_def list_all_iff)

definition leased_world :: ref_world where
  "leased_world = ref_start (with_rdb (grant_lease ''python'' ''w1:x'' 60) empty_view) []"

theorem lease_survives_others_witness:
  "case pool_run ref_services [0, 1, 1, 0, 2, 0, 1, 2, 2]
     ([bind (acquire_lock ''python'' ''w2'' 60) (\<lambda>_. skip), bind (release_lock ''python'' ''w1:y'') (\<lambda>_. skip),
       bind (refresh_lock ''python'' ''w3:z'' 5) (\<lambda>_. skip)], (), leased_world) of
   (_, _, w') \<Rightarrow> holder (rdb (rview w')) ''python'' = Some ''w1:x''" (is "case ?run of (_, _, w') \<Rightarrow> _")
proof -
  obtain ps' l' w' where e: "?run = (ps', l', w')" by (rule prod_cases3)
  have w: "sound (rdb (rview leased_world))" "holder (rdb (rview leased_world)) ''python'' = Some ''w1:x''"
    "lease_end (rdb (rview leased_world)) ''python'' = Some 60000" "horizon leased_world = 0"
    by (simp_all add: leased_world_def grant_lease_def holder_def lease_end_def horizon_def ref_run sound_put_lease)
  have calls: "list_all (issues (foreign_call ''python'' ''w1:x''))
     [bind (acquire_lock ''python'' ''w2'' 60) (\<lambda>_. skip), bind (release_lock ''python'' ''w1:y'') (\<lambda>_. skip),
       bind (refresh_lock ''python'' ''w3:z'' 5) (\<lambda>_. skip)]"
    unfolding list.pred_inject by (intro conjI keeps_rules TrueI; simp)
  from pool_clock [OF e] w(4) have "rclock (rdb (rview w')) < 60000" by simp
  from lease_survives_others [OF ref.documented_services_axioms w(1-3) calls e this] show ?thesis
    unfolding e by simp
qed

text \<open>\<^verbatim>\<open>refresh\<close> extends the lease, and answers True, exactly if the lock holds the
  caller's token at that moment; it never changes who holds a lock.\<close>

theorem refresh_only_by_owner:
  assumes "documented_services S V" and "0 < ttl" and "run S (refresh_lock sub tok ttl) l w = (r, l', w')"
  shows "refreshed sub tok ttl (V w) r (V w')"
  using lock_from_wp [OF assms(1,3) wp_refresh_lock [OF assms(2)]] by simp

theorem refresh_only_by_owner_witness:
  "case run ref_services (refresh_lock ''python'' ''w1:x'' 60) () leased_world of
     (r, _, w') \<Rightarrow> refreshed ''python'' ''w1:x'' 60 (rview leased_world) r (rview w')" (is "case ?run of (r, _, w') \<Rightarrow> _")
proof -
  obtain r l' w' where e: "?run = (r, l', w')" by (rule prod_cases3)
  from refresh_only_by_owner [OF ref.documented_services_axioms _ e] show ?thesis
    unfolding e by simp
qed

text \<open>C16: \<^verbatim>\<open>release\<close> frees the lock, and answers True, exactly if it holds the caller's token
  at that moment: a worker whose lease ended cannot free its successor's lock.\<close>

theorem release_only_by_owner:
  assumes "documented_services S V" and "run S (release_lock sub tok) l w = (r, l', w')"
  shows "released sub tok (V w) r (V w')"
  using lock_from_wp [OF assms wp_release_lock] by simp

theorem release_only_by_owner_witness:
  "case run ref_services (release_lock ''python'' ''w1:old'') () leased_world of
     (r, _, w') \<Rightarrow> released ''python'' ''w1:old'' (rview leased_world) r (rview w')" (is "case ?run of (r, _, w') \<Rightarrow> _")
proof -
  obtain r l' w' where e: "?run = (r, l', w')" by (rule prod_cases3)
  from release_only_by_owner [OF ref.documented_services_axioms e] show ?thesis
    unfolding e by simp
qed

end
