(* ===== verification/Worker_Lease.thy ===== *)
theory Worker_Lease
  imports Worker_Acks Lock_Race
begin

section \<open>The worker and the lease of its subreddit\<close>

text \<open>
  A worker goes on only while it can prove that it owns its subreddit's lock, and uses no token but its
  own: its calls are foreign to every other worker's lease (theory Lock\_Race).
\<close>

subsection \<open>Every call of a worker is foreign to the leases of others\<close>

definition others_lease :: "worker_env \<Rightarrow> string \<Rightarrow> string \<Rightarrow> bool" where
  "others_lease env sub tok = (we_subreddit env = sub \<longrightarrow> we_lock_token env \<noteq> tok)"

lemma foreign_emit_all [keeps_rules]: "issues P (emit_all ms)"
  by (induction ms) (auto intro!: keeps_rules)

lemma foreign_breaker [keeps_rules]:
  "issues P (breaker_step g s f)" "issues P (record_success cfg g s)"
  "P Now \<Longrightarrow> issues P (breaker_guard g s)"
  "P Now \<Longrightarrow> issues P coro \<Longrightarrow> issues P (breaker_call cfg g s coro)"
  unfolding breaker_call_def breaker_guard_def record_success_def breaker_step_def
  by (intro keeps_rules; assumption)+

lemma foreign_record_error [keeps_rules]: "issues (foreign_call sub tok) (record_error db i et msg rec)"
  unfolding record_error_def store_entry_def
  by (intro keeps_rules; simp add: text_kinds_def error_ttl_def)

lemma foreign_deliveries [keeps_rules]:
  "issues (foreign_call sub tok) (run_callbacks rs)"
  "issues (foreign_call sub tok) poll_deliveries" "issues (foreign_call sub tok) clear_pending"
  "issues (foreign_call sub tok) (still_pending ps)"
  unfolding run_callbacks_def poll_deliveries_def clear_pending_def still_pending_def
  by (intro keeps_rules; simp)+

lemma foreign_await [keeps_rules]: "issues (foreign_call sub tok) (await_pending k env ps deadline)"
  by (induction k arbitrary: ps) (auto intro!: keeps_rules simp: Let_def)

lemma foreign_batch [keeps_rules]: "issues (foreign_call sub tok) (wait_for_delivery_batch env)"
  unfolding wait_for_delivery_batch_def
  by (intro keeps_rules; auto intro: keeps_rules split: list.split)

lemma foreign_comment [keeps_rules]:
  "issues (foreign_call sub tok) (save_checkpoint_for_comment_id env c)"
  "issues (foreign_call sub tok) (save_checkpoint env)"
  "issues (foreign_call sub tok) (queue_message env c x)"
  "issues (foreign_call sub tok) (count_comment env c)"
  "issues (foreign_call sub tok) (publish_comment env comment)"
  "issues (foreign_call sub tok) (process_comment env comment checkpoint)"
  unfolding process_comment_def publish_comment_def count_comment_def queue_message_def processing_time_def
    save_checkpoint_def save_checkpoint_for_comment_id_def
  by (intro keeps_rules; simp)+

lemma foreign_fetch [keeps_rules]: "issues (foreign_call sub tok) (fetch_comments n env sk checkpoint)"
proof (induction n)
  case (Suc n)
  show ?case
    unfolding fetch_comments.simps
    by (intro keeps_rules) (auto intro!: keeps_rules Suc.IH split: comment_event.split)
qed (simp add: keeps_rules)

lemma foreign_stream [keeps_rules]:
  "issues (foreign_call sub tok) (fetch_and_process_comments n env)"
  "issues (foreign_call sub tok) (handle_error env e)"
  unfolding fetch_and_process_comments_def handle_error_def handle_fetch_exception_def
  by (intro keeps_rules; simp)+

lemma foreign_stream_loop [keeps_rules]: "issues (foreign_call sub tok) (stream_loop n m env)"
  by (induction n) (auto intro!: keeps_rules)

lemma foreign_refresh [keeps_rules]:
  "others_lease env sub tok \<Longrightarrow> issues (foreign_call sub tok) (refresh_lock_or_raise env)"
  unfolding refresh_lock_or_raise_def record_lock_loss_def
  by (intro keeps_rules; simp add: others_lease_def lock_ttl_def)

lemma foreign_refresh_loop [keeps_rules]:
  "others_lease env sub tok \<Longrightarrow> issues (foreign_call sub tok) (lock_refresh_loop n env)"
  by (induction n) (auto intro!: keeps_rules)

lemma foreign_run [keeps_rules]:
  "others_lease env sub tok \<Longrightarrow> issues (foreign_call sub tok) (run_worker env)"
  unfolding run_worker_def await_tasks_def
  by (intro keeps_rules; simp add: others_lease_def)

subsection \<open>Checking the lease\<close>

text \<open>The check returns only if the lock held the worker's token, whose lease then lasts its
  full time; it fails with an \<^verbatim>\<open>Exception\<close> only by raising \<^verbatim>\<open>LockLostError\<close> with the stop event
  set.\<close>

definition lease_checked :: "worker_env \<Rightarrow> view \<Rightarrow> worker \<Rightarrow> pyexn + unit \<Rightarrow> worker \<Rightarrow> view \<Rightarrow> bool" where
  "lease_checked env v l r l' v' =
     (case r of
        Inr _ \<Rightarrow> l' = l \<and> (\<exists>t \<ge> rclock (rdb v).
          holder (at_time t (rdb v)) (we_subreddit env) = Some (we_lock_token env) \<and>
          leased (we_subreddit env) (we_lock_token env) (t + 1000 * lock_ttl) v')
      | Inl e \<Rightarrow> is_exception e \<and> \<not> is_cancelled e \<longrightarrow> (\<exists>m. e = lock_lost_error m) \<and> wk_stop l')"

lemma leased_extended:
  assumes "sound s" and "holder s sub = Some tok" and "rdb v = extend_lease sub tok lock_ttl s"
  shows "leased sub tok (rclock s + 1000 * lock_ttl) v"
proof -
  have "sound (redis_effect (Eval (Refresh_If_Owner (lock_key sub) tok lock_ttl)) s)"
    using assms(1) by (intro sound_effect) (simp_all add: lock_ttl_def)
  then have "sound (rdb v)" using assms(3) by (simp add: lock_ttl_def)
  with assms(2,3) show ?thesis
    by (simp add: leased_def redis_lease.refr_holder) (simp add: extend_lease_def lease_end_def)
qed

definition send_heartbeat :: "worker_env \<Rightarrow> (worker, unit) prog" where
  "send_heartbeat env =
     except is_exception (bind (heartbeat (we_stream_id env) (we_instance_id env)) (\<lambda>_. skip)) (\<lambda>_. skip)"

lemma wp_send_heartbeat:
  assumes "leased sub tok d v"
  shows "wp (send_heartbeat env) (\<lambda>r l' v'. (l' = l \<and> leased sub tok d v') \<and> (\<forall>e. r = Inl e \<longrightarrow> \<not> is_exception e)) l v"
  unfolding wp_conj
proof (intro conjI)
  have "issues (foreign_call sub tok) (send_heartbeat env)"
    unfolding send_heartbeat_def by (intro keeps_rules)
  from keepsD [OF issues_keeps [OF this stable_leased] assms]
  show "wp (send_heartbeat env) (\<lambda>r l'. leased sub tok d) l v" .
  show "wp (send_heartbeat env) (\<lambda>r l' v. l' = l) l v"
    unfolding send_heartbeat_def heartbeat_def by (intro mild_wp mild_rules)
  show "wp (send_heartbeat env) (\<lambda>r l v. \<forall>e. r = Inl e \<longrightarrow> \<not> is_exception e) l v"
    unfolding send_heartbeat_def by (intro raises_wp raises_rules)
qed

lemma wp_refresh_lock_or_raise:
  assumes "sound (rdb v)"
  shows "wp (refresh_lock_or_raise env) (\<lambda>r l' v'. lease_checked env v l r l' v') l v"
proof -
  let ?sub = "we_subreddit env" and ?tok = "we_lock_token env"
  have lost: "wp (andthen record_lock_loss (Raise (lock_lost_error m))) (\<lambda>r l' v'. lease_checked env v l r l' v') l1 v1"
    for m l1 v1
    by (auto simp: record_lock_loss_def wp_andthen wp_basic lease_checked_def)
  have beat: "wp (send_heartbeat env) (\<lambda>r l' v'. lease_checked env v l r l' v') l v1"
    if "refreshed ?sub ?tok lock_ttl v (Inr True) v1" for v1
  proof -
    from that obtain t where t: "t \<ge> rclock (rdb v)" "holder (at_time t (rdb v)) ?sub = Some ?tok"
      "rdb v1 = extend_lease ?sub ?tok lock_ttl (at_time t (rdb v))"
      by (auto simp: refreshed_def Let_def)
    have "leased ?sub ?tok (t + 1000 * lock_ttl) v1"
      using leased_extended [OF _ t(2,3)] assms by simp
    from wp_send_heartbeat [OF this] show ?thesis
      by (rule wp_mono) (use t in \<open>auto simp: lease_checked_def split: sum.splits\<close>)
  qed
  show ?thesis
    unfolding refresh_lock_or_raise_def wp_bind [where p = "attempt p" for p] wp_attempt wp_wait_for sum.case
      send_heartbeat_def [symmetric]
    by (rule wp_mono [OF wp_refresh_lock [of lock_ttl ?sub ?tok l v]])
       (auto simp: lock_ttl_def lost beat lease_checked_def split: sum.splits)
qed

end
