(* ===== verification/Worker_Theorems.thy ===== *)
theory Worker_Theorems
  imports Worker_Lease
begin

section \<open>What a worker promises\<close>

text \<open>
  The properties of src/stream/worker.py, from theories Worker\_Acks and Worker\_Lease.
\<close>

lemmas worker_runs = fetch_and_process_comments_def breaker_call_def breaker_guard_def new_breaker_def
  attempt_def get_checkpoint_def record_success_def breaker_step_def breaker_success_def process_comment_def
  publish_comment_def queue_message_def count_comment_def checkpoint_interval_def poll_deliveries_def
  run_callbacks_def wait_for_delivery_batch_def complete_delivery_def delivery_done_def ref_reports_def
  next_wall_def set_breaker_def enough_rounds_def still_pending_def clear_pending_def processing_time_def
  save_checkpoint_for_comment_id_def set_checkpoint_def List.map_filter_def new_worker_def
  handle_error_def record_error_def store_entry_def refresh_lock_or_raise_def refresh_lock_def
  lock_metric_def count_lock_error_def

text \<open>A worker, one comment in its feed and the delivery report that answers it.\<close>

definition env1 :: worker_env where
  "env1 = \<lparr>we_subreddit = ''python'', we_stream_id = ''s1'', we_instance_id = ''n'', we_topic = ''t'',
     we_lock_token = ''n:x'', we_delivery_timeout = 50000, we_timeout_text = ''0.05'', we_db = False\<rparr>"

definition worker99 :: worker where
  "worker99 = new_worker\<lparr>wk_comments := 99\<rparr>"

definition feed_world :: ref_world where
  "feed_world = (ref_start empty_view [])\<lparr>feed := [Comment \<lparr>c_id = ''c1'', c_author = None, c_body = ''hello''\<rparr>],
     reports := [[\<lparr>dr_handle = 0, dr_error = None, dr_size = 5\<rparr>]]\<rparr>"

lemma env1_sel [simp]:
  "we_subreddit env1 = ''python''" "we_stream_id env1 = ''s1''" "we_topic env1 = ''t''" "we_instance_id env1 = ''n''"
  "we_delivery_timeout env1 = 50000" "we_lock_token env1 = ''n:x''" "we_db env1 = False"
  by (simp_all add: env1_def)

lemma hello_message [simp]:
  "comment_message ''python'' ''[deleted]'' ''hello'' (stamp default_time) =
     Inr \<lparr>cm_subreddit = ''python'', cm_author_id = ''[deleted]'', cm_text = ''hello'', cm_timestamp = stamp default_time\<rparr>"
  by (simp add: stamped_message default_time_ok)

lemma ok_worker99: "worker_ok False worker99 a"
  by (simp add: worker_ok_def accounted_def worker99_def new_worker_def)

subsection \<open>Deliveries and checkpoints\<close>

text \<open>C6: whenever the stream loop is about to write its stream's checkpoint, nothing the worker
  ever produced is pending and the broker has all of it: a restart from the checkpoint loses no
  message. It holds at every moment of every interleaving with other tasks that change
  nothing of the worker but its stop event, as the lock refresher does.\<close>

theorem checkpoint_after_delivery:
  assumes "documented_services S V" and "worker_ok False l (acked (V w))"
    and "list_all (mild stop_only) others"
    and "pool_run S sch (stream_loop n m env # others, l, w) = (ps', l', w')"
    and "settle S (ps' ! 0) l' w' = (Call c k, l1, w1)"
    and "checkpoint_key (we_stream_id env) \<in> call_writes c"
  shows "wk_pending l1 = [] \<and> (\<forall>h \<in> set (wk_mine l1). acked (V w1) h)"
proof -
  let ?T = "\<lambda>_ _ _. True" and ?G = "acked_writes (we_stream_id env)"
  have "rg stop_only ?G (stream_loop n m env) ?T l a" if "worker_ok False l a" for l a
    by (rule rg_mono [OF rg_stream_loop [OF that]]) simp
  then have start: "passes stop_only (rg stop_only ?G (stream_loop n m env) ?T) l (acked (V w))"
    using lasting_acks(2) [of False] assms(2) by (auto simp: passes_def lasting_def)
  have "rg stop_only ?G (ps' ! 0) ?T l' (acked (V w'))"
    by (rule documented_services.pool_rg [OF assms(1,4), of 0])
       (use start assms(3) in \<open>auto simp: list_all_length nth_Cons' stop_only_rel guarantee_lasts\<close>)
  from documented_services.settle_rg [OF assms(1) this assms(5)] assms(6) show ?thesis
    by (simp add: acked_writes_def all_acked_def)
qed

theorem checkpoint_after_delivery_witness:
  "\<exists>ps' l' w' c k l1 w1.
     pool_run ref_services [0, 0, 1, 0, 0, 0, 0, 0, 0, 0, 0, 0, 0] ([stream_loop 1 2 env1, lock_refresh_loop 2 env1], worker99, feed_world) =
       (ps', l', w') \<and> settle ref_services (ps' ! 0) l' w' = (Call c k, l1, w1) \<and>
     checkpoint_key ''s1'' \<in> call_writes c \<and> wk_mine l1 = [0] \<and> acked (rview w1) 0" (is "\<exists>ps' l' w' c k l1 w1. ?run = _ \<and> _")
proof -
  have "\<exists>ps' l' w' c k l1 w1. ?run = (ps', l', w') \<and> settle ref_services (ps' ! 0) l' w' = (Call c k, l1, w1) \<and>
     checkpoint_key ''s1'' \<in> call_writes c \<and> wk_mine l1 = [0]"
    by (simp add: pool_run_def numeral_eq_Suc pool_step_def ref_run worker99_def feed_world_def worker_runs cong: lazy)
  then obtain ps' l' w' c k l1 w1 where e: "?run = (ps', l', w')"
    and c: "settle ref_services (ps' ! 0) l' w' = (Call c k, l1, w1)" "checkpoint_key ''s1'' \<in> call_writes c" "wk_mine l1 = [0]"
    by blast
  from checkpoint_after_delivery [OF ref.documented_services_axioms ok_worker99 _ e c(1)] c(2,3)
  have "acked (rview w1) 0" by (simp add: mild_lock_refresh)
  with e c show ?thesis by blast
qed

text \<open>C9: the wait for a batch of deliveries ends: whatever reports come or do not come, it never
  runs out of the rounds the model gives it. It returns only if the broker has everything the
  worker produced, and fails otherwise: as a \<^verbatim>\<open>KafkaDeliveryError\<close>, or by something that is no
  \<^verbatim>\<open>Exception\<close>.\<close>

theorem delivery_wait_ends:
  assumes "documented_services S V" and "worker_ok False l (acked (V w))"
    and "run S (wait_for_delivery_batch env) l w = (r, l', w')"
  shows "r \<noteq> Inl out_of_rounds \<and>
    (case r of Inr _ \<Rightarrow> wk_pending l' = [] \<and> (\<forall>h \<in> set (wk_mine l'). acked (V w') h)
     | Inl e \<Rightarrow> (\<exists>m. e = kafka_delivery_error m) \<or> \<not> is_exception e)"
proof -
  have acc: "accounted l (acked (V w))" using assms(2) by (simp add: worker_ok_def)
  then have "r \<noteq> Inl out_of_rounds"
    by (intro documented_services.run_wp [where Q = "\<lambda>r _ _. r \<noteq> Inl out_of_rounds", OF assms(1,3) wp_wait_ends])
       (simp add: accounted_def)
  with documented_services.run_wp [OF assms(1,3) rg_wp [OF rg_wait_for_batch [OF acc refl] stop_only_rel(1)]]
  show ?thesis
    by (auto simp: batch_arrived_def all_acked_def delivery_failure_def split: sum.splits)
qed

theorem delivery_wait_ends_witness:
  "case run ref_services (wait_for_delivery_batch env1) (new_worker\<lparr>wk_comments := 1, wk_pending := [0], wk_mine := [0]\<rparr>) feed_world of
     (r, l', w') \<Rightarrow> r \<noteq> Inl out_of_rounds" (is "case ?run of (r, l', w') \<Rightarrow> _")
proof -
  obtain r l' w' where e: "?run = (r, l', w')" by (rule prod_cases3)
  have "worker_ok False (new_worker\<lparr>wk_comments := 1, wk_pending := [0], wk_mine := [0]\<rparr>) a" for a
    by (simp add: worker_ok_def accounted_def new_worker_def)
  from delivery_wait_ends [OF ref.documented_services_axioms this e] show ?thesis
    unfolding e by simp
qed

text \<open>C10: processing a comment, on every path, leaves the worker's books in order: what was
  produced is pending or has arrived, and there are as many pending messages as comments since the
  last checkpoint, fewer than a hundred. The exceptions are a failed delivery, which
  ends the worker, and what is no \<^verbatim>\<open>Exception\<close>.\<close>

theorem comment_keeps_books:
  assumes "documented_services S V" and "worker_ok True l (acked (V w))"
    and "run S (process_comment env comment checkpoint) l w = (r, l', w')"
  shows "worker_ok True l' (acked (V w')) \<or> (\<exists>e. r = Inl e \<and> (\<not> is_exception e \<or> (\<exists>m. e = kafka_delivery_error m)))"
  using documented_services.run_wp [OF assms(1,3) rg_wp [OF rg_process_comment [OF assms(2)] stop_only_rel(1)]]
  by (cases r) (auto simp: delivery_failure_def)

theorem comment_keeps_books_witness:
  "\<exists>l' w'. run ref_services (process_comment env1 \<lparr>c_id = ''c1'', c_author = None, c_body = ''hello''\<rparr>
       \<lparr>last_comment_id = None, last_processed_at = None, checkpoint_updated_at = None\<rparr>) new_worker feed_world = (Inr (), l', w') \<and>
     worker_ok True l' (acked (rview w'))" (is "\<exists>l' w'. ?run = _ \<and> _")
proof -
  have "\<exists>l' w'. ?run = (Inr (), l', w')"
    by (simp add: ref_run feed_world_def worker_runs cong: lazy)
  then obtain l' w' where e: "?run = (Inr (), l', w')" by blast
  from comment_keeps_books [OF ref.documented_services_axioms ok_new_worker e] e show ?thesis by auto
qed

text \<open>The worker goes on after an error only if the error is retryable and not fatal; it ends
  with every other error.\<close>

theorem worker_continues_if_retryable:
  assumes "run S (handle_error env e) l w = (Inr (), l', w')"
  shows "is_retryable e \<and> \<not> should_abandon_stream e"
  using assms decisions_exclusive [of e] retryable_split [of e]
  by (auto simp: handle_error_def andthen_def run_bind split: prod.splits sum.splits if_splits)

theorem worker_continues_if_retryable_witness:
  "is_retryable (timeout_error []) \<and> (\<exists>w'. run ref_services (handle_error env1 (timeout_error [])) new_worker feed_world = (Inr (), new_worker, w'))"
proof -
  have "\<exists>w'. run ref_services (handle_error env1 (timeout_error [])) new_worker feed_world = (Inr (), new_worker, w')"
    by (simp add: ref_run feed_world_def worker_runs recovery_defs FATAL_EXCEPTIONS_def BACKOFF_EXCEPTIONS_def
        RETRYABLE_EXCEPTIONS_def cong: lazy)
  with worker_continues_if_retryable [of ref_services env1 "timeout_error []" new_worker feed_world new_worker] show ?thesis by blast
qed

subsection \<open>The lease\<close>

text \<open>C8: the lease check returns only if the lock held the worker's token at that moment; its
  lease then lasts for the full time to live. Otherwise the worker is stopped: an \<^verbatim>\<open>Exception\<close>
  the check raises is a \<^verbatim>\<open>LockLostError\<close>, raised after the stop event is set.\<close>

theorem lease_check_fails_closed:
  assumes "documented_services S V" and "sound (rdb (V w))"
    and "run S (refresh_lock_or_raise env) l w = (r, l', w')"
  shows "lease_checked env (V w) l r l' (V w')"
  using documented_services.run_wp [OF assms(1,3) wp_refresh_lock_or_raise [OF assms(2)]] .

theorem lease_check_fails_closed_witness:
  "case run ref_services (refresh_lock_or_raise env1) new_worker leased_world of
     (r, l', w') \<Rightarrow> lease_checked env1 (rview leased_world) new_worker r l' (rview w')" (is "case ?run of (r, l', w') \<Rightarrow> _")
proof -
  obtain r l' w' where e: "?run = (r, l', w')" by (rule prod_cases3)
  have "sound (rdb (rview leased_world))"
    by (simp add: leased_world_def grant_lease_def ref_run sound_put_lease)
  from lease_check_fails_closed [OF ref.documented_services_axioms this e] show ?thesis
    unfolding e by simp
qed

text \<open>Workers leave the leases of others alone: however many workers with other tokens run,
  each with its main task, stream loop and lock refresher, in whatever interleaving, the
  holder of a lock keeps it until its lease ends.\<close>

definition worker_tasks :: "nat \<Rightarrow> nat \<Rightarrow> worker_env \<Rightarrow> (worker, unit) prog list" where
  "worker_tasks n m env = [run_worker env, stream_loop n m env, lock_refresh_loop n env]"

theorem workers_respect_leases:
  assumes "documented_services S V" and "sound (rdb (V w))"
    and "holder (rdb (V w)) sub = Some tok" and "lease_end (rdb (V w)) sub = Some d"
    and "list_all (\<lambda>env. others_lease env sub tok) envs"
    and "pool_run S sch (concat (map (worker_tasks n m) envs), l, w) = (ps', l', w')" and "rclock (rdb (V w')) < d"
  shows "holder (rdb (V w')) sub = Some tok \<and> lease_end (rdb (V w')) sub = Some d"
proof -
  have "\<forall>p \<in> set (concat (map (worker_tasks n m) envs)). issues (foreign_call sub tok) p"
    using assms(5) by (auto simp: worker_tasks_def list_all_iff intro!: keeps_rules)
  from documented_services.pool_issues [OF assms(1) this stable_leased _ assms(6), of d] assms(2-4,7)
  show ?thesis by (simp add: leased_def)
qed

theorem workers_respect_leases_witness:
  "case pool_run ref_services [0, 1, 1, 0, 2, 0, 1, 2, 2, 3, 5, 5, 4] (concat (map (worker_tasks 2 2) [env1, env1]), new_worker, leased_world) of
     (_, _, w') \<Rightarrow> holder (rdb (rview w')) ''python'' = Some ''w1:x''" (is "case ?run of (_, _, w') \<Rightarrow> _")
proof -
  obtain ps' l' w' where e: "?run = (ps', l', w')" by (rule prod_cases3)
  have w: "sound (rdb (rview leased_world))" "holder (rdb (rview leased_world)) ''python'' = Some ''w1:x''"
    "lease_end (rdb (rview leased_world)) ''python'' = Some 60000" "horizon leased_world = 0"
    by (simp_all add: leased_world_def grant_lease_def holder_def lease_end_def horizon_def ref_run sound_put_lease)
  have envs: "list_all (\<lambda>env. others_lease env ''python'' ''w1:x'') [env1, env1]" by (simp add: others_lease_def)
  from pool_clock [OF e] w(4) have "rclock (rdb (rview w')) < 60000" by simp
  from workers_respect_leases [OF ref.documented_services_axioms w(1-3) envs e this] show ?thesis
    unfolding e by simp
qed

end
