(* ===== verification/Manager.thy ===== *)
theory Manager
  imports Lock_Race Outcomes
begin

section \<open>The stream manager\<close>

text \<open>
  \<^verbatim>\<open>StreamManager\<close> of src/stream/manager.py. What is fixed when a manager is made is
  \<open>manager_env\<close>; \<open>manager\<close> holds what changes: the keys of \<^verbatim>\<open>_tasks\<close>, the shutdown flag, the
  reconciler's task and whether \<^verbatim>\<open>_lock\<close> is taken. A task of the event loop is known by its name.

  \<^verbatim>\<open>async with self._lock\<close> waits while another task of the manager is inside; a task that waits looks
  again whenever the event loop runs it, at most \<open>me_rounds\<close> times in the model. Creating a
  task is recorded under its name; the program it runs is one of the programs that interleave
  with the others (theory Interleaving).
\<close>

record manager_env =
  me_instance_id :: string
  me_lock_manager :: bool  \<comment> \<open>whether there is one\<close>
  me_stop_poll :: int  \<comment> \<open>milliseconds\<close>
  me_db :: bool
  me_rounds :: nat

record manager =
  mg_tasks :: "string list"
  mg_shutting_down :: bool
  mg_reconciler :: bool
  mg_busy :: bool

definition new_manager :: manager where
  "new_manager = \<lparr>mg_tasks = [], mg_shutting_down = False, mg_reconciler = False, mg_busy = False\<rparr>"

definition lease_ttl_seconds :: int where "lease_ttl_seconds = 60"

subsection \<open>The manager's lock\<close>

fun acquire_mutex :: "nat \<Rightarrow> (manager, unit) prog" where
  "acquire_mutex 0 = Raise out_of_rounds"
| "acquire_mutex (Suc n) =
     bind get_local (\<lambda>self.
     if mg_busy self then andthen (sleep_ms 0) (acquire_mutex n)
     else modify_local (\<lambda>self. self\<lparr>mg_busy := True\<rparr>))"

definition release_mutex :: "(manager, unit) prog" where
  "release_mutex = modify_local (\<lambda>self. self\<lparr>mg_busy := False\<rparr>)"

definition with_lock :: "manager_env \<Rightarrow> (manager, 'a) prog \<Rightarrow> (manager, 'a) prog" where
  "with_lock env p = andthen (acquire_mutex (me_rounds env)) (finally_do p release_mutex)"

definition is_running_locally :: "manager_env \<Rightarrow> string \<Rightarrow> (manager, bool) prog" where
  "is_running_locally env stream_id =
     with_lock env (bind get_local (\<lambda>self. Ret (stream_id \<in> set (mg_tasks self))))"

definition list_local_streams :: "manager_env \<Rightarrow> (manager, (string \<times> string) list) prog" where
  "list_local_streams env =
     with_lock env (bind get_local (\<lambda>self. Ret (map (\<lambda>sid. (sid, ''stream-'' @ sid)) (mg_tasks self))))"

subsection \<open>Starting a stream\<close>

definition lifecycle :: "string \<Rightarrow> string \<Rightarrow> (manager, unit) prog" where
  "lifecycle transition result = emit (Inc ''stream_lifecycle'' [transition, result])"

text \<open>Whether the lease is still the caller's, where there is one to check.\<close>

definition lease_held :: "manager_env \<Rightarrow> string \<Rightarrow> string option \<Rightarrow> (manager, bool) prog" where
  "lease_held env subreddit lock_token =
     (if me_lock_manager env \<and> truthy lock_token then owns_lock subreddit (or_empty lock_token) else Ret True)"

definition start_local_worker ::
    "manager_env \<Rightarrow> string \<Rightarrow> string \<Rightarrow> string option \<Rightarrow> string \<Rightarrow> (manager, bool) prog" where
  "start_local_worker env stream_id subreddit lock_token transition =
     bind (with_lock env
       (bind get_local (\<lambda>self.
        if mg_shutting_down self \<or> stream_id \<in> set (mg_tasks self) then Ret False
        else
          bind (lease_held env subreddit lock_token) (\<lambda>owned.
          if \<not> owned then Ret False
          else
            andthen (update_status (me_db env) stream_id ''active'' (Some (me_instance_id env)))
           (bind (lease_held env subreddit lock_token) (\<lambda>owned.
            if \<not> owned then Ret False
            else andthen (modify_local (\<lambda>self. self\<lparr>mg_tasks := mg_tasks self @ [stream_id]\<rparr>)) (Ret True)))))))
     (\<lambda>started.
      if started then
        andthen (emit (Gauge_Inc ''active_streams'' [])) (andthen (lifecycle transition ''success'') (Ret True))
      else Ret False)"

definition give_back :: "manager_env \<Rightarrow> string \<Rightarrow> string option \<Rightarrow> (manager, unit) prog" where
  "give_back env subreddit lock_token =
     (if me_lock_manager env \<and> truthy lock_token
      then bind (release_lock subreddit (or_empty lock_token)) (\<lambda>_. skip) else skip)"

text \<open>The lease a new stream starts under; a contended lock takes the stream's record back.\<close>

definition take_lease :: "manager_env \<Rightarrow> string \<Rightarrow> dict \<Rightarrow> (manager, string option) prog" where
  "take_lease env subreddit meta =
     (if me_lock_manager env then
        bind (acquire_lock subreddit (me_instance_id env) lease_ttl_seconds) (\<lambda>token.
        if token = None then
          bind (delete_stream (or_empty (dict_get meta ''id'')) (Some ''starting'')
            (Some (or_empty (dict_get meta ''updated_at''))) False) (\<lambda>_.
          andthen (lifecycle ''start'' ''lock_contended'')
            (Raise (runtime_error (''Cannot acquire lock for subreddit '' @ subreddit))))
        else Ret token)
      else Ret None)"

text \<open>Starting the worker under the lease; \<^verbatim>\<open>except Exception\<close> does not see a cancellation.\<close>

definition activate :: "manager_env \<Rightarrow> string \<Rightarrow> dict \<Rightarrow> string option \<Rightarrow> (manager, dict) prog" where
  "activate env subreddit meta lock_token =
     (let stream_id = or_empty (dict_get meta ''id'') in
     bind (except is_exception (start_local_worker env stream_id subreddit lock_token ''start'')
            (\<lambda>e. andthen (give_back env subreddit lock_token) (Raise e))) (\<lambda>started.
     if \<not> started then
       andthen (give_back env subreddit lock_token)
         (Raise (runtime_error (''Stream '' @ stream_id @
           '' could not be activated safely; lease ownership was lost or this instance is shutting down'')))
     else Ret meta))"

definition start_stream :: "manager_env \<Rightarrow> string \<Rightarrow> dict \<Rightarrow> (manager, dict) prog" where
  "start_stream env subreddit config =
     bind (create_stream (me_db env) subreddit config (Some (me_instance_id env))) (\<lambda>meta.
     bind (take_lease env subreddit meta) (\<lambda>lock_token. activate env subreddit meta lock_token))"

subsection \<open>Adopting and reconciling streams\<close>

text \<open>With the lease in hand the stream is read again; a lease that no local worker runs under is
  given back.\<close>

definition adopt :: "manager_env \<Rightarrow> string \<Rightarrow> string \<Rightarrow> string \<Rightarrow> (manager, bool) prog" where
  "adopt env stream_id subreddit lock_token =
     finally_do
       (bind (get_stream stream_id) (\<lambda>current.
        if dict_get (sd_fields current) ''status'' \<notin> {Some ''active'', Some ''starting''} then Ret False
        else
          bind (is_stop_requested stream_id) (\<lambda>stop.
          if stop then Ret False
          else start_local_worker env stream_id subreddit (Some lock_token) ''reconcile'')))
       (bind (is_running_locally env stream_id) (\<lambda>running.
        if \<not> running then bind (release_lock subreddit lock_token) (\<lambda>_. skip) else skip))"

definition resume_stream :: "manager_env \<Rightarrow> stream_data \<Rightarrow> (manager, bool) prog" where
  "resume_stream env meta =
     bind get_local (\<lambda>self.
     if \<not> me_lock_manager env \<or> mg_shutting_down self then Ret False
     else let stream_id = or_empty (dict_get (sd_fields meta) ''id'');
              subreddit = or_empty (dict_get (sd_fields meta) ''subreddit'') in
     if stream_id = [] \<or> subreddit = [] then Ret False
     else
       bind (is_running_locally env stream_id) (\<lambda>running.
       if running then Ret False
       else
         bind (is_locked subreddit) (\<lambda>locked.
         if locked then Ret False
         else
           bind (acquire_lock subreddit (me_instance_id env) lease_ttl_seconds) (\<lambda>token. case token of
             None \<Rightarrow> andthen (lifecycle ''reconcile'' ''lock_contended'') (Ret False)
           | Some lock_token \<Rightarrow> adopt env stream_id subreddit lock_token))))"

text \<open>\<^verbatim>\<open>s.replace("Z", "+00:00")\<close>.\<close>

definition replace_Z :: "string \<Rightarrow> string" where
  "replace_Z s = concat (map (\<lambda>c. if c = CHR ''Z'' then ''+00:00'' else [c]) s)"

definition needs_reconciliation :: "stream_data \<Rightarrow> (manager, bool) prog" where
  "needs_reconciliation meta =
     (let status = dict_get (sd_fields meta) ''status'';
          updated_at = dict_get (sd_fields meta) ''updated_at'' in
      if status = Some ''active'' then Ret True
      else if status \<noteq> Some ''starting'' \<or> \<not> truthy updated_at then Ret False
      else case fromisoformat (replace_Z (or_empty updated_at)) of
          None \<Rightarrow> Ret False
        | Some t \<Rightarrow>
            let t = (if tz t = None then with_tz 0 t else t) in
            bind datetime_now (\<lambda>now. Ret (to_micros now - to_micros t \<ge> 1000000 * lease_ttl_seconds)))"

definition reconcile_stream :: "manager_env \<Rightarrow> stream_data \<Rightarrow> (manager, unit) prog" where
  "reconcile_stream env meta =
     (let stream_id = or_empty (dict_get (sd_fields meta) ''id'');
          subreddit = or_empty (dict_get (sd_fields meta) ''subreddit'');
          status = dict_get (sd_fields meta) ''status'';
          updated_at = dict_get (sd_fields meta) ''updated_at'' in
      if stream_id = [] \<or> subreddit = [] then skip
      else
        bind (needs_reconciliation meta) (\<lambda>needed.
        if needed then
          except is_exception (bind (resume_stream env meta) (\<lambda>_. skip)) (\<lambda>_. lifecycle ''reconcile'' ''error'')
        else if status = Some ''stopping'' \<and> truthy updated_at then
          except is_exception
            (bind (finalize_stop_if_unowned (me_db env) stream_id subreddit (or_empty updated_at)) (\<lambda>_. skip)) (\<lambda>_. skip)
        else skip))"

definition reconcile_once :: "manager_env \<Rightarrow> (manager, unit) prog" where
  "reconcile_once env = bind list_streams (\<lambda>streams. for_each streams (reconcile_stream env))"

definition reconciler_task :: "manager_env \<Rightarrow> string" where
  "reconciler_task env = ''stream-reconciler-'' @ me_instance_id env"

definition start_reconciliation :: "manager_env \<Rightarrow> (manager, unit) prog" where
  "start_reconciliation env =
     bind get_local (\<lambda>self.
     bind (if mg_reconciler self then task_done (reconciler_task env) else Ret True) (\<lambda>ended.
     if \<not> ended then skip
     else modify_local (\<lambda>self. self\<lparr>mg_reconciler := True\<rparr>)))"

text \<open>\<^verbatim>\<open>with suppress(asyncio.CancelledError): await task\<close>.\<close>

definition join_quietly :: "string \<Rightarrow> ('l, unit) prog" where
  "join_quietly task = except is_cancelled (unit_call (Join_Task task)) (\<lambda>_. skip)"

definition stop_reconciliation :: "manager_env \<Rightarrow> (manager, unit) prog" where
  "stop_reconciliation env =
     bind get_local (\<lambda>self.
     andthen (modify_local (\<lambda>self. self\<lparr>mg_reconciler := False\<rparr>))
    (if \<not> mg_reconciler self then skip
     else andthen (unit_call (Cancel_Task (reconciler_task env))) (join_quietly (reconciler_task env))))"

fun reconcile_loop :: "nat \<Rightarrow> manager_env \<Rightarrow> int \<Rightarrow> (manager, unit) prog" where
  "reconcile_loop 0 env interval = Raise out_of_rounds"
| "reconcile_loop (Suc n) env interval =
     bind (attempt (andthen (reconcile_once env) (sleep_ms interval))) (\<lambda>r. case r of
       Inr _ \<Rightarrow> reconcile_loop n env interval
     | Inl e \<Rightarrow>
         if is_cancelled e then Raise e
         else if is_exception e then andthen (sleep_ms interval) (reconcile_loop n env interval)
         else Raise e)"

subsection \<open>The task of a stream\<close>

definition invoke_runner :: "(string \<Rightarrow> string option \<Rightarrow> ('l, unit) prog) \<Rightarrow> string \<Rightarrow> string option \<Rightarrow> ('l, unit) prog" where
  "invoke_runner runner subreddit lock_token = runner subreddit lock_token"

fun wait_for_stop_request :: "nat \<Rightarrow> manager_env \<Rightarrow> string \<Rightarrow> (manager, unit) prog" where
  "wait_for_stop_request 0 env stream_id = Raise out_of_rounds"
| "wait_for_stop_request (Suc n) env stream_id =
     bind (is_stop_requested stream_id) (\<lambda>stop.
     if stop then skip
     else andthen (sleep_ms (me_stop_poll env)) (wait_for_stop_request n env stream_id))"

definition runner_task :: "string \<Rightarrow> string" where "runner_task stream_id = ''stream-runner-'' @ stream_id"
definition watcher_task :: "string \<Rightarrow> string" where "watcher_task stream_id = ''stream-stop-watcher-'' @ stream_id"

definition should_preserve_for_failover :: "string \<Rightarrow> (manager, bool) prog" where
  "should_preserve_for_failover stream_id =
     bind get_local (\<lambda>self.
     if \<not> mg_shutting_down self then Ret False
     else except is_exception (bind (is_stop_requested stream_id) (\<lambda>stop. Ret (\<not> stop))) (\<lambda>_. Ret True))"

definition handle_runner_cancellation :: "manager_env \<Rightarrow> string \<Rightarrow> (manager, unit) prog" where
  "handle_runner_cancellation env stream_id =
     bind (should_preserve_for_failover stream_id) (\<lambda>preserve.
     if preserve then lifecycle ''drain'' ''released''
     else
       bind (update_status_if_owner (me_db env) stream_id ''stopped'' (me_instance_id env)) (\<lambda>_.
       lifecycle ''stop'' ''cancelled''))"

text \<open>The body of \<^verbatim>\<open>try\<close>, its \<^verbatim>\<open>except\<close> clauses in order, and \<^verbatim>\<open>finally\<close>.\<close>

definition watch_runner :: "manager_env \<Rightarrow> string \<Rightarrow> (manager, unit) prog" where
  "watch_runner env stream_id =
     bind (wait_tasks stream_id) (\<lambda>t.
     andthen (case t of
         Stop_Seen \<Rightarrow> andthen (unit_call (Cancel_Task (runner_task stream_id))) (join_quietly (runner_task stream_id))
       | Watcher_Raised e \<Rightarrow> Raise e
       | Runner_Raised e \<Rightarrow> Raise e
       | Runner_Returned \<Rightarrow> skip)
    (bind (update_status_if_owner (me_db env) stream_id ''stopped'' (me_instance_id env)) (\<lambda>_.
     lifecycle ''stop'' ''completed'')))"

definition handle_run_exception :: "manager_env \<Rightarrow> string \<Rightarrow> pyexn \<Rightarrow> (manager, unit) prog" where
  "handle_run_exception env stream_id e =
     (if is_cancelled e then
        andthen (unit_call (Cancel_Task (runner_task stream_id)))
       (andthen (join_quietly (runner_task stream_id))
       (andthen (handle_runner_cancellation env stream_id) (Raise e)))
      else if isinstance e [Lock_Lost_Error] then lifecycle ''lease'' ''relinquished''
      else if isinstance e [Stream_Not_Found_Error] then lifecycle ''run'' ''stream_not_found''
      else if is_exception e then
        bind (update_status_if_owner (me_db env) stream_id ''error'' (me_instance_id env)) (\<lambda>_.
        lifecycle ''run'' ''error'')
      else Raise e)"

definition forget_task :: "manager_env \<Rightarrow> string \<Rightarrow> (manager, bool) prog" where
  "forget_task env stream_id =
     with_lock env (bind get_local (\<lambda>self.
       if stream_id \<in> set (mg_tasks self)
       then andthen (modify_local (\<lambda>self. self\<lparr>mg_tasks := filter (\<lambda>i. i \<noteq> stream_id) (mg_tasks self)\<rparr>)) (Ret True)
       else Ret False))"

definition finish_run :: "manager_env \<Rightarrow> string \<Rightarrow> (manager, unit) prog" where
  "finish_run env stream_id =
     bind (task_done (runner_task stream_id)) (\<lambda>ended.
     andthen (if \<not> ended then andthen (unit_call (Cancel_Task (runner_task stream_id))) (join_quietly (runner_task stream_id))
              else skip)
    (andthen (unit_call (Cancel_Task (watcher_task stream_id)))
    (andthen (join_quietly (watcher_task stream_id))
    (bind (forget_task env stream_id) (\<lambda>removed.
     if removed then emit (Gauge_Dec ''active_streams'' []) else skip)))))"

definition run_stream :: "manager_env \<Rightarrow> string \<Rightarrow> (manager, unit) prog" where
  "run_stream env stream_id =
     finally_do
       (bind (attempt (watch_runner env stream_id)) (\<lambda>r. case r of
          Inr _ \<Rightarrow> skip | Inl e \<Rightarrow> handle_run_exception env stream_id e))
       (finish_run env stream_id)"

subsection \<open>Stopping\<close>

text \<open>\<^verbatim>\<open>await task\<close> is the parameter \<open>join\<close>. Among the programs that interleave, \<open>stop_stream\<close> joins the
  stream's task as a program of its own. Alone, the call waits while the cancelled task runs its handlers:
  \<open>ending_task\<close> is what \<open>run_stream\<close> does from the \<^verbatim>\<open>CancelledError\<close> at its wait on.\<close>

definition stop_stream_with :: "(string \<Rightarrow> (manager, unit) prog) \<Rightarrow> manager_env \<Rightarrow> string \<Rightarrow> (manager, unit) prog" where
  "stop_stream_with join env stream_id =
     andthen (request_stop (me_db env) stream_id)
    (bind (with_lock env (bind get_local (\<lambda>self.
       if stream_id \<notin> set (mg_tasks self) then Ret False
       else andthen (unit_call (Cancel_Task (''stream-'' @ stream_id))) (Ret True)))) (\<lambda>local.
     if local then except is_cancelled (join stream_id) (\<lambda>_. skip) else skip))"

definition join_task :: "string \<Rightarrow> ('l, unit) prog" where
  "join_task stream_id = unit_call (Join_Task (''stream-'' @ stream_id))"

definition stop_stream :: "manager_env \<Rightarrow> string \<Rightarrow> (manager, unit) prog" where
  "stop_stream env stream_id = stop_stream_with join_task env stream_id"

definition ending_task :: "manager_env \<Rightarrow> string \<Rightarrow> (manager, unit) prog" where
  "ending_task env stream_id =
     finally_do (handle_run_exception env stream_id cancelled_error) (finish_run env stream_id)"

definition stop_all :: "manager_env \<Rightarrow> (manager, unit) prog" where
  "stop_all env =
     andthen (modify_local (\<lambda>self. self\<lparr>mg_shutting_down := True\<rparr>))
    (andthen (stop_reconciliation env)
    (bind (with_lock env (bind get_local (\<lambda>self. Ret (map (\<lambda>sid. ''stream-'' @ sid) (mg_tasks self))))) (\<lambda>tasks.
     andthen (for_each tasks (\<lambda>task. unit_call (Cancel_Task task)))
       (if tasks \<noteq> [] then unit_call (Gather tasks) else skip))))"

end
