(* ===== verification/Manager_Spec.thy ===== *)
theory Manager_Spec
  imports Manager Worker_Lease
begin

section \<open>What the manager's operations do\<close>

text \<open>
  The weakest preconditions of the manager's operations, alone on their event loop: what each
  leaves in the map of local tasks, in the registry and in the lock.
\<close>

lemmas manager_defs = is_running_locally_def lifecycle_def lease_held_def give_back_def join_quietly_def

lemma wp_modify: "wp (modify_local f) Q = (\<lambda>l. Q (Inr ()) (f l))"
  by (simp add: fun_eq_iff wp_basic)

lemma wp_with_lock:
  assumes "\<not> mg_busy l" and "0 < me_rounds env"
  shows "wp (with_lock env p) Q l v =
     wp p (\<lambda>r l' v'. Q r (l'\<lparr>mg_busy := False\<rparr>) v') (l\<lparr>mg_busy := True\<rparr>) v"
proof -
  obtain n where "me_rounds env = Suc n" using assms(2) by (cases "me_rounds env") simp
  with assms(1) show ?thesis
    by (simp add: with_lock_def release_mutex_def wp_andthen wp_bind wp_finally wp_basic(3) wp_modify cong: sum.case_cong)
qed

lemma not_busy [simp]: "\<not> mg_busy l \<Longrightarrow> l\<lparr>mg_busy := False\<rparr> = l"
  by (cases l) simp

lemma wp_is_running:
  "\<not> mg_busy l \<Longrightarrow> 0 < me_rounds env \<Longrightarrow>
     wp (is_running_locally env i) Q l v = Q (Inr (i \<in> set (mg_tasks l))) l v"
  by (simp add: is_running_locally_def wp_with_lock wp_rules)

subsection \<open>The registry's methods leave the manager alone\<close>

lemma mild_readings [mild_rules]:
  "mild T (as_text x)" "mild T (as_ok x)" "mild T (as_hash x)"
  "mild T (as_hashes x)" "mild T (as_members x)" "mild T (as_list x)" "mild T (as_int x)"
  by (auto simp: as_text_def as_ok_def as_hash_def as_hashes_def as_members_def as_list_def as_int_def
      intro!: mild_rules split: rreply.split)

lemma mild_service_calls [mild_rules]:
  "mild T (redis_get k)" "mild T (redis_hget k f)" "mild T (redis_exists k)" "mild T (redis_setnx k x ex)"
  "mild T (redis_hgetall k)" "mild T (redis_hgetalls ks)" "mild T (redis_smembers k)" "mild T (redis_do c)"
  "mild T uuid4" "mild T (pg_transaction q)" "mild T (persist db q)"
  unfolding redis_get_def redis_hget_def redis_exists_def redis_setnx_def redis_hgetall_def redis_hgetalls_def
    redis_smembers_def redis_do_def uuid4_def pg_transaction_def persist_def
  by (intro mild_rules; auto intro: mild_rules split: sum.split reply.split)+

lemma mild_option [mild_rules]:
  "(x = None \<Longrightarrow> mild T p) \<Longrightarrow> (\<And>y. x = Some y \<Longrightarrow> mild T (f y)) \<Longrightarrow>
     mild T (case x of None \<Rightarrow> p | Some y \<Rightarrow> f y)"
  "(\<And>y z. t = (y, z) \<Longrightarrow> mild T (g y z)) \<Longrightarrow> mild T (case t of (y, z) \<Rightarrow> g y z)"
  "(\<And>y. y = d \<Longrightarrow> mild T (h y)) \<Longrightarrow> mild T (let y = d in h y)"
  by (auto split: option.split prod.split)

lemma mild_registry [mild_rules]:
  "mild T (create_stream db sub cfg inst)" "mild T (get_stream i)" "mild T list_streams"
  "mild T (update_status db i st inst)" "mild T (update_status_if_owner db i st own)"
  "mild T (finalize_stop_if_unowned db i sub' up)" "mild T (request_stop db i)"
  "mild T (is_stop_requested i)" "mild T (delete_stream i est eup purge)"
  unfolding registry_defs
  by (intro mild_rules)+

lemma wp_local: "mild (=) p \<Longrightarrow> wp p (\<lambda>r _. Q r) l v \<Longrightarrow> wp p (\<lambda>r l' v'. l' = l \<and> Q r v') l v"
  by (simp add: wp_conj mild_wp)

subsection \<open>Starting a stream\<close>

text \<open>Whether the lease is the caller's when it has to be.\<close>

definition waited :: "rdb \<Rightarrow> rdb \<Rightarrow> bool" where
  "waited s s' = (s' = s \<or> passed s s')"

lemma waited_sound: "waited s s' \<Longrightarrow> sound s \<Longrightarrow> sound s'"
  by (auto simp: waited_def passed_def)

definition covered :: "manager_env \<Rightarrow> string \<Rightarrow> string option \<Rightarrow> rdb \<Rightarrow> bool" where
  "covered env sub tok s = (me_lock_manager env \<and> truthy tok \<longrightarrow> holder s sub = tok)"

lemma wp_lease_held:
  "wp (lease_held env sub tok)
     (\<lambda>r l' v'. l' = l \<and> waited (rdb v) (rdb v') \<and> (\<forall>b. r = Inr b \<longrightarrow> b = covered env sub tok (rdb v'))) l v"
proof (cases "me_lock_manager env \<and> truthy tok")
  case True
  then obtain t where "tok = Some t" by (cases tok) auto
  with True show ?thesis
    by (auto simp: lease_held_def covered_def checked_def waited_def intro!: wp_mono [OF wp_owns_lock] split: sum.splits)
next
  case False
  then show ?thesis by (auto simp: lease_held_def covered_def waited_def)
qed

lemma status_written_after [simp]:
  "sound s' \<Longrightarrow> status_written i st n s (at_time t s') = status_written i st n s s'"
  by (simp add: status_written_def)

lemma status_written_waited:
  "waited s1 s2 \<Longrightarrow> sound s1 \<Longrightarrow> status_written i st n s s1 \<Longrightarrow> status_written i st n s s2"
  "waited s1 s2 \<Longrightarrow> sound s1 \<Longrightarrow> status_written i st n s2 s \<Longrightarrow> status_written i st n s1 s"
  by (auto simp: waited_def passed_def)

text \<open>A worker that was started: it was not local before and is now, the registry names the
  instance as the owner of the active stream, and the lease is still held.\<close>

definition activated :: "manager_env \<Rightarrow> string \<Rightarrow> string \<Rightarrow> string option \<Rightarrow> manager \<Rightarrow> rdb \<Rightarrow> manager \<Rightarrow> rdb \<Rightarrow> bool" where
  "activated env i sub tok l s l' s' =
     (\<not> mg_shutting_down l \<and> i \<notin> set (mg_tasks l) \<and> l' = l\<lparr>mg_tasks := mg_tasks l @ [i]\<rparr> \<and> sound s' \<and>
      status_written i ''active'' (Some (me_instance_id env)) s s' \<and> covered env sub tok s')"

definition start_outcome :: "manager_env \<Rightarrow> string \<Rightarrow> string \<Rightarrow> string option \<Rightarrow> manager \<Rightarrow> view \<Rightarrow> pyexn + bool \<Rightarrow> manager \<Rightarrow> view \<Rightarrow> bool" where
  "start_outcome env i sub tok l v r l' v' =
     (sound (rdb v') \<and> (if r = Inr True then activated env i sub tok l (rdb v) l' (rdb v') else l' = l))"

lemma not_started: "sound (rdb v') \<Longrightarrow> r \<noteq> Inr True \<Longrightarrow> start_outcome env i sub tok l v r l v'"
  by (simp add: start_outcome_def)

lemma wp_start_local_worker:
  assumes "\<not> mg_busy l" and "0 < me_rounds env" and "sound (rdb v)"
  shows "wp (start_local_worker env i sub tok tr) (\<lambda>r l' v'. start_outcome env i sub tok l v r l' v') l v"
proof -
  let ?l = "l\<lparr>mg_busy := True\<rparr>" and ?Q = "\<lambda>r l' v'. start_outcome env i sub tok l v r (l'\<lparr>mg_busy := False\<rparr>) v'"
  have check: "wp (bind (lease_held env sub tok) (\<lambda>owned. if \<not> owned then Ret False else f)) ?Q ?l v1"
    if "sound (rdb v1)"
      "\<And>v2. waited (rdb v1) (rdb v2) \<Longrightarrow> covered env sub tok (rdb v2) \<Longrightarrow> wp f ?Q ?l v2"
    for f and v1
    using that assms(1)
    by (intro wp_seq [OF wp_lease_held]) (auto simp: start_outcome_def waited_sound)
  let ?note_active = "update_status (me_db env) i ''active'' (Some (me_instance_id env))"
    and ?run = "andthen (modify_local (\<lambda>self. self\<lparr>mg_tasks := mg_tasks self @ [i]\<rparr>)) (Ret True)"
  have run: "wp ?run ?Q ?l v2"
    if "sound (rdb v2)" "status_written i ''active'' (Some (me_instance_id env)) (rdb v) (rdb v2)"
      "covered env sub tok (rdb v2)" "\<not> mg_shutting_down l" "i \<notin> set (mg_tasks l)" for v2
    using that assms by (simp add: wp_rules start_outcome_def activated_def)
  have recording: "wp (andthen ?note_active (bind (lease_held env sub tok) (\<lambda>owned. if \<not> owned then Ret False else ?run))) ?Q ?l v1"
    if "waited (rdb v) (rdb v1)" "\<not> mg_shutting_down l" "i \<notin> set (mg_tasks l)" for v1
    using that assms
    by (intro wp_seq_andthen [OF wp_local [OF mild_registry(4) wp_update_status]])
       (auto simp: waited_sound not_started intro: status_written_waited waited_sound intro!: check run)
  have body: "wp (bind get_local (\<lambda>self.
        if mg_shutting_down self \<or> i \<in> set (mg_tasks self) then Ret False
        else bind (lease_held env sub tok) (\<lambda>owned. if \<not> owned then Ret False else
            andthen ?note_active (bind (lease_held env sub tok) (\<lambda>owned. if \<not> owned then Ret False else ?run))))) ?Q ?l v"
    using assms check [OF assms(3) recording]
    by (simp add: wp_bind [where p = get_local] wp_basic) (simp add: start_outcome_def)
  show ?thesis
    unfolding start_local_worker_def wp_bind [where p = "with_lock env p" for p] wp_with_lock [OF assms(1,2)]
    using body by (rule wp_mono) (auto simp: start_outcome_def lifecycle_def wp_rules split: sum.splits)
qed

definition activation_keys :: "string \<Rightarrow> string set" where
  "activation_keys i = insert (meta_key i) (range instance_key)"

lemma frame_lock_reads [keeps_rules]:
  "keeps (frame K s) (owns_lock sub tok)" "keeps (frame K s) (is_locked sub)"
  "lock_key sub \<in> K \<Longrightarrow> keeps (frame K s) (acquire_lock sub inst ttl)"
  "lock_key sub \<in> K \<Longrightarrow> keeps (frame K s) (release_lock sub tok)"
  unfolding lock_defs by (intro keeps_rules; simp)+

lemma frame_release_mutex [keeps_rules]: "keeps (frame K s) release_mutex"
  unfolding release_mutex_def by (intro keeps_rules)

lemma frame_mutex [keeps_rules]: "keeps (frame K s) (acquire_mutex n)"
proof (induction n)
  case (Suc n)
  then show ?case by (auto intro!: keeps_rules)
qed (simp add: keeps_rules)

lemma frame_with_lock [keeps_rules]: "keeps (frame K s) p \<Longrightarrow> keeps (frame K s) (with_lock env p)"
  unfolding with_lock_def by (intro keeps_rules)

lemma frame_start_local_worker:
  "keeps (frame (activation_keys i) s) (start_local_worker env i sub tok tr)"
  unfolding start_local_worker_def lease_held_def lifecycle_def activation_keys_def
  by (intro keeps_rules frame_update_status)

lemma wp_start_framed:
  assumes "\<not> mg_busy l" and "0 < me_rounds env" and "sound (rdb v)"
  shows "wp (start_local_worker env i sub tok tr)
     (\<lambda>r l' v'. start_outcome env i sub tok l v r l' v' \<and> frame (activation_keys i) (rdb v) v') l v"
  by (rule keeps_wp [OF frame_start_local_worker frame_refl wp_start_local_worker [OF assms]])

lemma wp_give_back:
  "wp (give_back env sub tok) (\<lambda>r l' v'. l' = l) l v"
  unfolding give_back_def release_lock_def count_lock_error_def lock_metric_def
  by (intro mild_wp mild_rules)

lemma uuids_grow: "keeps (\<lambda>v. U \<subseteq> set (uuids v)) p"
proof (rule issues_keeps [where P = "\<lambda>_. True"])
  show "issues (\<lambda>_. True) p" by (induction p) auto
  have "U \<subseteq> set (uuids v')" if "U \<subseteq> set (uuids v)" "documented c v r v'" for c v r v'
    using that by (cases c; cases r) auto
  then show "stable (\<lambda>_. True) (\<lambda>v. U \<subseteq> set (uuids v))"
    by (auto simp: stable_def)
qed

text \<open>A token of this call, where there is a lock manager.\<close>

definition new_token :: "manager_env \<Rightarrow> string list \<Rightarrow> string option \<Rightarrow> bool" where
  "new_token env us tok = (if me_lock_manager env then \<exists>u. u \<notin> set us \<and> tok = Some (me_instance_id env @ '':'' @ u) else tok = None)"

lemma sound_acquired: "acquired sub inst ttl v r v' \<Longrightarrow> sound (rdb v) \<Longrightarrow> sound (rdb v')"
  by (cases r rule: sum.exhaust [case_product option.exhaust [of "projr r"]])
     (auto simp: acquired_def Let_def grant_lease_def passed_def)

lemma acquired_token: "acquired sub inst ttl v (Inr (Some tok)) v' \<Longrightarrow> \<exists>u. u \<notin> set (uuids v) \<and> tok = inst @ CHR '':'' # u"
  by (auto simp: acquired_def Let_def)

lemma wp_take_lease:
  assumes "sound (rdb v)"
  shows "wp (take_lease env sub meta) (\<lambda>r l' v'. l' = l \<and> (\<forall>tok. r = Inr tok \<longrightarrow>
     sound (rdb v') \<and> frame {lock_key sub} (rdb v) v' \<and> new_token env (uuids v) tok)) l v"
proof (cases "me_lock_manager env")
  case True
  have contended: "wp (bind (delete_stream i st up b) (\<lambda>_. andthen (lifecycle x y) (Raise e))) (\<lambda>r l' v'. l' = l \<and> (\<forall>tok. r = Inr tok \<longrightarrow>
     sound (rdb v') \<and> frame {lock_key sub} (rdb v) v' \<and> new_token env (uuids v) tok)) l v1" for i st up b x y e v1
    unfolding wp_bind by (rule wp_mono [OF mild_wp [OF mild_registry(9)]]) (auto simp: lifecycle_def wp_rules split: sum.split)
  with True assms show ?thesis
    unfolding take_lease_def
    by (auto simp: new_token_def sound_acquired dest!: acquired_token
        intro!: wp_seq [OF keeps_wp [OF frame_lock_reads(3) frame_refl wp_acquire_lock]] contended)
next
  case False
  with assms show ?thesis by (simp add: take_lease_def new_token_def)
qed


text \<open>What a started stream looks like in the manager, the registry and the lock.\<close>

definition running :: "manager_env \<Rightarrow> string \<Rightarrow> string \<Rightarrow> string list \<Rightarrow> manager \<Rightarrow> manager \<Rightarrow> rdb \<Rightarrow> bool" where
  "running env i sub us l l' s' =
     (\<not> mg_shutting_down l \<and> i \<notin> set (mg_tasks l) \<and> l' = l\<lparr>mg_tasks := mg_tasks l @ [i]\<rparr> \<and>
      meta_status s' i = Some ''active'' \<and> meta_owner s' i = Some (me_instance_id env) \<and>
      (me_lock_manager env \<longrightarrow> (\<exists>u. u \<notin> set us \<and> holder s' sub = Some (me_instance_id env @ '':'' @ u))))"

lemma status_written_read:
  "status_written i st (Some n) s s' \<Longrightarrow> meta_status s' i = Some st \<and> meta_owner s' i = Some n"
  by (auto simp: status_written_def meta_status_def meta_owner_def)

lemma activated_running:
  "activated env i sub tok l s l' s' \<Longrightarrow> new_token env us tok \<Longrightarrow> running env i sub us l l' s'"
  by (auto simp: activated_def running_def new_token_def covered_def dest: status_written_read split: if_splits)

lemma claim_framed:
  "sound s \<Longrightarrow> frame K s v \<Longrightarrow> subreddit_key sub \<notin> K \<Longrightarrow> claim (rdb v) sub = claim s sub"
  by (auto simp: frame_def framed_def claim_def str_at_def untouched_def)

lemma wp_activate:
  assumes "\<not> mg_busy l" and "0 < me_rounds env" and "sound (rdb v)" and "new_token env us tok"
  shows "wp (activate env sub meta tok) (\<lambda>r l' v'. case r of
       Inl e \<Rightarrow> l' = l
     | Inr x \<Rightarrow> x = meta \<and> running env (stream_id_of meta) sub us l l' (rdb v') \<and> claim (rdb v') sub = claim (rdb v) sub) l v"
proof -
  have undone: "wp (andthen (give_back env sub tok) (Raise e)) (\<lambda>r l' v'. case r of Inl e \<Rightarrow> l' = l | Inr x \<Rightarrow> Q x l' v') l v1" for e Q v1
    unfolding wp_andthen by (rule wp_mono [OF wp_give_back]) (auto split: sum.split)
  let ?R = "\<lambda>r l' v'. case r of Inl e \<Rightarrow> l' = l
     | Inr b \<Rightarrow> start_outcome env (stream_id_of meta) sub tok l v (Inr b) l' v' \<and> frame (activation_keys (stream_id_of meta)) (rdb v) v'"
  have start: "wp (except is_exception (start_local_worker env (stream_id_of meta) sub tok ''start'')
      (\<lambda>e. andthen (give_back env sub tok) (Raise e))) ?R l v"
    unfolding wp_except
  proof (rule wp_mono [OF wp_start_framed [OF assms(1-3)]], goal_cases)
    case (1 r l' v')
    show ?case
    proof (cases r)
      case (Inl e)
      with 1 have "l' = l" by (simp add: start_outcome_def)
      then show ?thesis
        unfolding Inl sum.case by (cases "is_exception e") (simp_all only: if_True if_False undone)
    next
      case (Inr b)
      with 1 show ?thesis by simp
    qed
  qed
  have K: "subreddit_key sub \<notin> activation_keys i" for i by (auto simp: activation_keys_def)
  have started: "running env (stream_id_of meta) sub us l l' (rdb v') \<and> claim (rdb v') sub = claim (rdb v) sub"
    if "?R (Inr True) l' v'" for l' v'
    using that assms(4) claim_framed [OF assms(3) _ K, of _ v'] by (auto simp: start_outcome_def activated_running)
  show ?thesis
    unfolding activate_def Let_def stream_id_of_def [symmetric]
  proof (rule wp_seq [OF start])
    fix b l' v'
    assume r: "?R (Inr b) l' v'"
    show "wp (if \<not> b then andthen (give_back env sub tok) (Raise (runtime_error (''Stream '' @ stream_id_of meta @
           '' could not be activated safely; lease ownership was lost or this instance is shutting down'')))
         else Ret meta) (\<lambda>r l' v'. case r of
       Inl e \<Rightarrow> l' = l
     | Inr x \<Rightarrow> x = meta \<and> running env (stream_id_of meta) sub us l l' (rdb v') \<and> claim (rdb v') sub = claim (rdb v) sub) l' v'"
      using r started [of l' v'] undone by (cases b) (simp_all add: start_outcome_def)
  qed simp
qed


definition stream_started :: "manager_env \<Rightarrow> string \<Rightarrow> manager \<Rightarrow> view \<Rightarrow> pyexn + dict \<Rightarrow> manager \<Rightarrow> view \<Rightarrow> bool" where
  "stream_started env sub l v r l' v' =
     (case r of
        Inl e \<Rightarrow> l' = l
      | Inr meta \<Rightarrow> running env (stream_id_of meta) sub (uuids v) l l' (rdb v') \<and>
          claim (rdb v) sub = None \<and> claim (rdb v') sub = Some (stream_id_of meta))"

lemma stream_started_Inl: "stream_started env sub l v (Inl e) l v'"
  by (simp add: stream_started_def)

lemma new_token_mono: "new_token env us tok \<Longrightarrow> set us' \<subseteq> set us \<Longrightarrow> new_token env us' tok"
  by (auto simp: new_token_def split: if_splits)

lemma wp_start_stream:
  assumes "\<not> mg_busy l" and "0 < me_rounds env" and "sound (rdb v)"
  shows "wp (start_stream env sub cfg) (\<lambda>r l' v'. stream_started env sub l v r l' v') l v"
proof -
  have lease: "wp (bind (take_lease env sub meta) (activate env sub meta)) (\<lambda>r l' v'. stream_started env sub l v r l' v') l v1"
    if c: "sound (rdb v1)" "created sub cfg (Some (me_instance_id env)) v meta v1" "set (uuids v) \<subseteq> set (uuids v1)" for meta v1
  proof (rule wp_seq [OF wp_take_lease [OF c(1)]])
    fix tok l2 v2
    assume "l2 = l \<and> (\<forall>tok'. Inr tok = Inr tok' \<longrightarrow>
       sound (rdb v2) \<and> frame {lock_key sub} (rdb v1) v2 \<and> new_token env (uuids v1) tok')"
    then have t: "l2 = l" "sound (rdb v2)" "frame {lock_key sub} (rdb v1) v2" "new_token env (uuids v) tok"
      using new_token_mono [OF _ c(3)] by auto
    have cl: "claim (rdb v2) sub = Some (stream_id_of meta)" "claim (rdb v) sub = None"
      using claim_framed [OF c(1) t(3), of sub] c(2) by (simp_all add: created_def Let_def)
    show "wp (activate env sub meta tok) (\<lambda>r l' v'. stream_started env sub l v r l' v') l2 v2"
      unfolding t(1)
      by (rule wp_mono [OF wp_activate [OF assms(1,2) t(2,4)]]) (simp add: stream_started_def cl split: sum.splits)
  qed (simp add: stream_started_def)
  show ?thesis
    unfolding start_stream_def
    by (rule wp_seq [OF wp_local [OF mild_registry(1) keeps_wp [OF uuids_grow order_refl wp_create_stream [OF assms(3)]]]])
       (auto intro: lease simp: stream_started_Inl)
qed

subsection \<open>Adopting a stream\<close>

definition runnable :: "rdb \<Rightarrow> string \<Rightarrow> bool" where
  "runnable s i = (meta_status s i = Some ''active'' \<or> meta_status s i = Some ''starting'')"

text \<open>A stream another instance lost: it was runnable when read under the new lease.\<close>

definition adopted :: "manager_env \<Rightarrow> string \<Rightarrow> string \<Rightarrow> string \<Rightarrow> manager \<Rightarrow> view \<Rightarrow> pyexn + bool \<Rightarrow> manager \<Rightarrow> view \<Rightarrow> bool" where
  "adopted env i sub tok l v r l' v' =
     (if r = Inr True
      then runnable (rdb v) i \<and> running env i sub [] l l' (rdb v') \<and> holder (rdb v') sub = Some tok
      else l' = l \<and> (r = Inr False \<longrightarrow> holder (rdb v') sub \<noteq> Some tok))"

lemma wp_release_after:
  assumes "sound (rdb v)"
  shows "wp (bind (release_lock sub tok) (\<lambda>_. skip)) (\<lambda>r l' v'. l' = l \<and> (r = Inr () \<longrightarrow> holder (rdb v') sub \<noteq> Some tok)) l v"
proof -
  have "holder (drop_lease sub tok s) sub \<noteq> Some tok" for s
    by (auto simp: drop_lease_def holder_def)
  then show ?thesis
    by (intro wp_seq [OF wp_release_lock]) (auto simp: released_def Let_def wp_basic)
qed

lemma wp_get_row:
  "sound (rdb v) \<Longrightarrow> wp (get_stream i) (\<lambda>r l' v'. l' = l \<and> passed (rdb v) (rdb v') \<and> sound (rdb v') \<and>
     (\<forall>d. r = Inr d \<longrightarrow> dict_get (sd_fields d) ''status'' = meta_status (rdb v) i)) l v"
  by (rule wp_local [OF mild_registry(2) wp_mono [OF wp_get_stream]]) (auto simp: meta_status_def)

lemma wp_stop_requested:
  "wp (is_stop_requested i) (\<lambda>r l' v'. l' = l \<and> passed (rdb v) (rdb v') \<and>
     (\<forall>b. r = Inr b \<longrightarrow> b = stop_asked (rdb v') i)) l v"
  by (rule wp_local [OF mild_registry(8)]) (auto simp: is_stop_requested_def wp_rules stop_asked_def)

lemma meta_status_waited: "passed s s' \<Longrightarrow> sound s \<Longrightarrow> meta_status s' = meta_status s \<and> sound s'"
  by (auto simp: passed_def)

definition rerun :: "manager_env \<Rightarrow> string \<Rightarrow> string \<Rightarrow> string \<Rightarrow> manager \<Rightarrow> view \<Rightarrow> pyexn + bool \<Rightarrow> manager \<Rightarrow> view \<Rightarrow> bool" where
  "rerun env i sub tok l v r l' v' = (sound (rdb v') \<and> (if r = Inr True
     then runnable (rdb v) i \<and> (\<exists>s. activated env i sub (Some tok) l s l' (rdb v')) else l' = l))"

lemma not_rerun [simp]: "r \<noteq> Inr True \<Longrightarrow> rerun env i sub tok l v r l v' = sound (rdb v')"
  by (simp add: rerun_def)

lemma wp_adopt_body:
  assumes "\<not> mg_busy l" and "0 < me_rounds env" and "sound (rdb v)"
  shows "wp (bind (get_stream i) (\<lambda>current.
        if dict_get (sd_fields current) ''status'' \<notin> {Some ''active'', Some ''starting''} then Ret False
        else bind (is_stop_requested i) (\<lambda>stop.
          if stop then Ret False else start_local_worker env i sub (Some tok) tr)))
     (\<lambda>r l' v'. rerun env i sub tok l v r l' v') l v"
proof -
  let ?Q = "\<lambda>r l' v'. rerun env i sub tok l v r l' v'"
  have start: "wp (start_local_worker env i sub (Some tok) tr) ?Q l v2"
    if "sound (rdb v2)" "runnable (rdb v) i" for v2
    by (rule wp_mono [OF wp_start_local_worker [OF assms(1,2) that(1)]]) (use that(2) in \<open>auto simp: start_outcome_def rerun_def split: if_splits\<close>)
  have stop: "wp (bind (is_stop_requested i) (\<lambda>stop. if stop then Ret False else start_local_worker env i sub (Some tok) tr)) ?Q l v1"
    if "sound (rdb v1)" "runnable (rdb v) i" for v1
    using that(1) by (intro wp_seq [OF wp_stop_requested]) (auto simp: meta_status_waited that(2) intro!: start)
  show ?thesis
    using assms(3) by (intro wp_seq [OF wp_get_row]) (auto intro!: stop simp: runnable_def)
qed

lemma wp_adopt:
  assumes "\<not> mg_busy l" and "0 < me_rounds env" and "sound (rdb v)" and "i \<notin> set (mg_tasks l)"
    and "me_lock_manager env" and "\<exists>u. tok = me_instance_id env @ '':'' @ u"
  shows "wp (adopt env i sub tok) (\<lambda>r l' v'. adopted env i sub tok l v r l' v') l v"
proof -
  have gone: "wp (bind (is_running_locally env i) (\<lambda>running. if \<not> running then bind (release_lock sub tok) (\<lambda>_. skip) else skip))
      (\<lambda>r' l' v'. case r' of Inl e \<Rightarrow> adopted env i sub tok l v (Inl e) l' v' | Inr _ \<Rightarrow> adopted env i sub tok l v r l' v') l1 v1"
    if "rerun env i sub tok l v r l1 v1" for r l1 v1
  proof (cases "r = Inr True")
    case True
    with that obtain s where a: "activated env i sub (Some tok) l s l1 (rdb v1)"
      "runnable (rdb v) i" by (auto simp: rerun_def)
    then have l1: "\<not> mg_busy l1" "i \<in> set (mg_tasks l1)" using assms(1) by (auto simp: activated_def)
    have "adopted env i sub tok l v r l1 v1"
      using a assms(5,6) activated_running [OF a(1), of "[]"] True
      by (auto simp: adopted_def new_token_def activated_def covered_def truthy_eq)
    with l1 assms(2) show ?thesis by (simp add: wp_bind [where p = "is_running_locally env i"] wp_is_running wp_basic)
  next
    case False
    with that have l1: "l1 = l" "sound (rdb v1)" by (auto simp: rerun_def)
    show ?thesis
      unfolding wp_bind [where p = "is_running_locally env i"] l1(1) wp_is_running [OF assms(1,2)] using assms(4)
      by (auto intro!: wp_mono [OF wp_release_after [OF l1(2)]] simp: adopted_def False split: sum.splits)
  qed
  show ?thesis
    unfolding adopt_def wp_finally
    by (rule wp_mono [OF wp_adopt_body [OF assms(1-3)]]) (rule gone)
qed


lemma issues_with_lock [keeps_rules]:
  assumes "\<And>ms. P (Sleep ms)" and "issues P p"
  shows "issues P (with_lock env p)"
proof -
  have "issues P (acquire_mutex n)" for n
    using assms(1) by (induction n) (auto intro!: keeps_rules)
  with assms(2) show ?thesis unfolding with_lock_def release_mutex_def by (intro keeps_rules)
qed

text \<open>The lock is free or under the token; only its release may change that.\<close>

fun settled_call :: "string \<Rightarrow> string \<Rightarrow> call \<Rightarrow> bool" where
  "settled_call sub tok (Redis c) = (lock_key sub \<notin> writes c \<or> c = Eval (Delete_If_Owner (lock_key sub) tok))"
| "settled_call sub tok _ = True"

definition at_most_token :: "string \<Rightarrow> string \<Rightarrow> view \<Rightarrow> bool" where
  "at_most_token sub tok v = (holder (rdb v) sub = None \<or> holder (rdb v) sub = Some tok)"

lemma stable_settled: "stable (settled_call sub tok) (at_most_token sub tok)"
proof -
  have time: "at_most_token sub tok (later t v)" if "at_most_token sub tok v" for t v
    using that by (simp add: at_most_token_def holder_at_time)
  have effect: "at_most_token sub tok (with_rdb (redis_effect c) v)"
    if "at_most_token sub tok v" "settled_call sub tok (Redis c)" for c v
  proof (cases "lock_key sub \<in> writes c")
    case False
    from writes_only [OF this, of "rdb v"] that(1) show ?thesis
      by (simp add: at_most_token_def holder_def str_at_def agrees_at_def)
  next
    case True
    with that show ?thesis by (auto simp: at_most_token_def drop_lease_def holder_def)
  qed
  have "at_most_token sub tok v'" if "settled_call sub tok c" "at_most_token sub tok v" "documented c v r v'" for c v r v'
  proof (cases c)
    case (Redis c')
    with that(3) obtain t where "v' = later t v \<or> v' = with_rdb (redis_effect c') (later t v)"
      by (cases r) (auto simp: later_def with_rdb_def)
    then show ?thesis using time [OF that(2)] effect that(1) Redis by auto
  qed (use that in \<open>cases r; auto simp: at_most_token_def\<close>)+
  then show ?thesis by (auto simp: stable_def at_most_token_def)
qed

lemma settled_adopt: "issues (settled_call sub tok) (adopt env i sub tok)"
  unfolding adopt_def start_local_worker_def manager_defs get_stream_def is_stop_requested_def update_status_def lock_defs
  by (intro keeps_rules) auto

definition fades :: "string \<Rightarrow> rdb \<Rightarrow> rdb \<Rightarrow> bool" where
  "fades sub s s' = (holder s' sub = None \<or> holder s' sub = holder s sub)"

lemma fades_refl [simp]: "fades sub s s"
  by (simp add: fades_def)

lemma fades_rules: "passed s s' \<Longrightarrow> fades sub s s'" "fades sub s s' \<Longrightarrow> fades sub s' s'' \<Longrightarrow> fades sub s s''"
  by (auto simp: fades_def passed_def holder_at_time)

text \<open>When nothing is adopted, no lease is left behind: the lock is free or as it was.\<close>

definition resumed :: "manager_env \<Rightarrow> string \<Rightarrow> string \<Rightarrow> manager \<Rightarrow> view \<Rightarrow> pyexn + bool \<Rightarrow> manager \<Rightarrow> view \<Rightarrow> bool" where
  "resumed env i sub l v r l' v' =
     (if r = Inr True
      then runnable (rdb v) i \<and> running env i sub (uuids v) l l' (rdb v')
      else l' = l \<and> (r = Inr False \<longrightarrow> fades sub (rdb v) (rdb v')))"

lemma not_resumed [simp]:
  "r \<noteq> Inr True \<Longrightarrow> resumed env i sub l v r l v' = (r = Inr False \<longrightarrow> fades sub (rdb v) (rdb v'))"
  by (simp add: resumed_def)

lemma status_framed:
  "sound s \<Longrightarrow> frame K s v \<Longrightarrow> meta_key i \<notin> K \<Longrightarrow> meta_status (rdb v) i = meta_status s i"
  by (auto simp: frame_def framed_def meta_status_def meta_field_def hash_field_def hash_at_def untouched_def)

lemma wp_resume_stream:
  fixes meta defines "i \<equiv> or_empty (dict_get (sd_fields meta) ''id'')" and "sub \<equiv> or_empty (dict_get (sd_fields meta) ''subreddit'')"
  assumes "\<not> mg_busy l" and "0 < me_rounds env" and "sound (rdb v)"
  shows "wp (resume_stream env meta) (\<lambda>r l' v'. resumed env i sub l v r l' v') l v"
proof -
  let ?Q = "\<lambda>r l' v'. resumed env i sub l v r l' v'"
  have adopt: "wp (adopt env i sub tok) ?Q l v1"
    if "sound (rdb v1)" "runnable (rdb v1) i = runnable (rdb v) i" "at_most_token sub tok v1" "i \<notin> set (mg_tasks l)" "me_lock_manager env"
      "tok = me_instance_id env @ '':'' @ u" "u \<notin> set (uuids v)" for tok u v1
  proof (rule wp_mono [OF keeps_wp [OF issues_keeps [OF settled_adopt stable_settled] that(3) wp_adopt [OF assms(3,4) that(1,4,5)]]])
    show "\<exists>u. tok = me_instance_id env @ '':'' @ u" using that(6) by blast
    fix r l' v'
    assume "adopted env i sub tok l v1 r l' v' \<and> at_most_token sub tok v'"
    then show "?Q r l' v'"
      using that(2,5-7) by (auto simp: adopted_def resumed_def at_most_token_def fades_def running_def split: if_splits)
  qed
  have acquire: "wp (bind (acquire_lock sub (me_instance_id env) lease_ttl_seconds) (\<lambda>token. case token of
             None \<Rightarrow> andthen (lifecycle ''reconcile'' ''lock_contended'') (Ret False)
           | Some lock_token \<Rightarrow> adopt env i sub lock_token)) ?Q l v1"
    if v1: "passed (rdb v) (rdb v1)" "uuids v1 = uuids v" "i \<notin> set (mg_tasks l)" "me_lock_manager env" for v1
  proof (rule wp_seq [OF keeps_wp [OF frame_lock_reads(3) [OF singletonI] frame_refl wp_acquire_lock]])
    have s1: "sound (rdb v1)" "runnable (rdb v1) i = runnable (rdb v) i"
      using meta_status_waited [OF v1(1) assms(5)] by (simp_all add: runnable_def)
    fix x l2 v2
    assume "(l2 = l \<and> acquired sub (me_instance_id env) lease_ttl_seconds v1 (Inr x) v2) \<and> frame {lock_key sub} (rdb v1) v2"
    then have a: "l2 = l" "acquired sub (me_instance_id env) lease_ttl_seconds v1 (Inr x) v2" "frame {lock_key sub} (rdb v1) v2"
      by auto
    show "wp (case x of None \<Rightarrow> andthen (lifecycle ''reconcile'' ''lock_contended'') (Ret False)
           | Some lock_token \<Rightarrow> adopt env i sub lock_token) ?Q l2 v2"
    proof (cases x)
      case None
      with a(2) have "passed (rdb v1) (rdb v2)" by (auto simp: acquired_def Let_def)
      then have "fades sub (rdb v) (rdb v2)" using v1(1) by (blast intro: fades_rules)
      with None a(1) show ?thesis by (simp add: lifecycle_def wp_rules)
    next
      case (Some tok)
      with a(2) obtain u where u: "tok = me_instance_id env @ '':'' @ u" "u \<notin> set (uuids v)" "at_most_token sub tok v2"
        using v1(2) by (auto simp: acquired_def Let_def at_most_token_def grant_lease_def holder_def)
      have "runnable (rdb v2) i = runnable (rdb v) i"
        using status_framed [OF s1(1) a(3), of i] s1(2) by (simp add: runnable_def)
      with Some a(1) u sound_acquired [OF a(2) s1(1)] v1(3,4) show ?thesis by (auto intro: adopt)
    qed
  qed auto
  show ?thesis
    using assms(3,4) unfolding resume_stream_def i_def [symmetric] sub_def [symmetric] Let_def
    by (auto simp: wp_bind [where p = get_local] wp_bind [where p = "is_running_locally env i"] wp_is_running wp_basic
        intro!: wp_seq [OF wp_is_locked] acquire fades_rules(1))
qed

end
