(* ===== verification/Manager_Run.thy ===== *)
theory Manager_Run
  imports Manager_Spec
begin

section \<open>The life of a stream's task\<close>

text \<open>
  How \<^verbatim>\<open>StreamManager._run\<close> of src/stream/manager.py ends: what becomes of the stream's record and of the
  entry in the map of local tasks, for every way the runner and the stop watcher can end.
\<close>

lemma run_finally:
  "run S (finally_do p q) l w = (case run S p l w of (r, l1, w1) \<Rightarrow>
     case run S q l1 w1 of (Inl e, l2, w2) \<Rightarrow> (Inl e, l2, w2) | (Inr _, l2, w2) \<Rightarrow> (r, l2, w2))"
  by (induction p arbitrary: l w) (auto simp: run_bind split: prod.splits sum.splits)

lemma run_mild: "mild (=) p \<Longrightarrow> run S p l w = (r, l', w') \<Longrightarrow> l' = l"
proof -
  have "puts (=) p l \<Longrightarrow> run S p l w = (r, l', w') \<Longrightarrow> l' = l"
  proof (induction p arbitrary: l w)
    case (Call c k)
    obtain x w1 where "ask S c w = (x, w1)" by (cases "ask S c w")
    with Call.IH [OF rangeI, of x l w1] Call.prems show ?case by simp
  next
    case (Get_Local k)
    from Get_Local.IH [OF rangeI] Get_Local.prems show ?case by simp
  qed auto
  then show "mild (=) p \<Longrightarrow> run S p l w = (r, l', w') \<Longrightarrow> l' = l" by (simp add: mild_def)
qed

subsection \<open>How the wait for the runner and the watcher ends\<close>

fun raised_by :: "pyexn + reply \<Rightarrow> pyexn option" where
  "raised_by (Inl e) = Some e"
| "raised_by (Inr (Task_Reply (Runner_Raised e))) = Some e"
| "raised_by (Inr (Task_Reply (Watcher_Raised e))) = Some e"
| "raised_by _ = None"

lemma run_stream_raised:
  assumes "ask S (Wait_Tasks i) w = (a, w1)" and "raised_by a = Some e"
  shows "run S (run_stream env i) l w = run S (finally_do (handle_run_exception env i e) (finish_run env i)) l w1"
  using assms by (cases a rule: raised_by.cases)
    (simp_all add: run_stream_def watch_runner_def wait_tasks_def attempt_def andthen_def run_finally run_bind)

lemma mild_manager [mild_rules]:
  "mild T (unit_call c)" "mild T (task_done x)" "mild T (join_quietly x)" "mild T (lifecycle x y)"
  unfolding join_quietly_def lifecycle_def unit_call_def task_done_def
  by (intro mild_rules; auto intro!: mild_rules split: sum.split reply.split)+

lemma mild_handlers:
  "mild T (should_preserve_for_failover i)" "mild T (handle_runner_cancellation env i)"
  "mild T (handle_run_exception env i e)"
  unfolding handle_run_exception_def handle_runner_cancellation_def should_preserve_for_failover_def
  by (intro mild_rules)+

subsection \<open>The entry in the map of local tasks\<close>

definition forgotten :: "string \<Rightarrow> manager \<Rightarrow> manager" where
  "forgotten i l = l\<lparr>mg_tasks := filter (\<lambda>j. j \<noteq> i) (mg_tasks l)\<rparr>"

lemma forgotten_absent: "i \<notin> set (mg_tasks l) \<Longrightarrow> forgotten i l = l"
  by (cases l) (auto simp: forgotten_def intro!: filter_True)

lemma wp_forget_task:
  assumes "\<not> mg_busy l" and "0 < me_rounds env"
  shows "wp (forget_task env i) Q l v = Q (Inr (i \<in> set (mg_tasks l))) (forgotten i l) v"
proof (cases "i \<in> set (mg_tasks l)")
  case True
  with assms show ?thesis by (simp add: forget_task_def wp_with_lock wp_rules forgotten_def)
next
  case False
  with assms forgotten_absent [OF this] show ?thesis by (simp add: forget_task_def wp_with_lock wp_rules)
qed

text \<open>The end of a task: it fails only with what a joined task failed with, and then the entry
  stays.\<close>

lemma wp_finish_run:
  assumes "\<not> mg_busy l" and "0 < me_rounds env"
  shows "wp (finish_run env i) (\<lambda>r l' v'. rdb v' = rdb v \<and>
     (case r of Inr _ \<Rightarrow> l' = forgotten i l | Inl e \<Rightarrow> \<not> is_cancelled e \<and> l' = l)) l v"
proof -
  have tail: "wp (bind (forget_task env i) (\<lambda>removed. if removed then emit m else skip)) (\<lambda>r l' v'. rdb v' = rdb v \<and>
     (case r of Inr _ \<Rightarrow> l' = forgotten i l | Inl e \<Rightarrow> \<not> is_cancelled e \<and> l' = l)) l v1" if "rdb v1 = rdb v" for m v1
    using that by (simp add: wp_bind [where p = "forget_task env i"] wp_forget_task [OF assms] wp_basic)
  show ?thesis
    unfolding finish_run_def join_quietly_def
    by (auto simp: wp_bind [where p = "task_done x" for x] wp_andthen wp_except wp_timed_out wp_tasks wp_basic tail)
qed


subsection \<open>The stream's record\<close>

lemma frame_tasks [keeps_rules]:
  "keeps (frame K s) (unit_call (Cancel_Task x))" "keeps (frame K s) (join_quietly x)" "keeps (frame K s) get_local"
  by (simp_all add: keeps_def join_quietly_def wp_except wp_tasks wp_basic)

lemma frame_handle:
  "keeps (frame {meta_key i} s) (handle_run_exception env i e)"
  unfolding handle_run_exception_def handle_runner_cancellation_def should_preserve_for_failover_def lifecycle_def
    is_stop_requested_def update_status_if_owner_def
  by (intro keeps_rules) auto

text \<open>An exception that is left to another instance to act on: a lost lease, or the cancellation of
  a shutdown that no stop request precedes.\<close>

definition left_to_others :: "manager \<Rightarrow> rdb \<Rightarrow> string \<Rightarrow> pyexn \<Rightarrow> bool" where
  "left_to_others l s i e =
     (if is_cancelled e then mg_shutting_down l \<and> \<not> stop_asked s i else isinstance e [Lock_Lost_Error])"

lemma stop_asked_passed [simp]: "sound s \<Longrightarrow> stop_asked (at_time t s) i = stop_asked s i"
  by (simp add: stop_asked_def)

lemma wp_preserve:
  assumes "mg_shutting_down l" and "sound (rdb v)" and "\<not> stop_asked (rdb v) i"
  shows "wp (should_preserve_for_failover i) (\<lambda>r l' v'. frame {} (rdb v) v' \<and> r \<noteq> Inr False) l v"
  using assms by (auto simp: should_preserve_for_failover_def is_stop_requested_def wp_rules stop_asked_def)

lemma wp_left_to_others:
  assumes "left_to_others l (rdb v) i e" and "sound (rdb v)"
  shows "wp (handle_run_exception env i e) (\<lambda>r l' v'. frame {} (rdb v) v') l v"
proof (cases "is_cancelled e")
  case True
  with assms have pre: "mg_shutting_down l" "\<not> stop_asked (rdb v) i" by (auto simp: left_to_others_def)
  have drain: "wp (andthen (handle_runner_cancellation env i) (Raise e)) (\<lambda>r l' v'. frame {} (rdb v) v') l v"
    unfolding handle_runner_cancellation_def wp_andthen wp_bind [where p = "should_preserve_for_failover i"]
    by (rule wp_mono [OF wp_preserve [OF pre(1) assms(2) pre(2)]]) (auto simp: lifecycle_def wp_basic split: sum.splits)
  from True show ?thesis
    unfolding handle_run_exception_def join_quietly_def
    by (simp add: wp_andthen [where p = "unit_call x" for x] wp_andthen [where p = "except g p h" for g p h] wp_except wp_tasks wp_basic drain)
next
  case False
  with assms(1) show ?thesis by (simp add: left_to_others_def handle_run_exception_def lifecycle_def wp_rules)
qed


lemma wp_finally_forget:
  assumes "\<not> mg_busy l" and "0 < me_rounds env" and "mild (=) p" and "wp p (\<lambda>r _ v'. frame K s v') l v"
  shows "wp (finally_do p (finish_run env i))
     (\<lambda>r l' v'. frame K s v' \<and> ((\<exists>e. r = Inl e \<and> \<not> is_cancelled e) \<or> l' = forgotten i l)) l v"
  unfolding wp_finally
proof (rule wp_mono [OF wp_local [OF assms(3,4)]])
  fix r l' v'
  assume "l' = l \<and> frame K s v'"
  then show "wp (finish_run env i) (\<lambda>r' l1 v1. case r' of
       Inl e \<Rightarrow> frame K s v1 \<and> ((\<exists>e'. Inl e = Inl e' \<and> \<not> is_cancelled e') \<or> l1 = forgotten i l)
     | Inr _ \<Rightarrow> frame K s v1 \<and> ((\<exists>e. r = Inl e \<and> \<not> is_cancelled e) \<or> l1 = forgotten i l)) l' v'"
      using assms(1,2) by (intro wp_mono [OF wp_finish_run]) (auto simp: frame_def split: sum.splits)
qed

lemma frame_wait [keeps_rules]: "keeps (frame K s) (wait_tasks i)"
  by (simp add: keeps_def wp_wait_tasks)

definition run_body :: "manager_env \<Rightarrow> string \<Rightarrow> (manager, unit) prog" where
  "run_body env i = bind (attempt (watch_runner env i)) (\<lambda>r. case r of
     Inr _ \<Rightarrow> skip | Inl e \<Rightarrow> handle_run_exception env i e)"

lemma frame_body: "keeps (frame {meta_key i} s) (run_body env i)"
  unfolding run_body_def watch_runner_def lifecycle_def update_status_if_owner_def
  by (intro keeps_rules frame_handle) (auto intro!: keeps_rules split: task_event.split)

lemma mild_body: "mild T (run_body env i)"
  unfolding run_body_def watch_runner_def wait_tasks_def
  by (intro mild_rules mild_handlers) (auto intro!: mild_rules split: task_event.split sum.split reply.split)


subsection \<open>Services that nobody cancels\<close>

text \<open>In the worlds \<open>I\<close> no awaited service is cancelled: only a joined task may have ended with a
  cancellation of its own. A program that raises no cancellation itself then ends with none.\<close>

definition uncancelled :: "'w services \<Rightarrow> 'w set \<Rightarrow> bool" where
  "uncancelled S I =
     ((\<forall>w\<in>I. \<forall>c. snd (ask S c w) \<in> I \<and>
         (\<forall>e. fst (ask S c w) = Inl e \<longrightarrow> is_cancelled e \<longrightarrow> (\<exists>t. c = Join_Task t))) \<and>
      (\<forall>w\<in>I. \<forall>m. tell S m w \<in> I))"

primrec calm :: "('l, 'a) prog \<Rightarrow> bool" where
  "calm (Ret x) = True"
| "calm (Raise e) = (\<not> is_cancelled e)"
| "calm (Call c k) = (\<forall>r. (\<forall>e. r = Inl e \<longrightarrow> is_cancelled e \<longrightarrow> (\<exists>t. c = Join_Task t)) \<longrightarrow> calm (k r))"
| "calm (Get_Local k) = (\<forall>l. calm (k l))"
| "calm (Put_Local l p) = calm p"
| "calm (Emit m p) = calm p"

lemma uncancelledD:
  assumes "uncancelled S I" and "w \<in> I"
  shows "snd (ask S c w) \<in> I" "tell S m w \<in> I"
    and "fst (ask S c w) = Inl e \<Longrightarrow> is_cancelled e \<Longrightarrow> \<exists>t. c = Join_Task t"
  using assms unfolding uncancelled_def by blast+

lemma stays_uncancelled:
  "uncancelled S I \<Longrightarrow> w \<in> I \<Longrightarrow> run S p l w = (r, l', w') \<Longrightarrow> w' \<in> I"
proof (induction p arbitrary: l w)
  case (Call c k)
  obtain x w1 where a: "ask S c w = (x, w1)" by (cases "ask S c w")
  with uncancelledD(1) [OF Call.prems(1,2), of c] have "w1 \<in> I" by simp
  with Call.IH [OF rangeI Call.prems(1), of w1 x l] Call.prems(3) a show ?case by simp
next
  case (Get_Local k)
  from Get_Local.IH [OF rangeI Get_Local.prems(1,2)] Get_Local.prems(3) show ?case by simp
next
  case (Emit m p)
  from Emit.IH [OF Emit.prems(1) uncancelledD(2) [OF Emit.prems(1,2)]] Emit.prems(3) show ?case by simp
qed auto

lemma calm_run:
  "uncancelled S I \<Longrightarrow> w \<in> I \<Longrightarrow> calm p \<Longrightarrow> run S p l w = (Inl e, l', w') \<Longrightarrow> \<not> is_cancelled e"
proof (induction p arbitrary: l w)
  case (Call c k)
  obtain x w1 where a: "ask S c w = (x, w1)" by (cases "ask S c w")
  with uncancelledD(1,3) [OF Call.prems(1,2), of c] have "w1 \<in> I" "\<forall>e. x = Inl e \<longrightarrow> is_cancelled e \<longrightarrow> (\<exists>t. c = Join_Task t)"
    by simp_all
  with Call.IH [OF rangeI Call.prems(1), of w1 x l] Call.prems(3,4) a show ?case by simp
next
  case (Get_Local k)
  from Get_Local.IH [OF rangeI Get_Local.prems(1,2)] Get_Local.prems(3,4) show ?case by simp
next
  case (Emit m p)
  from Emit.IH [OF Emit.prems(1) uncancelledD(2) [OF Emit.prems(1,2)]] Emit.prems(3,4) show ?case by simp
qed auto

named_theorems calm_rules \<open>programs that raise no cancellation\<close>

lemma calm_bind [calm_rules]: "calm p \<Longrightarrow> (\<And>x. calm (f x)) \<Longrightarrow> calm (bind p f)"
  by (induction p) auto

lemma calm_except [calm_rules]: "calm p \<Longrightarrow> (\<And>e. calm (h e)) \<Longrightarrow> calm (except g p h)"
  by (induction p) auto

lemma calm_if [calm_rules]: "(b \<Longrightarrow> calm p) \<Longrightarrow> (\<not> b \<Longrightarrow> calm q) \<Longrightarrow> calm (if b then p else q)"
  by simp

lemma not_cancellation [simp]: "\<not> is_cancelled response_error"
  by (simp add: response_error_def)

lemma calm_calls [calm_rules]:
  "calm skip" "calm (Ret x)" "calm (emit m)" "calm datetime_now" "calm (redis_eval sc)" "calm (pg_transaction q)"
  "calm get_local" "calm (redis_exists k)"
  by (auto simp: skip_def get_local_def redis_exists_def emit_def datetime_now_def redis_eval_def as_bool_def redis_def pg_transaction_def
      split: sum.split reply.split rreply.split intro!: calm_bind)

lemma calm_update: "calm (update_status_if_owner db i st n)"
  unfolding update_status_if_owner_def now_iso_def persist_def andthen_def by (intro calm_rules)

subsection \<open>A task that a stop request cancels\<close>

lemma run_except:
  "run S (except g p h) l w = (case run S p l w of
     (Inl e, l1, w1) \<Rightarrow> if g e then run S (h e) l1 w1 else (Inl e, l1, w1) | (Inr x, l1, w1) \<Rightarrow> (Inr x, l1, w1))"
  by (induction p arbitrary: l w) (auto split: prod.splits)

text \<open>The record of a stream whose task ends: \<^verbatim>\<open>stopped\<close>, where it is still the instance's own.\<close>

definition ending :: "manager_env \<Rightarrow> string \<Rightarrow> manager \<Rightarrow> rdb \<Rightarrow> rdb \<Rightarrow> bool" where
  "ending env i l s s' = (stop_asked s' i = stop_asked s i \<and> meta_owner s' i = meta_owner s i \<and>
      (\<not> mg_shutting_down l \<longrightarrow> meta_status s' i =
         (if meta_owner s i = Some (me_instance_id env) then Some ''stopped'' else meta_status s i)))"

lemma meta_framed:
  assumes "sound s" and "frame K s v" and "meta_key i \<notin> K"
  shows "meta_owner (rdb v) i = meta_owner s i" "meta_status (rdb v) i = meta_status s i"
proof -
  have "rttl s (meta_key i) = None" using assms(1) by (simp add: sound_def)
  with assms(2,3) show "meta_owner (rdb v) i = meta_owner s i" "meta_status (rdb v) i = meta_status s i"
    by (auto simp: frame_def framed_def meta_owner_def meta_status_def meta_field_def untouched_def hash_field_def hash_at_def)
qed

lemma frame_update_owner: "keeps (frame {meta_key i} s) (update_status_if_owner db i st n)"
  unfolding update_status_if_owner_def by (intro keeps_rules) auto

lemma wp_owner_stamped:
  assumes "sound (rdb v)"
  shows "wp (update_status_if_owner (me_db env) i ''stopped'' (me_instance_id env))
     (\<lambda>r l' v'. \<forall>b. r = Inr b \<longrightarrow> ending env i self (rdb v) (rdb v')) l v"
proof (rule wp_mono [OF keeps_wp [OF frame_update_owner frame_refl wp_update_status_if_owner [OF assms]]], goal_cases)
  case (1 r l' v')
  then have "stop_asked (rdb v') i = stop_asked (rdb v) i" by (intro stop_asked_frame [OF assms]) auto
  with 1 meta_framed [OF assms, of "{}" v' i] show ?case
    by (auto simp: guarded_def ending_def restamped_def meta_owner_def meta_status_def split: if_splits)
qed

lemma ending_later: "passed s s1 \<Longrightarrow> sound s \<Longrightarrow> ending env i l s1 s' \<Longrightarrow> ending env i l s s'"
  by (auto simp: passed_def ending_def)

lemma wp_may_preserve:
  "wp (should_preserve_for_failover i) (\<lambda>r l' v'. waited (rdb v) (rdb v') \<and> (mg_shutting_down l \<or> r = Inr False)) l v"
  by (auto simp: should_preserve_for_failover_def is_stop_requested_def wp_rules waited_def)

lemma wp_handle_cancellation:
  assumes "sound (rdb v)"
  shows "wp (handle_runner_cancellation env i) (\<lambda>r l' v'. r = Inr () \<longrightarrow> ending env i l (rdb v) (rdb v')) l v"
proof -
  have stop: "wp (bind (update_status_if_owner (me_db env) i ''stopped'' (me_instance_id env)) (\<lambda>_. emit m))
      (\<lambda>r l' v'. r = Inr () \<longrightarrow> ending env i l (rdb v) (rdb v')) l1 v1"
    if "waited (rdb v) (rdb v1)" for m l1 v1
  proof (rule wp_seq [OF wp_owner_stamped [OF waited_sound [OF that assms], where self = l]])
  qed (use that assms in \<open>auto simp: lifecycle_def wp_basic waited_def intro: ending_later\<close>)
  have kept: "ending env i l (rdb v) (rdb v1)" if "waited (rdb v) (rdb v1)" "mg_shutting_down l" for v1
    using that assms by (auto simp: waited_def ending_def passed_def)
  show ?thesis
    unfolding handle_runner_cancellation_def lifecycle_def
    by (intro wp_seq [OF wp_may_preserve]) (auto simp: lifecycle_def wp_basic intro: kept stop)
qed

lemma wp_join_quietly:
  "wp (join_quietly x) (\<lambda>r l' v'. l' = l \<and> v' = v \<and> (\<forall>e. r = Inl e \<longrightarrow> \<not> is_cancelled e)) l v"
  by (simp add: join_quietly_def wp_except wp_tasks wp_basic)

lemma calm_handle: "calm (handle_runner_cancellation env i)"
  unfolding handle_runner_cancellation_def should_preserve_for_failover_def lifecycle_def is_stop_requested_def
  by (intro calm_rules calm_update)

text \<open>The handler of the cancellation ends with the cancellation only after its work was done.\<close>

lemma handled_cancellation:
  assumes D: "documented_services S V" and U: "uncancelled S I" "w \<in> I" and s: "sound (rdb (V w))"
    and r: "run S (handle_run_exception env i cancelled_error) l w = (r, l1, w1)"
  shows "\<exists>e. r = Inl e \<and> (is_cancelled e \<longrightarrow> l1 = l \<and> ending env i l (rdb (V w)) (rdb (V w1)))"
proof -
  obtain ra la wa rb lb wb rc lc wc where
    a: "run S (unit_call (Cancel_Task (runner_task i))) l w = (ra, la, wa)" and
    b: "run S (join_quietly (runner_task i)) la wa = (rb, lb, wb)" and
    c: "run S (handle_runner_cancellation env i) lb wb = (rc, lc, wc)"
    by (metis prod_cases3)
  have I: "wb \<in> I" using stays_uncancelled [OF U(1) stays_uncancelled [OF U a] b] .
  have l: "la = l" "lb = l" "lc = l"
    using run_mild [OF mild_manager(1) a] run_mild [OF mild_manager(3) b] run_mild [OF mild_handlers(2) c] by simp_all
  have a': "ra = Inr () \<and> V wa = V w"
    using documented_services.run_wp [OF D a, of "\<lambda>r l' v'. r = Inr () \<and> v' = V w"] by (simp add: wp_tasks)
  have b': "V wb = V w" "\<forall>e. rb = Inl e \<longrightarrow> \<not> is_cancelled e"
    using documented_services.run_wp [OF D b wp_join_quietly] a' by auto
  have c': "\<forall>e. rc = Inl e \<longrightarrow> \<not> is_cancelled e" "rc = Inr () \<longrightarrow> ending env i l (rdb (V w)) (rdb (V wc))"
    using calm_run [OF U(1) I calm_handle, of env i lb _ lc wc] c
      documented_services.run_wp [OF D c wp_handle_cancellation] s b'(1) l by auto
  have "is_cancelled cancelled_error" by simp
  with r have "run S (andthen (unit_call (Cancel_Task (runner_task i))) (andthen (join_quietly (runner_task i))
       (andthen (handle_runner_cancellation env i) (Raise cancelled_error)))) l w = (r, l1, w1)"
    unfolding handle_run_exception_def if_P [OF \<open>is_cancelled cancelled_error\<close>] by simp
  with a a' b b'(2) c c' l show ?thesis
    by (cases rb; cases rc) (auto simp: andthen_def run_bind)
qed

lemma awaited_ending:
  assumes D: "documented_services S V" and U: "uncancelled S I" "w \<in> I" and s: "sound (rdb (V w))"
    and l: "\<not> mg_busy l" "0 < me_rounds env"
    and r: "run S (except is_cancelled (ending_task env i) (\<lambda>_. skip)) l w = (Inr (), l', w')"
  shows "l' = forgotten i l \<and> ending env i l (rdb (V w)) (rdb (V w'))"
proof -
  obtain ra la wa rb lb wb where
    a: "run S (handle_run_exception env i cancelled_error) l w = (ra, la, wa)" and
    b: "run S (finish_run env i) la wa = (rb, lb, wb)"
    by (metis prod_cases3)
  obtain e where e: "ra = Inl e" "is_cancelled e \<longrightarrow> la = l \<and> ending env i l (rdb (V w)) (rdb (V wa))"
    using handled_cancellation [OF D U s a] by blast
  have "la = l" using run_mild [OF mild_handlers(3) a] .
  with documented_services.run_wp [OF D b wp_finish_run] l
  have "rdb (V wb) = rdb (V wa)" "case rb of Inr _ \<Rightarrow> lb = forgotten i l | Inl e \<Rightarrow> \<not> is_cancelled e" by (auto split: sum.splits)
  with r a b e show ?thesis
    by (cases rb) (auto simp: ending_task_def run_except run_finally skip_def split: if_splits)
qed

subsection \<open>A task that fails while it ends\<close>

definition fails :: "'w services \<Rightarrow> ('l, 'a) prog \<Rightarrow> 'l \<Rightarrow> bool" where
  "fails S p l = (\<forall>w. \<exists>e w2. run S p l w = (Inl e, l, w2))"

lemma fails_then:
  assumes "fails S p l"
  shows "fails S (bind p f) l"
  unfolding fails_def
proof
  fix w
  obtain e w2 where "run S p l w = (Inl e, l, w2)"
    using assms unfolding fails_def by blast
  then show "\<exists>e w2. run S (bind p f) l w = (Inl e, l, w2)" by (simp add: run_bind)
qed

lemma fails_after:
  assumes "mild (=) p" and "\<And>x. fails S (f x) l"
  shows "fails S (bind p f) l"
  unfolding fails_def
proof
  fix w
  obtain r l1 w1 where e: "run S p l w = (r, l1, w1)" by (rule prod_cases3)
  with run_mild [OF assms(1) e] assms(2) show "\<exists>e w2. run S (bind p f) l w = (Inl e, l, w2)"
    by (cases r) (auto simp: run_bind fails_def)
qed

lemma fails_join:
  assumes "\<And>w. fst (ask S (Join_Task x) w) = Inl e" and "\<not> is_cancelled e"
  shows "fails S (join_quietly x) l"
  unfolding fails_def
proof
  fix w
  from assms(1) [of w] obtain w1 where "ask S (Join_Task x) w = (Inl e, w1)"
    by (cases "ask S (Join_Task x) w") simp
  with assms(2) show "\<exists>e w2. run S (join_quietly x) l w = (Inl e, l, w2)"
    by (simp add: join_quietly_def unit_call_def)
qed

lemma finish_fails:
  assumes "\<And>w. fst (ask S (Join_Task (watcher_task i)) w) = Inl e" and "\<not> is_cancelled e"
  shows "fails S (finish_run env i) l"
  unfolding finish_run_def andthen_def
  by (intro fails_after fails_then fails_join [OF assms] mild_rules)

lemma local_refused:
  "\<not> mg_busy l \<Longrightarrow> 0 < me_rounds env \<Longrightarrow> i \<in> set (mg_tasks l) \<Longrightarrow>
     run S (start_local_worker env i sub tok tr) l w = (Inr False, l, w)"
  by (cases "me_rounds env")
     (auto simp: start_local_worker_def with_lock_def release_mutex_def run_bind run_finally andthen_def get_local_def modify_local_def)

subsection \<open>The timestamps of starting streams\<close>

lemma no_Z: "CHR ''Z'' \<notin> set (isoformat t)"
proof -
  have "CHR ''Z'' \<notin> set (pad n k)" for n k
    using pad_digits [of n k] by (auto simp: list_all_iff)
  then show ?thesis by (auto simp: isoformat_def iso_date_def iso_clock_def iso_fraction_def simp del: pad.simps)
qed

lemma replace_Z_id: "CHR ''Z'' \<notin> set s \<Longrightarrow> replace_Z s = s"
  by (induction s) (auto simp: replace_Z_def)

lemma replace_Z_stamp: "replace_Z (stamp d) = isoformat (naive d) @ ''+00:00''"
  using replace_Z_id [OF no_Z [of "naive d"]] by (simp add: stamp_def replace_Z_def)

lemma stamp_reads_back:
  assumes "valid_datetime d"
  shows "fromisoformat (replace_Z (stamp d)) = Some (with_tz 0 d)"
proof -
  have "read_zone ''+00:00'' = Some (Some 0)" "takeWhile is_digit ''+00:00'' = []"
    by (simp_all add: read_zone_def field_def num_field_def is_digit_def read_nat_def digit_val_def)
  with fromisoformat_written [of "naive d" "''+00:00''"] assms show ?thesis
    unfolding replace_Z_stamp by (simp add: with_tz_def)
qed

end
