(* ===== verification/Manager_Theorems.thy ===== *)
theory Manager_Theorems
  imports Manager_Run
begin

section \<open>What the stream manager promises\<close>

text \<open>
  The properties of src/stream/manager.py, from theories Manager\_Spec and Manager\_Run.
\<close>

text \<open>The manager of instance \<open>n\<close>, and a registry with one stream of another instance whose lease
  ended.\<close>

definition menv1 :: manager_env where
  "menv1 = \<lparr>me_instance_id = ''n'', me_lock_manager = True, me_stop_poll = 1000, me_db = False, me_rounds = 1\<rparr>"

lemma menv1_sel [simp]:
  "me_instance_id menv1 = ''n''" "me_lock_manager menv1" "me_db menv1 = False" "me_rounds menv1 = 1"
  by (simp_all add: menv1_def)

lemma new_manager_sel [simp]:
  "mg_tasks new_manager = []" "\<not> mg_shutting_down new_manager" "\<not> mg_busy new_manager" "\<not> mg_reconciler new_manager"
  by (simp_all add: new_manager_def)

definition orphan_world :: ref_world where
  "orphan_world = ref_start (with_rdb (\<lambda>s.
     put_key (meta_key ''s1'') (VHash [(''id'', ''s1''), (''subreddit'', ''python''), (''status'', ''active''), (''instance_id'', ''dead'')]) s) empty_view) []"

lemma orphan_sound [simp]: "sound (rdb (rview orphan_world))"
  by (simp add: orphan_world_def)

lemmas manager_runs = create_stream_def resolve_identity_def claim_stream_def write_stream_def
  take_lease_def activate_def start_local_worker_def with_lock_def lease_held_def lifecycle_def release_mutex_def
  give_back_def is_running_locally_def lease_ttl_seconds_def lock_defs update_status_def stream_meta_def
  stream_id_of_def adopt_def get_stream_def is_stop_requested_def decode_row_def next_wall_def

text \<open>C36: \<^verbatim>\<open>start_stream\<close> returns only if nothing had claimed the subreddit and the manager was not
  shutting down; then the claim is the new stream's, the registry shows it active and owned by
  the instance, the subreddit's lock holds a token of this very call (where there is a lock
  manager), and the stream's task is the one new entry of the local map. If it raises, the map
  is as it was.\<close>

theorem start_stream_activates:
  assumes "documented_services S V" and "sound (rdb (V w))" and "\<not> mg_busy l" and "0 < me_rounds env"
    and "run S (start_stream env sub cfg) l w = (r, l', w')"
  shows "stream_started env sub l (V w) r l' (V w')"
  using documented_services.run_wp [OF assms(1,5) wp_start_stream [OF assms(3,4,2)]] .

theorem start_stream_activates_witness:
  "\<exists>meta l' w'. run ref_services (start_stream menv1 ''python'' []) new_manager (ref_start empty_view []) = (Inr meta, l', w') \<and>
     stream_id_of meta \<in> set (mg_tasks l') \<and> meta_status (rdb (rview w')) (stream_id_of meta) = Some ''active'' \<and>
     (\<exists>u. holder (rdb (rview w')) ''python'' = Some (''n:'' @ u))" (is "\<exists>meta l' w'. ?run = _ \<and> _")
proof -
  have "\<exists>meta l' w'. ?run = (Inr meta, l', w')"
    by (simp add: ref_run start_stream_def manager_runs fresh_uuid_def cong: lazy)
  then obtain meta l' w' where e: "?run = (Inr meta, l', w')" by blast
  have "stream_started menv1 ''python'' new_manager empty_view (Inr meta) l' (rview w')"
    using start_stream_activates [OF ref.documented_services_axioms _ _ _ e] by simp
  with e show ?thesis by (auto simp: stream_started_def running_def)
qed


subsection \<open>The lease of a failed adoption\<close>

text \<open>The exception \<open>e\<close> came out of the call that takes or gives back the subreddit's lease, the last thing
  that was done.\<close>

definition lease_call_failed :: "'w services \<Rightarrow> manager_env \<Rightarrow> string \<Rightarrow> manager \<Rightarrow> pyexn \<Rightarrow> 'w \<Rightarrow> bool" where
  "lease_call_failed S env sub l e w' =
     ((\<exists>w. run S (acquire_lock sub (me_instance_id env) lease_ttl_seconds) l w = (Inl e, l, w')) \<or>
      (\<exists>tok w. run S (release_lock sub tok) l w = (Inl e, l, w')))"

lemma adopt_failed:
  assumes D: "documented_services S V" and l: "\<not> mg_busy l" "0 < me_rounds env" and s: "sound (rdb (V w))"
    and t: "at_most_token sub tok (V w)"
    and i: "i \<notin> set (mg_tasks l)" and r: "run S (adopt env i sub tok) l w = (Inl e, l', w')"
  shows "l' = l \<and> (holder (rdb (V w')) sub = None \<or> lease_call_failed S env sub l e w')"
proof -
  let ?body = "bind (get_stream i) (\<lambda>current.
        if dict_get (sd_fields current) ''status'' \<notin> {Some ''active'', Some ''starting''} then Ret False
        else bind (is_stop_requested i) (\<lambda>stop.
          if stop then Ret False else start_local_worker env i sub (Some tok) ''reconcile''))"
  obtain ra la wa rb lb wb rc lc wc where
    a: "run S ?body l w = (ra, la, wa)" and b: "run S (is_running_locally env i) la wa = (rb, lb, wb)" and
    c: "run S (release_lock sub tok) lb wb = (rc, lc, wc)"
    by (metis prod_cases3)
  have a': "sound (rdb (V wa))" "\<not> mg_busy la" "if ra = Inr True then i \<in> set (mg_tasks la) else la = l"
    using documented_services.run_wp [OF D a wp_adopt_body [OF l s]] l by (auto simp: rerun_def activated_def split: if_splits)
  have b': "rb = Inr (i \<in> set (mg_tasks la)) \<and> lb = la \<and> V wb = V wa"
    by (rule documented_services.run_wp [OF D b]) (use a'(2) l(2) in \<open>simp add: wp_is_running\<close>)
  have at: "at_most_token sub tok (V w')"
    by (rule keeps_run [OF D issues_keeps [OF settled_adopt stable_settled] t r])
  have c': "lc = lb" using run_mild [OF _ c] by (simp add: lock_defs mild_rules)
  have body: "adopt env i sub tok = finally_do ?body (bind (is_running_locally env i) (\<lambda>running.
        if \<not> running then bind (release_lock sub tok) (\<lambda>_. skip) else skip))"
    by (simp add: adopt_def)
  show ?thesis
  proof (cases "ra = Inr True")
    case True
    with r a b b' a'(3) show ?thesis unfolding body by (simp add: run_finally run_bind skip_def)
  next
    case False
    with a'(3) b' i have same: "la = l" "lb = l" "lc = l" "rb = Inr False" using c' by auto
    show ?thesis
    proof (cases rc)
      case (Inl e')
      with r a b c same have "e' = e" "l' = l" "w' = wc" unfolding body by (simp_all add: run_finally run_bind)
      with c Inl same show ?thesis unfolding lease_call_failed_def by blast
    next
      case (Inr x)
      have "holder (rdb (V wc)) sub \<noteq> Some tok"
        using documented_services.run_wp [OF D, of "bind (release_lock sub tok) (\<lambda>_. skip)" lb wb "Inr ()" lc wc, OF _ wp_release_after]
          c Inr a'(1) b' by (simp add: run_bind skip_def)
      with r a b c same Inr at show ?thesis
        unfolding body by (auto simp: run_finally run_bind skip_def at_most_token_def)
    qed
  qed
qed

lemma acquired_token_only: "acquired sub inst ttl v (Inr (Some tok)) v' \<Longrightarrow> at_most_token sub tok v'"
  by (auto simp: acquired_def Let_def at_most_token_def grant_lease_def holder_def)

lemma resume_failed:
  fixes meta defines "i \<equiv> or_empty (dict_get (sd_fields meta) ''id'')" and "sub \<equiv> or_empty (dict_get (sd_fields meta) ''subreddit'')"
  assumes D: "documented_services S V" and l: "\<not> mg_busy l" "0 < me_rounds env" and s: "sound (rdb (V w))"
    and r: "run S (resume_stream env meta) l w = (Inl e, l', w')"
  shows "fades sub (rdb (V w)) (rdb (V w')) \<or> lease_call_failed S env sub l e w'"
proof -
  let ?acquire = "acquire_lock sub (me_instance_id env) lease_ttl_seconds :: (manager, string option) prog"
  obtain ra la wa rb lb wb rc lc wc where
    a: "run S (is_running_locally env i) l w = (ra, la, wa)" and b: "run S (is_locked sub) la wa = (rb, lb, wb)" and
    c: "run S ?acquire lb wb = (rc, lc, wc)"
    by (metis prod_cases3)
  have a': "ra = Inr (i \<in> set (mg_tasks l)) \<and> la = l \<and> V wa = V w"
    by (rule documented_services.run_wp [OF D a]) (use l in \<open>simp add: wp_is_running\<close>)
  have b': "lb = l" "passed (rdb (V w)) (rdb (V wb))"
    using documented_services.run_wp [OF D b wp_is_locked] a' by auto
  have c': "lc = l" "acquired sub (me_instance_id env) lease_ttl_seconds (V wb) rc (V wc)"
    using documented_services.run_wp [OF D c wp_acquire_lock] b'(1) by auto
  have sc: "sound (rdb (V wc))" using sound_acquired [OF c'(2)] b'(2) s by (auto simp: passed_def)
  note step = r [unfolded resume_stream_def i_def [symmetric] sub_def [symmetric] Let_def]
  show ?thesis
  proof (cases rb)
    case (Inl e')
    with step a b a' b' show ?thesis by (auto simp: run_bind get_local_def fades_rules(1) split: if_splits)
  next
    case (Inr locked)
    show ?thesis
    proof (cases rc)
      case (Inl e')
      with step a b c a' b' c' Inr show ?thesis
        by (auto simp: run_bind get_local_def lease_call_failed_def split: if_splits)
    next
      case acq: (Inr token)
      with step a b c a' b' c' Inr obtain tok where tok: "token = Some tok" "i \<notin> set (mg_tasks l)"
          "run S (adopt env i sub tok) l wc = (Inl e, l', w')"
        by (cases token) (auto simp: run_bind get_local_def andthen_def lifecycle_def emit_def split: if_splits)
      with adopt_failed [OF D l sc _ tok(2,3)] acquired_token_only c'(2) acq show ?thesis by (auto simp: fades_def)
    qed
  qed
qed

text \<open>C37: \<^verbatim>\<open>resume_stream\<close> answers True only for a stream that was active or starting when the
  call began; then it runs locally under a lease taken by this call and the registry names this
  instance. When it answers False, or raises, no task and no lease of it is left behind: the lock is free,
  or in the hands it was in. An exception leaves a lease only if it is that of the very call to take or to give back the lease.\<close>

theorem resume_stream_adopts:
  assumes "documented_services S V" and "sound (rdb (V w))" and "\<not> mg_busy l" and "0 < me_rounds env"
    and "run S (resume_stream env meta) l w = (r, l', w')"
  shows "resumed env (or_empty (dict_get (sd_fields meta) ''id'')) (or_empty (dict_get (sd_fields meta) ''subreddit''))
      l (V w) r l' (V w') \<and>
    (\<forall>e. r = Inl e \<longrightarrow> fades (or_empty (dict_get (sd_fields meta) ''subreddit'')) (rdb (V w)) (rdb (V w')) \<or>
      lease_call_failed S env (or_empty (dict_get (sd_fields meta) ''subreddit'')) l e w')"
  using documented_services.run_wp [OF assms(1,5) wp_resume_stream [OF assms(3,4,2)]] resume_failed [OF assms(1,3,4,2)] assms(5) by blast

theorem resume_stream_adopts_witness:
  "\<exists>l' w'. run ref_services (resume_stream menv1 (decode_row [(''id'', ''s1''), (''subreddit'', ''python'')])) new_manager orphan_world =
       (Inr True, l', w') \<and> ''s1'' \<in> set (mg_tasks l') \<and> meta_owner (rdb (rview w')) ''s1'' = Some ''n''"
    (is "\<exists>l' w'. ?run = _ \<and> _")
proof -
  have "\<exists>l' w'. ?run = (Inr True, l', w')"
    by (simp add: ref_run resume_stream_def manager_runs fresh_uuid_def orphan_world_def cong: lazy)
  then obtain l' w' where e: "?run = (Inr True, l', w')" by blast
  have "resumed menv1 ''s1'' ''python'' new_manager (rview orphan_world) (Inr True) l' (rview w')"
    using resume_stream_adopts [OF ref.documented_services_axioms _ _ _ e] by (simp add: decode_row_def)
  with e show ?thesis by (auto simp: resumed_def running_def)
qed

text \<open>C38: when a stream's task ends by the loss of its lease, or is cancelled by a shutdown that no
  stop request preceded, nothing in Redis changes: the stream stays as it was, for another
  instance to adopt.\<close>

theorem failover_leaves_stream:
  assumes "documented_services S V" and "sound (rdb (V w))" and "\<not> mg_busy l" and "0 < me_rounds env"
    and "ask S (Wait_Tasks i) w = (a, w1)" and "raised_by a = Some e" and "left_to_others l (rdb (V w)) i e"
    and "run S (run_stream env i) l w = (r, l', w')"
  shows "framed {} (rdb (V w)) (rdb (V w'))"
proof -
  have "documented (Wait_Tasks i) (V w) a (V w1)"
    using documented_services.ask_doc [OF assms(1), of "Wait_Tasks i" w] assms(5) by simp
  then have v: "V w1 = V w" by simp
  have "run S (finally_do (handle_run_exception env i e) (finish_run env i)) l w1 = (r, l', w')"
    using assms(8) run_stream_raised [OF assms(5,6)] by simp
  from documented_services.run_wp [OF assms(1) this wp_finally_forget [OF assms(3,4) mild_handlers(3)]]
    wp_left_to_others [of l "V w" i e env] assms(2,7) v
  show ?thesis by (auto simp: frame_def)
qed

definition running_manager :: manager where
  "running_manager = new_manager\<lparr>mg_tasks := [''s1'']\<rparr>"

lemma running_manager_sel [simp]:
  "mg_tasks running_manager = [''s1'']" "\<not> mg_busy running_manager" "\<not> mg_shutting_down running_manager"
  by (simp_all add: running_manager_def)

definition ending_world :: "task_event \<Rightarrow> ref_world" where
  "ending_world t = orphan_world\<lparr>outcomes := [t]\<rparr>"

lemma ending_world_sel [simp]:
  "rview (ending_world t) = rview orphan_world" "outcomes (ending_world t) = [t]"
  "schedule (ending_world t) = schedule orphan_world"
  by (simp_all add: ending_world_def)

theorem failover_leaves_stream_witness:
  "case run ref_services (run_stream menv1 ''s1'') running_manager (ending_world (Runner_Raised (lock_lost_error ''gone''))) of
     (r, l', w') \<Rightarrow> framed {} (rdb (rview orphan_world)) (rdb (rview w'))" (is "case ?run of (r, l', w') \<Rightarrow> _")
proof -
  obtain r l' w' where e: "?run = (r, l', w')" by (rule prod_cases3)
  have a: "ask ref_services (Wait_Tasks ''s1'') (ending_world (Runner_Raised (lock_lost_error ''gone''))) =
     (Inr (Task_Reply (Runner_Raised (lock_lost_error ''gone''))), ending_world (Runner_Raised (lock_lost_error ''gone''))\<lparr>outcomes := []\<rparr>)"
    by simp
  from failover_leaves_stream [OF ref.documented_services_axioms _ _ _ a _ _ e]
  show ?thesis unfolding e by (simp add: left_to_others_def)
qed

text \<open>C39: a stream's task that returns, or ends by its own cancellation, has taken its entry out of the map of
  local tasks, and wrote no key but the stream's metadata.\<close>

theorem ended_task_is_forgotten:
  assumes "documented_services S V" and "\<not> mg_busy l" and "0 < me_rounds env"
    and "run S (run_stream env i) l w = (r, l', w')"
  shows "((\<exists>e. r = Inl e \<and> \<not> is_cancelled e) \<or> l' = forgotten i l) \<and> framed {meta_key i} (rdb (V w)) (rdb (V w'))"
proof -
  have "run S (finally_do (run_body env i) (finish_run env i)) l w = (r, l', w')"
    using assms(4) by (simp add: run_stream_def run_body_def)
  from documented_services.run_wp [OF assms(1) this wp_finally_forget [OF assms(2,3) mild_body keepsD [OF frame_body frame_refl]]]
  show ?thesis by (auto simp: frame_def)
qed

theorem ended_task_is_forgotten_witness:
  "\<exists>l' w'. run ref_services (run_stream menv1 ''s1'') running_manager (ending_world Runner_Returned) = (Inr (), l', w') \<and>
     mg_tasks l' = []" (is "\<exists>l' w'. ?run = _ \<and> _")
proof -
  have "\<exists>l' w'. ?run = (Inr (), l', w')"
    by (simp add: ref_run run_stream_def watch_runner_def attempt_def finish_run_def forget_task_def join_quietly_def
        update_status_if_owner_def update_owner_closed manager_runs orphan_world_def cong: lazy)
  then obtain l' w' where e: "?run = (Inr (), l', w')" by blast
  from ended_task_is_forgotten [OF ref.documented_services_axioms _ _ e] have "mg_tasks l' = []"
    by (simp add: forgotten_def)
  with e show ?thesis by blast
qed

text \<open>C40: a stop watcher that failed, as it does on one failing Redis call, makes the task end without taking its entry out of the map:
  from then on this manager refuses to start the stream again.\<close>

theorem failed_watcher_leaks_task:
  assumes "documented_services S V" and "\<not> mg_busy l" and "0 < me_rounds env" and "i \<in> set (mg_tasks l)"
    and "\<And>w. fst (ask S (Join_Task (watcher_task i)) w) = Inl e" and "\<not> is_cancelled e"
    and "ask S (Wait_Tasks i) w = (Inr (Task_Reply (Watcher_Raised e)), w1)"
    and "run S (run_stream env i) l w = (r, l', w')"
  shows "(\<exists>e'. r = Inl e') \<and> l' = l \<and> run S (start_local_worker env i sub tok tr) l' w' = (Inr False, l', w')"
proof -
  have fin: "\<exists>e' w2. run S (finish_run env i) l w0 = (Inl e', l, w2)" for w0
    using finish_fails [of S i e env l] assms(5,6) by (simp add: fails_def)
  obtain r1 l1 w2 where h: "run S (handle_run_exception env i e) l w1 = (r1, l1, w2)" by (rule prod_cases3)
  have "l1 = l" using run_mild [OF mild_handlers(3) h] .
  with fin [of w2] h have "(\<exists>e'. r = Inl e') \<and> l' = l"
    using assms(8) run_stream_raised [OF assms(7), of e env l] by (auto simp: run_finally)
  with local_refused [OF assms(2-4)] show ?thesis by simp
qed

text \<open>Services on which the watcher of \<open>s1\<close> failed.\<close>

definition redis_down :: pyexn where
  "redis_down = runtime_error ''connection lost''"

definition failing_watcher :: "ref_world services" where
  "failing_watcher = ref_services\<lparr>ask := (\<lambda>c w. if c = Join_Task (watcher_task ''s1'') then (Inl redis_down, w) else ref_ask c w)\<rparr>"

lemma failing_watcher_sel [simp]:
  "ask failing_watcher c w = (if c = Join_Task (watcher_task ''s1'') then (Inl redis_down, w) else ref_ask c w)"
  "tell failing_watcher = tell ref_services"
  by (simp_all add: failing_watcher_def)

interpretation failing: documented_services failing_watcher rview
proof
  fix c and w :: ref_world and m
  show "documented c (rview w) (fst (ask failing_watcher c w)) (rview (snd (ask failing_watcher c w)))"
    using ref.ask_doc [of c w] by auto
  show "rview (tell failing_watcher m w) = (rview w)\<lparr>metrics := m # metrics (rview w)\<rparr>"
    by simp
qed

theorem failed_watcher_leaks_task_witness:
  "case run failing_watcher (run_stream menv1 ''s1'') running_manager (ending_world (Watcher_Raised redis_down)) of
     (r, l', w') \<Rightarrow> mg_tasks l' = [''s1'']" (is "case ?run of (r, l', w') \<Rightarrow> _")
proof -
  obtain r l' w' where e: "?run = (r, l', w')" by (rule prod_cases3)
  have a: "ask failing_watcher (Wait_Tasks ''s1'') (ending_world (Watcher_Raised redis_down)) =
     (Inr (Task_Reply (Watcher_Raised redis_down)), ending_world (Watcher_Raised redis_down)\<lparr>outcomes := []\<rparr>)"
    by simp
  have "\<not> is_cancelled redis_down" by (simp add: redis_down_def)
  from failed_watcher_leaks_task [OF failing.documented_services_axioms _ _ _ _ this a e] show ?thesis
    unfolding e by simp
qed

text \<open>A starting stream, with the timestamp the registry gave it, is reconciled exactly when the
  timestamp is at least a lease's time to live old.\<close>

theorem stale_start_is_reconciled:
  assumes "documented_services S V" and "valid_datetime d" and "tz d = Some 0"
    and "dict_get (sd_fields meta) ''status'' = Some ''starting''" and "dict_get (sd_fields meta) ''updated_at'' = Some (stamp d)"
    and "ask S Now w = (Inr (Time_Reply now), w1)"
  shows "run S (needs_reconciliation meta) l w = (Inr (to_micros now - to_micros d \<ge> 1000000 * lease_ttl_seconds), l, w1)"
proof -
  have "to_micros (with_tz 0 d) = to_micros d"
    using assms(3) by (simp add: to_micros_def toordinal_def)
  with assms stamp_reads_back [OF assms(2)] show ?thesis
    by (simp add: needs_reconciliation_def datetime_now_def)
qed

theorem stale_start_is_reconciled_witness:
  "\<exists>w'. run ref_services (needs_reconciliation (decode_row [(''status'', ''starting''), (''updated_at'', stamp default_time)])) new_manager
     (orphan_world\<lparr>wall := [DateTime 2026 1 1 0 1 0 0 (Some 0)]\<rparr>) = (Inr True, new_manager, w')"
proof -
  let ?w = "orphan_world\<lparr>wall := [DateTime 2026 1 1 0 1 0 0 (Some 0)]\<rparr>"
  let ?w' = "?w\<lparr>wall := []\<rparr>"
  have ok: "valid_datetime default_time" "tz default_time = Some 0" by (simp_all add: default_time_def valid_datetime_def valid_fields_def days_in_month_def)
  have a: "ask ref_services Now ?w = (Inr (Time_Reply (DateTime 2026 1 1 0 1 0 0 (Some 0))), ?w')"
    by (simp add: next_wall_def valid_datetime_def valid_fields_def days_in_month_def)
  have "to_micros (DateTime 2026 1 1 0 1 0 0 (Some 0)) - to_micros default_time \<ge> 1000000 * lease_ttl_seconds"
    by (simp add: to_micros_def toordinal_def default_time_def lease_ttl_seconds_def)
  with stale_start_is_reconciled [OF ref.documented_services_axioms ok _ _ a] show ?thesis
    by (simp add: decode_row_def)
qed

end
