(* ===== verification/Config.thy ===== *)
theory Config
  imports Iso_Time
begin

section \<open>The settings\<close>

text \<open>
  src/config.py: a settings class is a record with the list of its fields, in the order of the class. An
  environment gives the text of a variable, if it is set, by the name the class gives it as an alias.
  What \<^verbatim>\<open>pydantic\<close> makes of a text is a parameter: \<open>px_int\<close>, \<open>px_float\<close> and \<open>px_bool\<close> read a
  value, and \<open>px_section\<close> an environment for a whole class from the variable named like its field in
  \<^verbatim>\<open>Settings\<close>, which \<^verbatim>\<open>pydantic\<close> looks for first. A secret is its text. Floats are rational numbers.
\<close>

type_synonym environ = "string \<Rightarrow> string option"

record pydantic =
  px_int :: "string \<Rightarrow> int option"
  px_float :: "string \<Rightarrow> rat option"
  px_bool :: "string \<Rightarrow> bool option"
  px_section :: "string \<Rightarrow> string \<Rightarrow> environ \<Rightarrow> environ option"

subsection \<open>Fields\<close>

text \<open>A field's variable, and what its text or absence does to the record: \<open>None\<close> is a validation error.\<close>

datatype 'r field_spec = Field (variable: string) (assign: "string option \<Rightarrow> ('r \<Rightarrow> 'r) option")

definition required :: "string \<Rightarrow> (string \<Rightarrow> 'a option) \<Rightarrow> ('a \<Rightarrow> 'r \<Rightarrow> 'r) \<Rightarrow> 'r field_spec" where
  "required name parse put =
     Field name (\<lambda>v. case v of None \<Rightarrow> None | Some text \<Rightarrow> map_option put (parse text))"

definition with_default :: "string \<Rightarrow> (string \<Rightarrow> 'a option) \<Rightarrow> 'a \<Rightarrow> ('a \<Rightarrow> 'r \<Rightarrow> 'r) \<Rightarrow> 'r field_spec" where
  "with_default name parse d put =
     Field name (\<lambda>v. case v of None \<Rightarrow> Some (put d) | Some text \<Rightarrow> map_option put (parse text))"

definition constrained :: "('a \<Rightarrow> bool) \<Rightarrow> (string \<Rightarrow> 'a option) \<Rightarrow> string \<Rightarrow> 'a option" where
  "constrained P parse text = (case parse text of None \<Rightarrow> None | Some x \<Rightarrow> if P x then Some x else None)"

text \<open>The variables whose fields are in error, all of them; the record without one.\<close>

definition rejected :: "'r field_spec list \<Rightarrow> environ \<Rightarrow> string list" where
  "rejected specs env = map variable (filter (\<lambda>f. Option.is_none (assign f (env (variable f)))) specs)"

definition read_fields :: "'r field_spec list \<Rightarrow> environ \<Rightarrow> 'r \<Rightarrow> string list + 'r" where
  "read_fields specs env blank =
     (case rejected specs env of
        [] \<Rightarrow> Inr (fold (\<lambda>f r. case assign f (env (variable f)) of None \<Rightarrow> r | Some put \<Rightarrow> put r) specs blank)
      | names \<Rightarrow> Inl names)"

subsection \<open>The classes\<close>

record reddit_settings =
  rds_client_id :: string
  rds_client_secret :: string
  rds_user_agent :: string

definition reddit_fields :: "reddit_settings field_spec list" where
  "reddit_fields =
     [required ''REDDIT_CLIENT_ID'' Some (\<lambda>x r. r\<lparr>rds_client_id := x\<rparr>),
      required ''REDDIT_CLIENT_SECRET'' Some (\<lambda>x r. r\<lparr>rds_client_secret := x\<rparr>),
      required ''REDDIT_USER_AGENT'' Some (\<lambda>x r. r\<lparr>rds_user_agent := x\<rparr>)]"

record kafka_settings =
  ks_bootstrap_servers :: string
  ks_raw_text_topic :: string
  ks_delivery_wait_timeout :: rat
  ks_security_protocol :: string
  ks_sasl_mechanism :: string
  ks_sasl_username :: "string option"
  ks_sasl_password :: "string option"
  ks_ssl_ca_location :: "string option"

definition kafka_fields :: "pydantic \<Rightarrow> kafka_settings field_spec list" where
  "kafka_fields px =
     [required ''KAFKA_BOOTSTRAP_SERVERS'' Some (\<lambda>x r. r\<lparr>ks_bootstrap_servers := x\<rparr>),
      required ''KAFKA_RAW_TEXT_TOPIC'' Some (\<lambda>x r. r\<lparr>ks_raw_text_topic := x\<rparr>),
      with_default ''KAFKA_DELIVERY_WAIT_TIMEOUT'' (constrained (\<lambda>x. 0 < x) (px_float px)) 300
        (\<lambda>x r. r\<lparr>ks_delivery_wait_timeout := x\<rparr>),
      with_default ''KAFKA_SECURITY_PROTOCOL'' Some ''PLAINTEXT'' (\<lambda>x r. r\<lparr>ks_security_protocol := x\<rparr>),
      with_default ''KAFKA_SASL_MECHANISM'' Some ''SCRAM-SHA-512'' (\<lambda>x r. r\<lparr>ks_sasl_mechanism := x\<rparr>),
      with_default ''KAFKA_SASL_USERNAME'' (\<lambda>t. Some (Some t)) None (\<lambda>x r. r\<lparr>ks_sasl_username := x\<rparr>),
      with_default ''KAFKA_SASL_PASSWORD'' (\<lambda>t. Some (Some t)) None (\<lambda>x r. r\<lparr>ks_sasl_password := x\<rparr>),
      with_default ''KAFKA_SSL_CA_LOCATION'' (\<lambda>t. Some (Some t)) None (\<lambda>x r. r\<lparr>ks_ssl_ca_location := x\<rparr>)]"

record redis_settings =
  rss_host :: string
  rss_port :: int
  rss_user :: string
  rss_password :: string
  rss_use_ssl :: bool

definition redis_fields :: "pydantic \<Rightarrow> redis_settings field_spec list" where
  "redis_fields px =
     [required ''REDIS_HOST'' Some (\<lambda>x r. r\<lparr>rss_host := x\<rparr>),
      required ''REDIS_PORT'' (px_int px) (\<lambda>x r. r\<lparr>rss_port := x\<rparr>),
      required ''REDIS_USER'' Some (\<lambda>x r. r\<lparr>rss_user := x\<rparr>),
      required ''REDIS_PASSWORD'' Some (\<lambda>x r. r\<lparr>rss_password := x\<rparr>),
      with_default ''REDIS_USE_SSL'' (px_bool px) False (\<lambda>x r. r\<lparr>rss_use_ssl := x\<rparr>)]"

record postgres_settings =
  ps_host :: string
  ps_port :: int
  ps_user :: string
  ps_password :: string
  ps_db :: string

definition postgres_fields :: "pydantic \<Rightarrow> postgres_settings field_spec list" where
  "postgres_fields px =
     [required ''POSTGRES_HOST'' Some (\<lambda>x r. r\<lparr>ps_host := x\<rparr>),
      required ''POSTGRES_PORT'' (px_int px) (\<lambda>x r. r\<lparr>ps_port := x\<rparr>),
      required ''POSTGRES_USER'' Some (\<lambda>x r. r\<lparr>ps_user := x\<rparr>),
      required ''POSTGRES_PASSWORD'' Some (\<lambda>x r. r\<lparr>ps_password := x\<rparr>),
      required ''POSTGRES_DB'' Some (\<lambda>x r. r\<lparr>ps_db := x\<rparr>)]"

record schema_settings =
  ss_use_registry :: bool
  ss_registry_name :: string
  ss_schema_name :: string
  ss_schema_version :: int
  ss_region :: string

definition schema_fields :: "pydantic \<Rightarrow> schema_settings field_spec list" where
  "schema_fields px =
     [with_default ''USE_AWS_SCHEMA_REGISTRY'' (px_bool px) True (\<lambda>x r. r\<lparr>ss_use_registry := x\<rparr>),
      with_default ''SCHEMA_REGISTRY_NAME'' Some ''reddit-kafka-schemas'' (\<lambda>x r. r\<lparr>ss_registry_name := x\<rparr>),
      with_default ''SCHEMA_NAME'' Some ''RedditComment'' (\<lambda>x r. r\<lparr>ss_schema_name := x\<rparr>),
      with_default ''SCHEMA_VERSION'' (constrained (\<lambda>x. 0 < x) (px_int px)) 1 (\<lambda>x r. r\<lparr>ss_schema_version := x\<rparr>),
      with_default ''AWS_REGION'' Some ''us-east-1'' (\<lambda>x r. r\<lparr>ss_region := x\<rparr>)]"

record observability_settings =
  os_service_name :: string
  os_service_version :: string
  os_environment :: string
  os_otlp_endpoint :: "string option"
  os_traces_enabled :: bool
  os_logs_export_enabled :: bool
  os_trace_sample_ratio :: rat
  os_json_logs :: bool
  os_log_level :: string

definition observability_fields :: "pydantic \<Rightarrow> observability_settings field_spec list" where
  "observability_fields px =
     [with_default ''OTEL_SERVICE_NAME'' Some ''reddit-kafka'' (\<lambda>x r. r\<lparr>os_service_name := x\<rparr>),
      with_default ''SERVICE_VERSION'' Some ''0.1.0'' (\<lambda>x r. r\<lparr>os_service_version := x\<rparr>),
      with_default ''DEPLOYMENT_ENVIRONMENT'' Some ''development'' (\<lambda>x r. r\<lparr>os_environment := x\<rparr>),
      with_default ''OTEL_EXPORTER_OTLP_ENDPOINT'' (\<lambda>t. Some (Some t)) None (\<lambda>x r. r\<lparr>os_otlp_endpoint := x\<rparr>),
      with_default ''TRACES_ENABLED'' (px_bool px) True (\<lambda>x r. r\<lparr>os_traces_enabled := x\<rparr>),
      with_default ''OTEL_LOGS_EXPORT_ENABLED'' (px_bool px) True (\<lambda>x r. r\<lparr>os_logs_export_enabled := x\<rparr>),
      with_default ''OTEL_TRACE_SAMPLE_RATIO'' (constrained (\<lambda>x. 0 \<le> x \<and> x \<le> 1) (px_float px)) 1
        (\<lambda>x r. r\<lparr>os_trace_sample_ratio := x\<rparr>),
      with_default ''JSON_LOGS'' (px_bool px) True (\<lambda>x r. r\<lparr>os_json_logs := x\<rparr>),
      with_default ''LOG_LEVEL'' Some ''INFO'' (\<lambda>x r. r\<lparr>os_log_level := x\<rparr>)]"

record settings =
  st_db_flush_interval :: int
  st_dead_stream_cleanup_interval :: int
  st_stream_reconcile_interval :: int
  st_reddit :: reddit_settings
  st_kafka :: kafka_settings
  st_redis :: redis_settings
  st_postgres :: postgres_settings
  st_schema :: schema_settings
  st_observability :: observability_settings

definition interval_fields :: "pydantic \<Rightarrow> settings field_spec list" where
  "interval_fields px =
     [with_default ''DB_FLUSH_INTERVAL'' (px_int px) 10 (\<lambda>x r. r\<lparr>st_db_flush_interval := x\<rparr>),
      with_default ''DEAD_STREAM_CLEANUP_INTERVAL'' (px_int px) 120 (\<lambda>x r. r\<lparr>st_dead_stream_cleanup_interval := x\<rparr>),
      with_default ''STREAM_RECONCILE_INTERVAL'' (constrained (\<lambda>x. 0 < x) (px_int px)) 10
        (\<lambda>x r. r\<lparr>st_stream_reconcile_interval := x\<rparr>)]"

subsection \<open>Reading them\<close>

text \<open>A record that every field of its class is still to be assigned in.\<close>

definition blank_settings :: settings where
  "blank_settings =
     \<lparr>st_db_flush_interval = 10, st_dead_stream_cleanup_interval = 120, st_stream_reconcile_interval = 10,
      st_reddit = \<lparr>rds_client_id = [], rds_client_secret = [], rds_user_agent = []\<rparr>,
      st_kafka = \<lparr>ks_bootstrap_servers = [], ks_raw_text_topic = [], ks_delivery_wait_timeout = 300, ks_security_protocol = [],
        ks_sasl_mechanism = [], ks_sasl_username = None, ks_sasl_password = None, ks_ssl_ca_location = None\<rparr>,
      st_redis = \<lparr>rss_host = [], rss_port = 0, rss_user = [], rss_password = [], rss_use_ssl = False\<rparr>,
      st_postgres = \<lparr>ps_host = [], ps_port = 0, ps_user = [], ps_password = [], ps_db = []\<rparr>,
      st_schema = \<lparr>ss_use_registry = True, ss_registry_name = [], ss_schema_name = [], ss_schema_version = 1, ss_region = []\<rparr>,
      st_observability = \<lparr>os_service_name = [], os_service_version = [], os_environment = [], os_otlp_endpoint = None,
        os_traces_enabled = True, os_logs_export_enabled = True, os_trace_sample_ratio = 1, os_json_logs = True, os_log_level = []\<rparr>\<rparr>"

definition accepted :: "'e + 'a \<Rightarrow> 'a option" where
  "accepted r = (case r of Inl _ \<Rightarrow> None | Inr x \<Rightarrow> Some x)"

definition read_section :: "pydantic \<Rightarrow> string \<Rightarrow> 'r field_spec list \<Rightarrow> environ \<Rightarrow> 'r \<Rightarrow> 'r option" where
  "read_section px name specs env blank =
     (case env name of
        None \<Rightarrow> accepted (read_fields specs env blank)
      | Some text \<Rightarrow> Option.bind (px_section px name text env) (\<lambda>env'. accepted (read_fields specs env' blank)))"

text \<open>\<^verbatim>\<open>Settings()\<close>; \<open>None\<close> stands for the exception.\<close>

definition read_settings :: "pydantic \<Rightarrow> environ \<Rightarrow> settings option" where
  "read_settings px env =
     Option.bind (accepted (read_fields (interval_fields px) env blank_settings)) (\<lambda>s.
     Option.bind (read_section px ''REDDIT'' reddit_fields env (st_reddit s)) (\<lambda>reddit.
     Option.bind (read_section px ''KAFKA'' (kafka_fields px) env (st_kafka s)) (\<lambda>kafka.
     Option.bind (read_section px ''REDIS'' (redis_fields px) env (st_redis s)) (\<lambda>redis.
     Option.bind (read_section px ''POSTGRES'' (postgres_fields px) env (st_postgres s)) (\<lambda>postgres.
     Option.bind (read_section px ''SCHEMA_SETTINGS'' (schema_fields px) env (st_schema s)) (\<lambda>schema.
     Option.bind (read_section px ''OBSERVABILITY'' (observability_fields px) env (st_observability s)) (\<lambda>observability.
     Some (s\<lparr>st_reddit := reddit, st_kafka := kafka, st_redis := redis, st_postgres := postgres, st_schema := schema,
       st_observability := observability\<rparr>))))))))"

subsection \<open>The database's URL\<close>

text \<open>src/db.py.\<close>

definition build_postgres_url :: "postgres_settings \<Rightarrow> string" where
  "build_postgres_url settings =
     ''postgresql+asyncpg://'' @ ps_user settings @ '':'' @ ps_password settings @ ''@'' @ ps_host settings @ '':'' @
     show_int (ps_port settings) @ ''/'' @ ps_db settings"

end
