(* ===== verification/Parts.thy ===== *)
theory Parts
  imports Outcomes Rely
begin

section \<open>Programs of a part, and the values programs return\<close>

text \<open>
  A process holds several objects, and a system several processes: \<open>embed get upd p\<close> runs a program of one
  object as a program of whatever contains it. The locale \<open>part\<close> states the laws such a containment obeys and
  what they give for runs. \<open>returns R p\<close> says that every value \<open>p\<close> can return satisfies \<open>R\<close>, as
  \<open>raises\<close> does for exceptions; with it the calls of a continuation need to be bounded only for
  the values that can reach it.
\<close>

subsection \<open>A part of a bigger state\<close>

primrec embed :: "('m \<Rightarrow> 'l) \<Rightarrow> ('l \<Rightarrow> 'm \<Rightarrow> 'm) \<Rightarrow> ('l, 'a) prog \<Rightarrow> ('m, 'a) prog" where
  "embed get upd (Ret x) = Ret x"
| "embed get upd (Raise e) = Raise e"
| "embed get upd (Call c k) = Call c (\<lambda>r. embed get upd (k r))"
| "embed get upd (Get_Local k) = Get_Local (\<lambda>m. embed get upd (k (get m)))"
| "embed get upd (Put_Local l p) = Get_Local (\<lambda>m. Put_Local (upd l m) (embed get upd p))"
| "embed get upd (Emit x p) = Emit x (embed get upd p)"

lemma issues_embed [keeps_rules]: "issues P p \<Longrightarrow> issues P (embed get upd p)"
  by (induction p) auto

lemma raises_embed [raises_rules]: "raises P p \<Longrightarrow> raises P (embed get upd p)"
  by (induction p) auto

locale part =
  fixes get :: "'m \<Rightarrow> 'l" and upd :: "'l \<Rightarrow> 'm \<Rightarrow> 'm"
  assumes get_upd: "get (upd l m) = l"
    and upd_get: "upd (get m) m = m"
    and upd_upd: "upd l (upd l' m) = upd l m"
begin

text \<open>The part's program changes the part as it would alone, and nothing else.\<close>

lemma run_embed:
  "run S (embed get upd p) m w = (case run S p (get m) w of (r, l', w') \<Rightarrow> (r, upd l' m, w'))"
proof (induction p arbitrary: m w)
  case (Call c k)
  obtain r w1 where "ask S c w = (r, w1)" by (cases "ask S c w")
  with Call.IH [OF rangeI, of r m w1] show ?case by simp
next
  case (Get_Local k)
  from Get_Local.IH [OF rangeI, of "get m" m w] show ?case by simp
next
  case (Put_Local l p)
  from Put_Local.IH [of "upd l m" w] show ?case by (simp add: get_upd upd_upd)
qed (simp_all add: upd_get)

lemma wp_embed: "wp (embed get upd p) Q m v = wp p (\<lambda>r l'. Q r (upd l' m)) (get m) v"
  by (induction p arbitrary: m v) (simp_all add: upd_get get_upd upd_upd)

lemma mild_embed: "(\<And>l m. T m (upd l m)) \<Longrightarrow> mild T (embed get upd p)"
proof -
  assume t: "\<And>l m. T m (upd l m)"
  have "puts T (embed get upd p) m" for m
    by (induction p arbitrary: m) (simp_all add: t)
  then show ?thesis by (simp add: mild_def)
qed

end

subsection \<open>The values of a program\<close>

primrec returns :: "('a \<Rightarrow> bool) \<Rightarrow> ('l, 'a) prog \<Rightarrow> bool" where
  "returns R (Ret x) = R x"
| "returns R (Raise e) = True"
| "returns R (Call c k) = (\<forall>r. returns R (k r))"
| "returns R (Get_Local k) = (\<forall>l. returns R (k l))"
| "returns R (Put_Local l p) = returns R p"
| "returns R (Emit m p) = returns R p"

named_theorems returns_rules \<open>the values of composed programs\<close>

lemma returns_bind [returns_rules]: "(\<And>x. returns R (f x)) \<Longrightarrow> returns R (bind p f)"
  by (induction p) auto

lemma returns_seq: "returns R' p \<Longrightarrow> (\<And>x. R' x \<Longrightarrow> returns R (f x)) \<Longrightarrow> returns R (bind p f)"
  by (induction p) auto

lemma returns_andthen [returns_rules]: "returns R q \<Longrightarrow> returns R (andthen p q)"
  by (simp add: andthen_def returns_bind)

lemma returns_except [returns_rules]: "returns R p \<Longrightarrow> (\<And>e. returns R (h e)) \<Longrightarrow> returns R (except g p h)"
  by (induction p) auto

lemma returns_if [returns_rules]:
  "(b \<Longrightarrow> returns R p) \<Longrightarrow> (\<not> b \<Longrightarrow> returns R q) \<Longrightarrow> returns R (if b then p else q)"
  by simp

lemma returns_basic [returns_rules]: "R x \<Longrightarrow> returns R (Ret x)" "returns R (Raise e)"
  by simp_all

text \<open>A continuation makes calls only on the values that reach it.\<close>

lemma issues_seq:
  "issues P p \<Longrightarrow> returns R p \<Longrightarrow> (\<And>x. R x \<Longrightarrow> issues P (f x)) \<Longrightarrow> issues P (bind p f)"
  by (induction p) auto

end
