(* ===== verification/App.thy ===== *)
theory App
  imports Config Manager Worker Flusher Parts
begin

section \<open>The application: endpoints, readiness and its life\<close>

text \<open>
  src/app.py with the clients of src/db.py and src/redis\_client.py. \<open>app\<close> holds the application's objects and the
  modules' global clients: a client is known by a number, given when it is made. \<open>app_env\<close> is
  what the settings fix. The manager, the flusher and the cleanup are parts of the state, in which their own programs
  run (\<open>embed\<close>). Constructing a client only records it; a client's answers are calls.

  An endpoint returns a \<open>response\<close>: raising \<^verbatim>\<open>HTTPException\<close>, always the last thing an endpoint does, is an
  \<open>Http_Error\<close>. FastAPI has checked the length of the subreddit's name.
\<close>

record app_env =
  ae_instance_id :: string
  ae_kafka :: kafka_settings
  ae_timeout_text :: string
  ae_rounds :: nat
  ae_serializer_failure :: "pyexn option"  \<comment> \<open>what \<^verbatim>\<open>get_serializer\<close> raises while a worker is made\<close>

record app =
  ap_manager :: manager
  ap_flusher :: background
  ap_cleanup :: background
  ap_reddit :: "nat option"  \<comment> \<open>\<^verbatim>\<open>_reddit_client\<close>\<close>
  ap_state_reddit :: "nat option"  \<comment> \<open>\<^verbatim>\<open>app.state.reddit_client\<close>\<close>
  ap_producer :: "nat option"  \<comment> \<open>\<^verbatim>\<open>_kafka_producer\<close>\<close>
  ap_redis :: "nat option"  \<comment> \<open>\<^verbatim>\<open>_redis\<close> of src/redis\_client.py\<close>
  ap_state_redis :: "nat option"  \<comment> \<open>\<^verbatim>\<open>app.state.redis\<close>\<close>
  ap_engine :: "nat option"  \<comment> \<open>\<^verbatim>\<open>_engine\<close> of src/db.py\<close>
  ap_sessions :: bool  \<comment> \<open>whether there is a session maker\<close>
  ap_made :: nat  \<comment> \<open>how many clients were made\<close>

subsection \<open>Clients\<close>

definition init_db :: "(app, unit) prog" where
  "init_db = modify_local (\<lambda>app. app\<lparr>ap_engine := Some (ap_made app), ap_sessions := True, ap_made := ap_made app + 1\<rparr>)"

definition close_db :: "(app, unit) prog" where
  "close_db =
     bind get_local (\<lambda>app.
     if ap_engine app = None then skip
     else andthen (unit_call (Close_Client ''postgres'')) (modify_local (\<lambda>app. app\<lparr>ap_engine := None\<rparr>)))"

text \<open>Entering \<^verbatim>\<open>get_session\<close>.\<close>

definition get_session :: "(app, unit) prog" where
  "get_session =
     bind get_local (\<lambda>app.
     if \<not> ap_sessions app then Raise (runtime_error ''Database not initialized. Call init_db() first.'') else skip)"

definition get_engine :: "(app, nat option) prog" where
  "get_engine = bind get_local (\<lambda>app. Ret (ap_engine app))"

definition get_redis :: "(app, nat option) prog" where
  "get_redis =
     andthen (modify_local (\<lambda>app. if ap_redis app = None then app\<lparr>ap_redis := Some (ap_made app), ap_made := ap_made app + 1\<rparr> else app))
       (bind get_local (\<lambda>app. Ret (ap_redis app)))"

definition close_redis :: "(app, unit) prog" where
  "close_redis =
     bind get_local (\<lambda>app.
     if ap_redis app = None then skip
     else
       andthen (except is_exception
           (andthen (unit_call (Close_Client ''redis'')) (unit_call (Close_Client ''redis connection pool''))) (\<lambda>_. skip))
         (modify_local (\<lambda>app. app\<lparr>ap_redis := None\<rparr>)))"

definition get_reddit_client :: "(app, nat option) prog" where
  "get_reddit_client =
     andthen (modify_local (\<lambda>app. if ap_reddit app = None then app\<lparr>ap_reddit := Some (ap_made app), ap_made := ap_made app + 1\<rparr> else app))
       (bind get_local (\<lambda>app. Ret (ap_reddit app)))"

definition build_kafka_producer_config :: "kafka_settings \<Rightarrow> dict" where
  "build_kafka_producer_config kafka =
     [(''bootstrap.servers'', ks_bootstrap_servers kafka)] @
     (if ks_security_protocol kafka \<noteq> ''PLAINTEXT'' then [(''security.protocol'', ks_security_protocol kafka)] else []) @
     (if truthy (ks_sasl_username kafka) \<and> ks_sasl_password kafka \<noteq> None then
        [(''sasl.mechanisms'', ks_sasl_mechanism kafka), (''sasl.username'', or_empty (ks_sasl_username kafka)),
         (''sasl.password'', or_empty (ks_sasl_password kafka))] else []) @
     (if truthy (ks_ssl_ca_location kafka) then [(''ssl.ca.location'', or_empty (ks_ssl_ca_location kafka))] else [])"

definition get_kafka_producer :: "dict \<Rightarrow> (app, nat option) prog" where
  "get_kafka_producer config =
     andthen (modify_local (\<lambda>app. if ap_producer app = None then app\<lparr>ap_producer := Some (ap_made app), ap_made := ap_made app + 1\<rparr> else app))
       (bind get_local (\<lambda>app. Ret (ap_producer app)))"

definition get_kafka_producer_from_settings :: "app_env \<Rightarrow> (app, nat option) prog" where
  "get_kafka_producer_from_settings env = get_kafka_producer (build_kafka_producer_config (ae_kafka env))"

definition flush_kafka_producer :: "int \<Rightarrow> (app, unit) prog" where
  "flush_kafka_producer timeout =
     bind get_local (\<lambda>app.
     let kafka_producer = ap_producer app in
     if kafka_producer = None then skip
     else
       finally_do (except is_exception (bind (flush_producer timeout) (\<lambda>_. skip)) (\<lambda>_. skip))
         (modify_local (\<lambda>app. if ap_producer app = kafka_producer then app\<lparr>ap_producer := None\<rparr> else app)))"

subsection \<open>The runner\<close>

text \<open>What the manager starts for a stream, on the attributes of the worker it makes.\<close>

definition microseconds :: "rat \<Rightarrow> int" where
  "microseconds seconds = \<lfloor>seconds * 1000000\<rfloor>"

definition worker_of :: "app_env \<Rightarrow> string \<Rightarrow> string \<Rightarrow> string \<Rightarrow> worker_env" where
  "worker_of env subreddit stream_id lock_token =
     \<lparr>we_subreddit = subreddit, we_stream_id = stream_id, we_instance_id = ae_instance_id env, we_topic = ks_raw_text_topic (ae_kafka env),
      we_lock_token = lock_token, we_delivery_timeout = microseconds (ks_delivery_wait_timeout (ae_kafka env)), we_timeout_text = ae_timeout_text env,
      we_db = True\<rparr>"

definition key_error :: "string \<Rightarrow> pyexn" where
  "key_error k = \<lparr>etype = ''KeyError'', emro = [Key_Error, Py_Exception, Base_Exception], estr = k, eretry = 0\<rparr>"

definition runner :: "app_env \<Rightarrow> string \<Rightarrow> string option \<Rightarrow> (worker, unit) prog" where
  "runner env subreddit lock_token =
     (case lock_token of
        None \<Rightarrow> Raise (runtime_error (''No lock token supplied for subreddit '' @ subreddit))
      | Some token \<Rightarrow>
          bind (get_stream_by_subreddit subreddit) (\<lambda>stream_meta. case stream_meta of
            None \<Rightarrow> Raise (runtime_error (''Stream not found for subreddit '' @ subreddit))
          | Some meta \<Rightarrow>
              (case dict_get (sd_fields meta) ''id'' of
                 None \<Rightarrow> Raise (key_error ''id'')
               | Some stream_id \<Rightarrow>
                   (case ae_serializer_failure env of
                      Some e \<Rightarrow> Raise e
                    | None \<Rightarrow> andthen (modify_local (\<lambda>_. new_worker)) (run_worker (worker_of env subreddit stream_id token))))))"

subsection \<open>The endpoints\<close>

datatype 'a response = Answer 'a | Http_Error nat string

definition manager_of :: "app_env \<Rightarrow> manager_env" where
  "manager_of env = \<lparr>me_instance_id = ae_instance_id env, me_lock_manager = True, me_stop_poll = 1000, me_db = True,
     me_rounds = ae_rounds env\<rparr>"

abbreviation on_manager :: "(manager, 'a) prog \<Rightarrow> (app, 'a) prog" where
  "on_manager \<equiv> embed ap_manager (\<lambda>m app. app\<lparr>ap_manager := m\<rparr>)"

abbreviation on_flusher :: "(background, 'a) prog \<Rightarrow> (app, 'a) prog" where
  "on_flusher \<equiv> embed ap_flusher (\<lambda>b app. app\<lparr>ap_flusher := b\<rparr>)"

abbreviation on_cleanup :: "(background, 'a) prog \<Rightarrow> (app, 'a) prog" where
  "on_cleanup \<equiv> embed ap_cleanup (\<lambda>b app. app\<lparr>ap_cleanup := b\<rparr>)"

interpretation manager_part: part ap_manager "\<lambda>m app. app\<lparr>ap_manager := m\<rparr>"
  by unfold_locales simp_all

interpretation flusher_part: part ap_flusher "\<lambda>b app. app\<lparr>ap_flusher := b\<rparr>"
  by unfold_locales simp_all

interpretation cleanup_part: part ap_cleanup "\<lambda>b app. app\<lparr>ap_cleanup := b\<rparr>"
  by unfold_locales simp_all

definition health :: "(app, dict response) prog" where
  "health = Ret (Answer [(''status'', ''ok'')])"

definition quoted :: "string \<Rightarrow> string" where
  "quoted s = CHR 0x27 # s @ [CHR 0x27]"

definition validate_subreddit_access :: "string \<Rightarrow> ('l, (nat \<times> string) option) prog" where
  "validate_subreddit_access subreddit =
     bind (attempt (andthen (unit_call (Reddit_Subreddit subreddit)) (unit_call (Load_Subreddit subreddit)))) (\<lambda>r. case r of
       Inr _ \<Rightarrow> Ret None
     | Inl e \<Rightarrow>
         if isinstance e [Not_Found] then Ret (Some (404, ''Subreddit '' @ quoted subreddit @ '' not found''))
         else if isinstance e [Forbidden] then Ret (Some (403, ''Subreddit '' @ quoted subreddit @ '' is private or forbidden''))
         else if is_exception e then Ret (Some (503, ''Error validating subreddit''))
         else Raise e)"

definition create_stream_endpoint :: "app_env \<Rightarrow> string \<Rightarrow> (app, dict response) prog" where
  "create_stream_endpoint env subreddit =
     bind get_local (\<lambda>app.
     if ap_state_reddit app = None then Ret (Http_Error 503 ''Reddit client not available'')
     else
       bind (validate_subreddit_access subreddit) (\<lambda>refused. case refused of
         Some (status_code, detail) \<Rightarrow> Ret (Http_Error status_code detail)
       | None \<Rightarrow>
           bind (attempt (on_manager (start_stream (manager_of env) subreddit []))) (\<lambda>r. case r of
             Inr meta \<Rightarrow> Ret (Answer meta)
           | Inl e \<Rightarrow>
               if isinstance e [Stream_Exists_Error] then Ret (Http_Error 409 (estr e))
               else if isinstance e [Runtime_Error] then Ret (Http_Error 409 (estr e))
               else Raise e)))"

definition list_streams_endpoint :: "(app, stream_data list response) prog" where
  "list_streams_endpoint = bind list_streams (\<lambda>result. Ret (Answer result))"

definition stop_stream_endpoint_with ::
    "(string \<Rightarrow> (manager, unit) prog) \<Rightarrow> app_env \<Rightarrow> string \<Rightarrow> (app, dict response) prog" where
  "stop_stream_endpoint_with join env stream_id =
     bind (attempt (
       bind (get_stream stream_id) (\<lambda>meta.
       let status = dict_get (sd_fields meta) ''status'' in
       if status \<in> {Some ''stopped'', Some ''error'', Some ''inactive''}
       then Ret [(''stream_id'', stream_id), (''status'', or_empty status)]
       else
         andthen (on_manager (stop_stream_with join (manager_of env) stream_id))
           (Ret [(''stream_id'', stream_id), (''status'', ''stopping'')])))) (\<lambda>r. case r of
       Inr answer \<Rightarrow> Ret (Answer answer)
     | Inl e \<Rightarrow> if isinstance e [Stream_Not_Found_Error] then Ret (Http_Error 404 ''Stream not found'') else Raise e)"

definition stop_stream_endpoint :: "app_env \<Rightarrow> string \<Rightarrow> (app, dict response) prog" where
  "stop_stream_endpoint env stream_id = stop_stream_endpoint_with join_task env stream_id"

subsection \<open>Readiness\<close>

text \<open>\<^verbatim>\<open>try: checks[...] = ... except Exception: logger.exception(...)\<close>.\<close>

definition checked_dependency :: "('l, bool) prog \<Rightarrow> ('l, bool) prog" where
  "checked_dependency p = except is_exception p (\<lambda>_. Ret False)"

definition check_redis :: "(app, bool) prog" where
  "check_redis = checked_dependency (bind get_local (\<lambda>app. if ap_state_redis app = None then Ret False else probe ''redis''))"

definition check_postgres :: "(app, bool) prog" where
  "check_postgres = checked_dependency (andthen get_session (bind (probe ''postgres'') (\<lambda>_. Ret True)))"

definition check_kafka :: "(app, bool) prog" where
  "check_kafka = checked_dependency (bind get_local (\<lambda>app. if ap_producer app = None then Ret False else list_topics))"

definition readiness :: "(app, nat \<times> (string \<times> bool) list) prog" where
  "readiness =
     bind get_local (\<lambda>app.
     bind check_redis (\<lambda>redis.
     bind check_postgres (\<lambda>postgres.
     bind check_kafka (\<lambda>kafka.
     let checks = [(''postgres'', postgres), (''redis'', redis), (''kafka'', kafka), (''reddit'', ap_state_reddit app \<noteq> None)] in
     andthen (for_each checks (\<lambda>(dependency, is_ready).
         emit (Gauge_Set ''dependency_ready'' [dependency] (if is_ready then 1 else 0))))
       (Ret (if list_all snd checks then 200 else 503, checks))))))"

subsection \<open>Starting and stopping the application\<close>

definition create_runner :: "app_env \<Rightarrow> (app, string \<Rightarrow> string option \<Rightarrow> (worker, unit) prog) prog" where
  "create_runner env = andthen get_reddit_client (andthen (get_kafka_producer_from_settings env) (Ret (runner env)))"

text \<open>Before \<^verbatim>\<open>yield\<close>.\<close>

definition startup :: "app_env \<Rightarrow> (app, unit) prog" where
  "startup env =
     andthen init_db
    (bind get_redis (\<lambda>redis.
     andthen (bind (probe ''redis'') (\<lambda>_. skip))
    (andthen (modify_local (\<lambda>app. app\<lparr>ap_state_redis := redis\<rparr>))
    (bind get_reddit_client (\<lambda>reddit.
     andthen (modify_local (\<lambda>app. app\<lparr>ap_state_reddit := reddit\<rparr>))
    (bind (create_runner env) (\<lambda>_.
     andthen (modify_local (\<lambda>app. app\<lparr>ap_manager := new_manager\<rparr>))
    (bind get_engine (\<lambda>engine.
     if engine = None then Raise (runtime_error ''Engine not initialized after init_db'')
     else
       andthen (modify_local (\<lambda>app. app\<lparr>ap_flusher := \<lparr>bg_running = False, bg_task = False\<rparr>\<rparr>))
      (andthen (on_flusher start_flusher)
      (andthen (modify_local (\<lambda>app. app\<lparr>ap_cleanup := \<lparr>bg_running = False, bg_task = False\<rparr>\<rparr>))
      (andthen (on_cleanup start_background)
        (on_manager (start_reconciliation (manager_of env)))))))))))))))"

text \<open>\<^verbatim>\<open>shutdown_observability\<close> follows it.\<close>

definition close_reddit :: "(app, unit) prog" where
  "close_reddit =
     bind get_local (\<lambda>app.
     let reddit_client = ap_state_reddit app in
     if reddit_client = None then skip
     else
       finally_do (unit_call (Close_Client ''reddit''))
         (modify_local (\<lambda>app. if ap_reddit app = reddit_client then app\<lparr>ap_reddit := None\<rparr> else app)))"

definition shutdown :: "app_env \<Rightarrow> (app, unit) prog" where
  "shutdown env =
     andthen (on_cleanup (stop_background ''cleanup''))
    (andthen (on_manager (stop_all (manager_of env)))
    (andthen (flush_kafka_producer 5000)
    (andthen (except is_exception (flush (ae_instance_id env)) (\<lambda>_. skip))
    (andthen (on_flusher (stop_flusher ''flusher''))
    (andthen close_reddit
    (andthen close_redis close_db))))))"

end
