(* ===== verification/Telemetry.thy ===== *)
theory Telemetry
  imports App "HOL-Library.Sublist"
begin

section \<open>Telemetry\<close>

text \<open>
  src/observability/telemetry.py. The middleware around every request is a program whose attributes are the request's
  context: \<^verbatim>\<open>_request_id\<close>, the route that the router noted in \<^verbatim>\<open>request.scope\<close>, and the span; \<open>call_next\<close>, what
  FastAPI does with the request, is a parameter. Log lines are left out; header names are
  lower case, as ASGI gives them.

  The second half is the module's own state: which providers there are, which one is in force, what the root
  logger's handlers are, and which engines have spans attached. \<open>start_lifespan\<close> is the start of the
  application from its environment (theory Config).
\<close>

subsection \<open>The middleware\<close>

record http_request =
  rq_method :: string
  rq_path :: string
  rq_headers :: dict

record http_response =
  rs_status :: nat
  rs_headers :: dict

text \<open>The server span of a request as it ends: its last name, the attributes, an exception that was recorded and whether
  its status is \<^verbatim>\<open>ERROR\<close>. Its parent and the attribute \<^verbatim>\<open>server.address\<close> are left out.\<close>

record http_span =
  sp_name :: string
  sp_method :: string
  sp_path :: string
  sp_route :: string
  sp_status :: nat
  sp_exception :: "pyexn option"
  sp_error :: bool

record http_context =
  cx_request_id :: string
  cx_route :: "string option"
  cx_span :: "http_span option"

definition request_route :: "'a http_context_scheme \<Rightarrow> string" where
  "request_route cx = (if truthy (cx_route cx) then or_empty (cx_route cx) else ''unmatched'')"

definition probe_paths :: "string list" where
  "probe_paths = [''/health'', ''/ready'', ''/metrics'']"

definition with_request_id :: "string \<Rightarrow> http_response \<Rightarrow> http_response" where
  "with_request_id request_id response =
     response\<lparr>rs_headers := AList.update ''x-request-id'' request_id (rs_headers response)\<rparr>"

definition correlation_id :: "dict \<Rightarrow> ('l, string) prog" where
  "correlation_id headers =
     (let request_id = or_empty (dict_get headers ''x-request-id'') in
      if request_id = [] \<or> 128 < length request_id then uuid4 else Ret request_id)"

definition set_request_id :: "string \<Rightarrow> ('a http_context_scheme, unit) prog" where
  "set_request_id i = modify_local (\<lambda>cx. cx\<lparr>cx_request_id := i\<rparr>)"

text \<open>\<^verbatim>\<open>except Exception\<close> and \<^verbatim>\<open>finally\<close> inside the span.\<close>

definition ended_span :: "http_request \<Rightarrow> string \<Rightarrow> nat \<Rightarrow> pyexn + 'a \<Rightarrow> http_span" where
  "ended_span request route status_code r =
     (let error = (case r of Inl e \<Rightarrow> if is_exception e then Some e else None | Inr _ \<Rightarrow> None) in
      \<lparr>sp_name = rq_method request @ '' '' @ route, sp_method = rq_method request, sp_path = rq_path request,
       sp_route = route, sp_status = status_code, sp_exception = error,
       sp_error = (error \<noteq> None \<or> 500 \<le> status_code)\<rparr>)"

definition set_span :: "http_span \<Rightarrow> ('a http_context_scheme, unit) prog" where
  "set_span sp = modify_local (\<lambda>cx. cx\<lparr>cx_span := Some sp\<rparr>)"

text \<open>The last part, after \<^verbatim>\<open>call_next\<close> has returned or raised \<open>r\<close>.\<close>

definition finish_request :: "http_request \<Rightarrow> string \<Rightarrow> string \<Rightarrow> pyexn + http_response \<Rightarrow> ('a http_context_scheme, http_response) prog" where
  "finish_request request token request_id r =
     (let method = rq_method request;
          status_code = (case r of Inl _ \<Rightarrow> 500 | Inr response \<Rightarrow> rs_status response) in
      bind get_local (\<lambda>cx.
      let route = request_route cx in
      andthen (set_span (ended_span request route status_code r))
     (andthen (emit (Gauge_Dec ''http_in_progress'' [method]))
     (andthen (emit (Inc ''http_requests'' [method, route, show_nat status_code]))
     (andthen (emit (Observe ''http_request_duration'' [method, route]))
     (andthen (set_request_id token)
       (case r of Inl e \<Rightarrow> Raise e | Inr response \<Rightarrow> Ret (with_request_id request_id response))))))))"

definition observe_http_request ::
    "http_request \<Rightarrow> (http_request \<Rightarrow> ('a http_context_scheme, http_response) prog) \<Rightarrow> ('a http_context_scheme, http_response) prog" where
  "observe_http_request request call_next =
     bind (correlation_id (rq_headers request)) (\<lambda>request_id.
     bind get_local (\<lambda>cx.
     andthen (set_request_id request_id)
       (if List.member probe_paths (rq_path request) then
          finally_do (bind (call_next request) (\<lambda>response. Ret (with_request_id request_id response)))
            (set_request_id (cx_request_id cx))
        else
          andthen (emit (Gauge_Inc ''http_in_progress'' [rq_method request]))
            (bind (attempt (call_next request)) (finish_request request (cx_request_id cx) request_id)))))"

subsection \<open>Setting up and tearing down\<close>

datatype log_handler = Console bool | Otel nat | Foreign_Handler nat

record runtime =
  rt_tracer :: nat
  rt_logger :: "nat option"
  rt_handler :: "log_handler option"

text \<open>Providers and exporters are known by a number, given when they are made. OpenTelemetry lets the
  process's tracer provider be set once: a later call only logs a warning (\<open>set_tracer_provider\<close>).\<close>

record telemetry =
  tl_runtime :: "runtime option"
  tl_traces :: bool
  tl_engines :: "nat set"  \<comment> \<open>\<^verbatim>\<open>_sqlalchemy_engines\<close>, the addresses of engines\<close>
  tl_handlers :: "log_handler list"
  tl_level :: string
  tl_global :: "nat option"
  tl_samplers :: "(nat \<times> rat) list"  \<comment> \<open>tracer providers with the ratio of traces they sample\<close>
  tl_exports :: "nat list"  \<comment> \<open>providers with an exporter\<close>
  tl_stopped :: "nat list"
  tl_libraries :: bool  \<comment> \<open>whether aiohttp, botocore and redis are instrumented\<close>
  tl_made :: nat

definition set_tracer_provider :: "nat \<Rightarrow> telemetry \<Rightarrow> telemetry" where
  "set_tracer_provider p st = (case tl_global st of None \<Rightarrow> st\<lparr>tl_global := Some p\<rparr> | Some _ \<Rightarrow> st)"

fun is_console :: "log_handler \<Rightarrow> bool" where
  "is_console (Console _) = True"
| "is_console _ = False"

definition upper_char :: "char \<Rightarrow> char" where
  "upper_char c = (let n = of_char c :: nat in if 97 \<le> n \<and> n \<le> 122 then char_of (n - 32) else c)"

definition configure_console_logging :: "observability_settings \<Rightarrow> telemetry \<Rightarrow> telemetry" where
  "configure_console_logging settings st =
     st\<lparr>tl_level := map upper_char (os_log_level settings),
        tl_handlers := filter (\<lambda>h. \<not> is_console h) (tl_handlers st) @ [Console (os_json_logs settings)]\<rparr>"

definition add_trace_exporter :: "observability_settings \<Rightarrow> nat \<Rightarrow> telemetry \<Rightarrow> telemetry" where
  "add_trace_exporter settings p st =
     (if truthy (os_otlp_endpoint settings) \<and> os_traces_enabled settings then st\<lparr>tl_exports := p # tl_exports st\<rparr> else st)"

definition add_log_exporter :: "observability_settings \<Rightarrow> telemetry \<Rightarrow> nat option \<times> telemetry" where
  "add_log_exporter settings st =
     (if truthy (os_otlp_endpoint settings) \<and> os_logs_export_enabled settings then
        let p = tl_made st in
        (Some p, st\<lparr>tl_made := p + 1, tl_exports := p # tl_exports st, tl_handlers := tl_handlers st @ [Otel p]\<rparr>)
      else (None, st))"

definition configure_observability :: "observability_settings \<Rightarrow> telemetry \<Rightarrow> runtime \<times> telemetry" where
  "configure_observability settings st =
     (let st0 = configure_console_logging settings st in
      case tl_runtime st0 of
        Some rt \<Rightarrow> (rt, st0)
      | None \<Rightarrow>
          let p = tl_made st0;
              sampling_ratio = (if os_traces_enabled settings then os_trace_sample_ratio settings else 0);
              st1 = st0\<lparr>tl_traces := os_traces_enabled settings, tl_samplers := (p, sampling_ratio) # tl_samplers st0, tl_made := p + 1\<rparr>;
              st2 = add_trace_exporter settings p (set_tracer_provider p st1);
              (logger_provider, st3) = add_log_exporter settings st2;
              st4 = (if os_traces_enabled settings then st3\<lparr>tl_libraries := True\<rparr> else st3);
              rt = \<lparr>rt_tracer = p, rt_logger = logger_provider, rt_handler = map_option Otel logger_provider\<rparr>
          in (rt, st4\<lparr>tl_runtime := Some rt\<rparr>))"

text \<open>\<^verbatim>\<open>setLevel\<close> of the root logger comes first, and knows only these.\<close>

definition level_names :: "string list" where
  "level_names = [''CRITICAL'', ''FATAL'', ''ERROR'', ''WARN'', ''WARNING'', ''INFO'', ''DEBUG'', ''NOTSET'']"

definition configure :: "observability_settings \<Rightarrow> (telemetry, unit) prog" where
  "configure settings =
     (let level = map upper_char (os_log_level settings) in
      if \<not> List.member level_names level then Raise (value_error (''Unknown level: '' @ quoted level))
      else modify_local (\<lambda>st. snd (configure_observability settings st)))"

definition stopped :: "nat \<Rightarrow> telemetry \<Rightarrow> telemetry" where
  "stopped p st = st\<lparr>tl_stopped := p # tl_stopped st\<rparr>"

definition shutdown_observability :: "(telemetry, unit) prog" where
  "shutdown_observability =
     bind get_local (\<lambda>st.
     case tl_runtime st of
       None \<Rightarrow> skip
     | Some rt \<Rightarrow>
         andthen (case rt_handler rt of
             None \<Rightarrow> skip
           | Some h \<Rightarrow> modify_local (\<lambda>st. st\<lparr>tl_handlers := remove1 h (tl_handlers st)\<rparr>))
        (andthen (case rt_logger rt of
             None \<Rightarrow> skip
           | Some p \<Rightarrow> andthen (unit_call (Close_Client ''logger provider'')) (modify_local (stopped p)))
        (andthen (unit_call (Close_Client ''tracer provider''))
        (andthen (modify_local (stopped (rt_tracer rt)))
          (modify_local (\<lambda>st. st\<lparr>tl_traces := False, tl_runtime := None\<rparr>))))))"

text \<open>Whether the engine at an address got its spans.\<close>

definition instrument_sqlalchemy :: "nat \<Rightarrow> telemetry \<Rightarrow> bool \<times> telemetry" where
  "instrument_sqlalchemy engine_id st =
     (if \<not> tl_traces st then (False, st)
      else if engine_id \<in> tl_engines st then (False, st)
      else (True, st\<lparr>tl_engines := insert engine_id (tl_engines st)\<rparr>))"

text \<open>\<open>inject\<close> is what the W3C propagator puts into an empty carrier; the values become bytes.\<close>

definition kafka_trace_headers :: "dict \<Rightarrow> telemetry \<Rightarrow> dict" where
  "kafka_trace_headers inject st = (if \<not> tl_traces st then [] else dict_update inject [])"

subsection \<open>The log line\<close>

record log_record =
  lr_level :: string
  lr_logger :: string
  lr_message :: string
  lr_extra :: "string \<Rightarrow> string option"  \<comment> \<open>the attributes passed as \<^verbatim>\<open>extra\<close>, as text\<close>
  lr_exception :: "string option"

text \<open>\<^verbatim>\<open>_DropTelemetryInternals\<close>, the filter of the handler that exports.\<close>

definition drop_telemetry_internals :: "log_record \<Rightarrow> bool" where
  "drop_telemetry_internals entry =
     (\<not> (prefix ''opentelemetry'' (lr_logger entry) \<or> prefix ''grpc'' (lr_logger entry)))"

definition log_attributes :: "string list" where
  "log_attributes = [''event'', ''stream_id'', ''subreddit'', ''error_type'', ''recoverable'', ''duration_ms'',
     ''http_method'', ''http_route'', ''status_code'']"

text \<open>The payload of \<^verbatim>\<open>JsonLogFormatter.format\<close>; \<open>span_context\<close> holds the ids of a valid span context.\<close>

definition log_payload ::
    "observability_settings \<Rightarrow> string \<Rightarrow> string \<Rightarrow> string \<Rightarrow> (string \<times> string) option \<Rightarrow> log_record \<Rightarrow> dict" where
  "log_payload settings instance_id timestamp request_id span_context entry =
     [(''timestamp'', timestamp), (''severity'', lr_level entry), (''service'', os_service_name settings),
      (''environment'', os_environment settings), (''instance_id'', instance_id), (''logger'', lr_logger entry),
      (''message'', lr_message entry)] @
     (if request_id \<noteq> [] then [(''request_id'', request_id)] else []) @
     (case span_context of None \<Rightarrow> [] | Some (trace_id, span_id) \<Rightarrow> [(''trace_id'', trace_id), (''span_id'', span_id)]) @
     List.map_filter (\<lambda>a. map_option (\<lambda>x. (a, x)) (lr_extra entry a)) log_attributes @
     (case lr_exception entry of None \<Rightarrow> [] | Some x \<Rightarrow> [(''exception'', x)])"

subsection \<open>The life of a process\<close>

text \<open>The lifespan of src/app.py around \<open>startup\<close> and \<open>shutdown\<close> (theory App): the instance's name and telemetry come
  first and go last.\<close>

record process =
  pr_app :: app
  pr_telemetry :: telemetry
  pr_instance_id :: string

abbreviation on_application :: "(app, 'a) prog \<Rightarrow> (process, 'a) prog" where
  "on_application \<equiv> embed pr_app (\<lambda>a s. s\<lparr>pr_app := a\<rparr>)"

abbreviation on_telemetry :: "(telemetry, 'a) prog \<Rightarrow> (process, 'a) prog" where
  "on_telemetry \<equiv> embed pr_telemetry (\<lambda>t s. s\<lparr>pr_telemetry := t\<rparr>)"

interpretation application_part: part pr_app "\<lambda>a s. s\<lparr>pr_app := a\<rparr>"
  by unfold_locales simp_all

interpretation telemetry_part: part pr_telemetry "\<lambda>t s. s\<lparr>pr_telemetry := t\<rparr>"
  by unfold_locales simp_all

definition start_process :: "observability_settings \<Rightarrow> app_env \<Rightarrow> (process, unit) prog" where
  "start_process settings env =
     bind uuid4 (\<lambda>u.
     let instance_id = take 8 u in
     andthen (modify_local (\<lambda>s. s\<lparr>pr_instance_id := instance_id\<rparr>))
    (andthen (on_telemetry (configure settings))
      (on_application (startup (env\<lparr>ae_instance_id := instance_id\<rparr>)))))"

definition stop_process :: "app_env \<Rightarrow> (process, unit) prog" where
  "stop_process env =
     bind get_local (\<lambda>s.
     andthen (on_application (shutdown (env\<lparr>ae_instance_id := pr_instance_id s\<rparr>)))
       (on_telemetry shutdown_observability))"

text \<open>The lifespan from its first statement: the settings are read before anything else. \<open>show_float\<close> is the text of
  a number of seconds. Starting makes no worker, hence no serializer.\<close>

definition settings_error :: pyexn where
  "settings_error = \<lparr>etype = ''ValidationError'', emro = [Value_Error, Py_Exception, Base_Exception], estr = [], eretry = 0\<rparr>"

definition env_of :: "(rat \<Rightarrow> string) \<Rightarrow> nat \<Rightarrow> settings \<Rightarrow> app_env" where
  "env_of show_float rounds settings =
     \<lparr>ae_instance_id = [], ae_kafka = st_kafka settings,
      ae_timeout_text = show_float (ks_delivery_wait_timeout (st_kafka settings)), ae_rounds = rounds, ae_serializer_failure = None\<rparr>"

definition start_lifespan :: "pydantic \<Rightarrow> (rat \<Rightarrow> string) \<Rightarrow> nat \<Rightarrow> environ \<Rightarrow> (process, settings) prog" where
  "start_lifespan px show_float rounds env =
     (case read_settings px env of
        None \<Rightarrow> Raise settings_error
      | Some settings \<Rightarrow>
          andthen (start_process (st_observability settings) (env_of show_float rounds settings)) (Ret settings))"

end
