(* ===== verification/Requests.thy ===== *)
theory Requests
  imports Telemetry
begin

section \<open>Requests\<close>

text \<open>
  What becomes of an HTTP request in src/app.py: the middleware around the router, and the route's function inside. The
  router and the writing of responses are FastAPI's, parameters of the model: \<open>fw_match\<close> names the route and the function
  with its validated arguments, or an answer of FastAPI's own, and \<open>fw_headers\<close> gives the headers of an answer with a status;
  bodies are left out. \<open>registered\<close> is what the decorators of src/app.py declare, and what \<^verbatim>\<open>FastAPI(lifespan=lifespan)\<close> adds
  by default: the pages of the API's documentation, and the redirection of a path that differs from a declared one by its
  trailing slash.
\<close>

datatype endpoint =
    Health
  | Readiness
  | Metrics_Page
  | Create_Stream string
  | List_Streams
  | Stop_Stream string
  | Documentation_Page
  | Slash_Redirect
  | Refused nat

record framework =
  fw_match :: "http_request \<Rightarrow> string option \<times> endpoint"
  fw_headers :: "nat \<Rightarrow> dict"

definition route_templates :: "string list" where
  "route_templates = [''/health'', ''/ready'', ''/metrics'', ''/streams'', ''/streams/{stream_id}/stop'']"

definition documentation_paths :: "string list" where
  "documentation_paths = [''/docs'', ''/docs/oauth2-redirect'', ''/redoc'', ''/openapi.json'']"

text \<open>The method, the route and the bounds on its arguments. The scope of a request need not name the route of a
  page of FastAPI's own. FastAPI answers 404, 405 or 422 where nothing fits.\<close>

fun registered :: "string \<Rightarrow> string option \<Rightarrow> endpoint \<Rightarrow> bool" where
  "registered method route Health = (method = ''GET'' \<and> route = Some ''/health'')"
| "registered method route Readiness = (method = ''GET'' \<and> route = Some ''/ready'')"
| "registered method route Metrics_Page = (method = ''GET'' \<and> route = Some ''/metrics'')"
| "registered method route (Create_Stream subreddit) =
     (method = ''POST'' \<and> route = Some ''/streams'' \<and> 1 \<le> length subreddit \<and> length subreddit \<le> 255)"
| "registered method route List_Streams = (method = ''GET'' \<and> route = Some ''/streams'')"
| "registered method route (Stop_Stream stream_id) = (method = ''POST'' \<and> route = Some ''/streams/{stream_id}/stop'')"
| "registered method route Documentation_Page =
     (method \<in> {''GET'', ''HEAD''} \<and> (route = None \<or> route \<in> Some ` set documentation_paths))"
| "registered method route Slash_Redirect = (route = None)"
| "registered method route (Refused status_code) =
     ((route = None \<or> route \<in> Some ` set (route_templates @ documentation_paths)) \<and> status_code \<in> {404, 405, 422})"

text \<open>The hypothesis on the router: it follows the declarations.\<close>

definition follows_declarations :: "framework \<Rightarrow> bool" where
  "follows_declarations fw =
     (\<forall>request. registered (rq_method request) (fst (fw_match fw request)) (snd (fw_match fw request)))"

fun status_of :: "'a response \<Rightarrow> nat" where
  "status_of (Answer a) = 200"
| "status_of (Http_Error status_code detail) = status_code"

text \<open>The status a route's function answers with.\<close>

definition answered :: "('l, 'a response) prog \<Rightarrow> ('l, nat) prog" where
  "answered p = bind p (\<lambda>response. Ret (status_of response))"

fun call_endpoint :: "app_env \<Rightarrow> endpoint \<Rightarrow> (app, nat) prog" where
  "call_endpoint env Health = answered health"
| "call_endpoint env Readiness = bind readiness (\<lambda>(status_code, checks). Ret status_code)"
| "call_endpoint env Metrics_Page = Ret 200"
| "call_endpoint env (Create_Stream subreddit) = answered (create_stream_endpoint env subreddit)"
| "call_endpoint env List_Streams = answered list_streams_endpoint"
| "call_endpoint env (Stop_Stream stream_id) = answered (stop_stream_endpoint env stream_id)"
| "call_endpoint env Documentation_Page = Ret 200"
| "call_endpoint env Slash_Redirect = Ret 307"
| "call_endpoint env (Refused status_code) = Ret status_code"

text \<open>The application and the context of the request.\<close>

record server = http_context +
  sv_app :: app

interpretation server_part: part sv_app "\<lambda>a s. s\<lparr>sv_app := a\<rparr>"
  by unfold_locales simp_all

definition call_route :: "framework \<Rightarrow> app_env \<Rightarrow> http_request \<Rightarrow> (server, http_response) prog" where
  "call_route fw env request =
     (case fw_match fw request of (route, endpoint) \<Rightarrow>
      andthen (modify_local (\<lambda>s. s\<lparr>cx_route := route\<rparr>))
     (bind (embed sv_app (\<lambda>a s. s\<lparr>sv_app := a\<rparr>) (call_endpoint env endpoint)) (\<lambda>status_code.
      Ret \<lparr>rs_status = status_code, rs_headers = fw_headers fw status_code\<rparr>)))"

definition serve :: "framework \<Rightarrow> app_env \<Rightarrow> http_request \<Rightarrow> (server, http_response) prog" where
  "serve fw env request = observe_http_request request (call_route fw env)"

end
