(* ===== verification/System.thy ===== *)
theory System
  imports Requests Manager_Spec Worker_Lease
begin

section \<open>The whole system\<close>

text \<open>
  Any number of processes of the service, each with its application's objects, its workers and its background
  tasks, whose programs interleave in any order. Every program any of them runs is \<open>foreign\<close> to a lease whose
  token it was not given: the calls of managers, workers, endpoints and tasks all satisfy \<open>foreign_call\<close> (theory Lock\_Race).
\<close>

subsection \<open>Managers use only tokens of their own making\<close>

definition others_instance :: "string \<Rightarrow> string \<Rightarrow> bool" where
  "others_instance inst tok = (\<forall>u. tok \<noteq> inst @ '':'' @ u)"

definition own_token :: "string \<Rightarrow> string option \<Rightarrow> bool" where
  "own_token inst t = (\<forall>x. t = Some x \<longrightarrow> (\<exists>u. x = inst @ '':'' @ u))"

lemma own_token_differs: "own_token inst t \<Longrightarrow> others_instance inst tok \<Longrightarrow> t \<noteq> Some tok"
  by (auto simp: own_token_def others_instance_def)

lemma returns_acquire [returns_rules]: "returns (own_token inst) (acquire_lock sub inst ttl)"
  unfolding acquire_lock_def Let_def
  by (intro returns_rules) (auto simp: own_token_def)

lemma returns_take_lease: "returns (own_token (me_instance_id env)) (take_lease env sub meta)"
  unfolding take_lease_def
  by (intro returns_rules returns_seq [OF returns_acquire]) (auto simp: own_token_def)

lemma foreign_give_back [keeps_rules]:
  "t \<noteq> Some tok \<Longrightarrow> issues (foreign_call sub tok) (give_back env sub' t)"
  unfolding give_back_def by (cases t) (auto intro!: keeps_rules)

lemma foreign_lifecycle [keeps_rules]: "issues P (lifecycle x y)"
  by (simp add: lifecycle_def keeps_rules)

lemma foreign_start_local [keeps_rules]:
  "issues (foreign_call sub tok) (start_local_worker env i sub' t tr)"
  unfolding start_local_worker_def lease_held_def by (intro keeps_rules) auto

lemma foreign_activate:
  "t \<noteq> Some tok \<Longrightarrow> issues (foreign_call sub tok) (activate env sub' meta t)"
  unfolding activate_def Let_def by (intro keeps_rules)

lemma foreign_take_lease [keeps_rules]: "issues (foreign_call sub tok) (take_lease env sub' meta)"
  unfolding take_lease_def by (intro keeps_rules)

lemma foreign_start [keeps_rules]:
  assumes "others_instance (me_instance_id env) tok"
  shows "issues (foreign_call sub tok) (start_stream env sub' cfg)"
proof -
  have "issues (foreign_call sub tok) (bind (take_lease env sub' meta) (activate env sub' meta))" for meta
    by (rule issues_seq [OF foreign_take_lease returns_take_lease])
       (auto intro: foreign_activate dest: own_token_differs [OF _ assms])
  note tail = this
  show ?thesis unfolding start_stream_def by (intro tail keeps_rules)
qed

lemma foreign_running [keeps_rules]: "issues (foreign_call sub tok) (is_running_locally env i)"
  unfolding is_running_locally_def by (intro keeps_rules) auto

lemma foreign_adopt: "t \<noteq> tok \<Longrightarrow> issues (foreign_call sub tok) (adopt env i sub' t)"
  unfolding adopt_def by (intro keeps_rules) auto

lemma foreign_resume [keeps_rules]:
  assumes "others_instance (me_instance_id env) tok"
  shows "issues (foreign_call sub tok) (resume_stream env meta)"
proof -
  have "issues (foreign_call sub tok) (bind (acquire_lock s (me_instance_id env) ttl) (\<lambda>t. case t of
      None \<Rightarrow> andthen (lifecycle x y) (Ret False) | Some t \<Rightarrow> adopt env i s t))" for x y i s ttl
    by (rule issues_seq [OF foreign_lock_calls(1) returns_acquire])
       (auto intro!: keeps_rules foreign_adopt dest: own_token_differs [OF _ assms] split: option.split)
  note tail = this
  show ?thesis unfolding resume_stream_def Let_def by (intro tail keeps_rules)
qed

lemma foreign_reconcile [keeps_rules]:
  assumes "others_instance (me_instance_id env) tok"
  shows "issues (foreign_call sub tok) (reconcile_loop n env interval)"
proof (induction n)
  case (Suc n)
  show ?case
    unfolding reconcile_loop.simps reconcile_once_def reconcile_stream_def needs_reconciliation_def Let_def
    by (intro keeps_rules Suc assms) auto
qed (simp add: keeps_rules)

lemma foreign_join [keeps_rules]: "issues (foreign_call sub tok) (join_quietly x)"
  unfolding join_quietly_def by (intro keeps_rules) auto

lemma foreign_stream_task [keeps_rules]: "issues (foreign_call sub tok) (run_stream env i)"
  unfolding run_stream_def watch_runner_def handle_run_exception_def handle_runner_cancellation_def
    should_preserve_for_failover_def finish_run_def forget_task_def
  by (intro keeps_rules) (auto intro!: keeps_rules split: task_event.split)

lemma foreign_watcher [keeps_rules]: "issues (foreign_call sub tok) (wait_for_stop_request n env i)"
  by (induction n) (auto intro!: keeps_rules)

lemma foreign_stop [keeps_rules]: "issues (foreign_call sub tok) (stop_stream env i)"
  unfolding stop_stream_def stop_stream_with_def join_task_def by (intro keeps_rules) auto

lemma foreign_stop_all [keeps_rules]:
  "issues (foreign_call sub tok) (stop_all env)" "issues (foreign_call sub tok) (start_reconciliation env)"
  unfolding stop_all_def stop_reconciliation_def start_reconciliation_def
  by (intro keeps_rules; simp)+

subsection \<open>Background tasks\<close>

lemma foreign_loop [keeps_rules]:
  "issues (foreign_call sub tok) work \<Longrightarrow> issues (foreign_call sub tok) (background_loop n interval work)"
  by (induction n) (auto intro!: keeps_rules)

lemma foreign_life [keeps_rules]:
  "issues (foreign_call sub tok) start_background" "issues (foreign_call sub tok) (stop_background x)"
  unfolding start_background_def stop_background_def by (intro keeps_rules; simp)+

lemma foreign_cleanup [keeps_rules]: "issues (foreign_call sub tok) cleanup"
proof -
  have "issues (foreign_call sub tok) (retire_stream stream)" for stream
    unfolding retire_stream_def Let_def by (intro keeps_rules)
  then have "issues (foreign_call sub tok) (retire_streams streams n)" for streams n
    by (induction streams arbitrary: n) (auto intro!: issues_bind)
  then show ?thesis unfolding cleanup_def cleanup_sweep_def Let_def by (intro keeps_rules)
qed

lemma foreign_flush [keeps_rules]: "issues (foreign_call sub tok) (flush inst)"
proof -
  have "issues (foreign_call sub tok) (checkpoint_parameters ps)" for ps
    by (induction ps) (auto intro!: keeps_rules)
  then have up: "issues (foreign_call sub tok) (upsert_checkpoints ps)" for ps
    unfolding upsert_checkpoints_def by (intro issues_bind) (auto intro: keeps_rules)
  show ?thesis
    unfolding flush_def flush_owned_def Let_def
    by (intro up keeps_rules) auto
qed

subsection \<open>Workers and the application\<close>

lemma foreign_runner [keeps_rules]:
  "sub' = sub \<longrightarrow> t \<noteq> Some tok \<Longrightarrow> issues (foreign_call sub tok) (runner env sub' t)"
  unfolding runner_def
  by (intro keeps_rules) (auto simp: others_lease_def worker_of_def)

lemma foreign_clients [keeps_rules]:
  "issues P init_db" "issues P get_redis" "issues P get_reddit_client" "issues P (get_kafka_producer cfg)"
  "(\<And>x. P (Close_Client x)) \<Longrightarrow> issues P close_db" "(\<And>x. P (Close_Client x)) \<Longrightarrow> issues P close_redis"
  "(\<And>x. P (Close_Client x)) \<Longrightarrow> issues P close_reddit"
  "(\<And>x. P (Flush_Producer x)) \<Longrightarrow> issues P (flush_kafka_producer ms)"
  unfolding init_db_def get_redis_def get_reddit_client_def get_kafka_producer_def close_db_def close_redis_def
    close_reddit_def flush_kafka_producer_def Let_def
  by (intro keeps_rules; assumption)+

lemma foreign_startup [keeps_rules]: "issues (foreign_call sub tok) (startup env)"
  unfolding startup_def get_engine_def create_runner_def get_kafka_producer_from_settings_def start_flusher_def
  by (intro keeps_rules) auto

lemma foreign_shutdown [keeps_rules]: "issues (foreign_call sub tok) (shutdown env)"
  unfolding shutdown_def stop_flusher_def by (intro keeps_rules) auto

lemma manager_of_id [simp]: "me_instance_id (manager_of env) = ae_instance_id env"
  by (simp add: manager_of_def)

lemma foreign_endpoints [keeps_rules]:
  "others_instance (ae_instance_id env) tok \<Longrightarrow> issues (foreign_call sub tok) (create_stream_endpoint env sub')"
  "issues (foreign_call sub tok) list_streams_endpoint" "issues (foreign_call sub tok) (stop_stream_endpoint env i)"
  "issues (foreign_call sub tok) readiness"
  unfolding create_stream_endpoint_def validate_subreddit_access_def list_streams_endpoint_def stop_stream_endpoint_def stop_stream_endpoint_with_def stop_stream_with_def join_task_def
    readiness_def check_redis_def check_postgres_def get_session_def check_kafka_def checked_dependency_def Let_def
  by (intro keeps_rules; simp)+

subsection \<open>Processes\<close>

text \<open>The middleware around any endpoint adds identifiers only.\<close>

lemma foreign_observe [keeps_rules]:
  "P Uuid4 \<Longrightarrow> issues P (call_next request) \<Longrightarrow> issues P (observe_http_request request call_next)"
  unfolding observe_http_request_def correlation_id_def set_request_id_def set_span_def finish_request_def Let_def
  by (intro keeps_rules)

lemma foreign_serve [keeps_rules]:
  assumes "\<forall>sub'. snd (fw_match fw request) = Create_Stream sub' \<longrightarrow> others_instance (ae_instance_id env) tok"
  shows "issues (foreign_call sub tok) (serve fw env request)"
proof -
  have "issues (foreign_call sub tok) (call_endpoint env endpoint)"
    if "\<forall>sub'. endpoint = Create_Stream sub' \<longrightarrow> others_instance (ae_instance_id env) tok" for endpoint
    using that by (cases endpoint) (auto simp: answered_def health_def intro!: keeps_rules)
  with assms show ?thesis
    unfolding serve_def call_route_def case_prod_unfold by (intro keeps_rules) auto
qed

text \<open>The state of the system: the application of each process, the workers of each, and the contexts of its requests. A
  process runs any of these activities, each any number of times; what a run returns is of no interest to the others.\<close>

record system =
  sy_app :: "nat \<Rightarrow> app"
  sy_worker :: "nat \<Rightarrow> nat \<Rightarrow> worker"
  sy_request :: "nat \<Rightarrow> nat \<Rightarrow> http_context"

datatype activity =
    Start_Up
  | Shut_Down
  | Http_Request nat framework http_request  \<comment> \<open>in which context\<close>
  | Reconciler nat int
  | Stream_Task string
  | Stop_Watcher nat string
  | Flush_Task nat int
  | Cleanup_Task nat int
  | Worker_Task nat string "string option"  \<comment> \<open>which worker, its subreddit, its lock token\<close>
  | Worker_Stream nat nat nat worker_env
  | Worker_Lock nat nat worker_env

abbreviation on_app :: "nat \<Rightarrow> (app, 'a) prog \<Rightarrow> (system, 'a) prog" where
  "on_app k \<equiv> embed (\<lambda>s. sy_app s k) (\<lambda>a s. s\<lparr>sy_app := (sy_app s)(k := a)\<rparr>)"

abbreviation on_worker :: "nat \<Rightarrow> nat \<Rightarrow> (worker, 'a) prog \<Rightarrow> (system, 'a) prog" where
  "on_worker k j \<equiv> embed (\<lambda>s. sy_worker s k j) (\<lambda>x s. s\<lparr>sy_worker := (sy_worker s)(k := (sy_worker s k)(j := x))\<rparr>)"

definition server_of :: "nat \<Rightarrow> nat \<Rightarrow> system \<Rightarrow> server" where
  "server_of k j s = http_context.extend (sy_request s k j) (server.fields (sy_app s k))"

definition put_server :: "nat \<Rightarrow> nat \<Rightarrow> server \<Rightarrow> system \<Rightarrow> system" where
  "put_server k j x s =
     s\<lparr>sy_app := (sy_app s)(k := sv_app x),
       sy_request := (sy_request s)(k := (sy_request s k)(j := http_context.truncate x))\<rparr>"

abbreviation on_request :: "nat \<Rightarrow> nat \<Rightarrow> (server, 'a) prog \<Rightarrow> (system, 'a) prog" where
  "on_request k j \<equiv> embed (server_of k j) (put_server k j)"

lemma context_eta [simp]: "\<lparr>cx_request_id = cx_request_id r, cx_route = cx_route r, cx_span = cx_span r\<rparr> = r"
  by (cases r) simp

interpretation request_part: part "server_of k j" "put_server k j" for k j
  by unfold_locales (simp_all add: server_of_def put_server_def http_context.defs server.defs)

interpretation app_part: part "\<lambda>s. sy_app s k" "\<lambda>a s. s\<lparr>sy_app := (sy_app s)(k := a)\<rparr>" for k
  by unfold_locales simp_all

interpretation worker_part: part "\<lambda>s. sy_worker s k j" "\<lambda>x s. s\<lparr>sy_worker := (sy_worker s)(k := (sy_worker s k)(j := x))\<rparr>" for k j
  by unfold_locales simp_all

definition discard :: "('l, 'a) prog \<Rightarrow> ('l, unit) prog" where
  "discard p = bind p (\<lambda>_. skip)"

fun activity_of :: "nat \<Rightarrow> app_env \<Rightarrow> activity \<Rightarrow> (system, unit) prog" where
  "activity_of k env Start_Up = on_app k (startup env)"
| "activity_of k env Shut_Down = on_app k (shutdown env)"
| "activity_of k env (Http_Request j fw request) = on_request k j (discard (serve fw env request))"
| "activity_of k env (Reconciler n ms) = on_app k (on_manager (reconcile_loop n (manager_of env) ms))"
| "activity_of k env (Stream_Task i) = on_app k (on_manager (run_stream (manager_of env) i))"
| "activity_of k env (Stop_Watcher n i) = on_app k (on_manager (wait_for_stop_request n (manager_of env) i))"
| "activity_of k env (Flush_Task n ms) = on_app k (on_flusher (discard (flush_loop n ms (ae_instance_id env))))"
| "activity_of k env (Cleanup_Task n ms) = on_app k (on_cleanup (discard (cleanup_loop n ms)))"
| "activity_of k env (Worker_Task j sub t) = on_worker k j (runner env sub t)"
| "activity_of k env (Worker_Stream j n m wenv) = on_worker k j (discard (stream_loop n m wenv))"
| "activity_of k env (Worker_Lock j n wenv) = on_worker k j (lock_refresh_loop n wenv)"

text \<open>An activity that was not given the token: a worker has another one, a manager's own
  tokens begin with its instance's name.\<close>

fun other_token :: "string \<Rightarrow> string \<Rightarrow> app_env \<Rightarrow> activity \<Rightarrow> bool" where
  "other_token sub tok env (Http_Request _ fw request) =
     (\<forall>sub'. snd (fw_match fw request) = Create_Stream sub' \<longrightarrow> others_instance (ae_instance_id env) tok)"
| "other_token sub tok env (Reconciler _ _) = others_instance (ae_instance_id env) tok"
| "other_token sub tok env (Worker_Task _ sub' t) = (sub' = sub \<longrightarrow> t \<noteq> Some tok)"
| "other_token sub tok env (Worker_Lock _ _ wenv) = others_lease wenv sub tok"
| "other_token sub tok env _ = True"

lemma foreign_activity:
  "other_token sub tok env a \<Longrightarrow> issues (foreign_call sub tok) (activity_of k env a)"
  by (cases a) (auto simp: discard_def flush_loop_def cleanup_loop_def intro!: keeps_rules)

text \<open>So every activity sends well-typed commands only: it is foreign to some lease.\<close>

lemma service_activity: "issues service_call (activity_of k env a)"
proof -
  define sub where "sub = (case a of Worker_Task j sub' t \<Rightarrow> CHR ''x'' # sub' | Worker_Lock j n wenv \<Rightarrow> CHR ''x'' # we_subreddit wenv | _ \<Rightarrow> [])"
  have "other_token sub [] env a"
    by (cases a) (auto simp: sub_def others_instance_def others_lease_def)
  from foreign_activity [OF this] show ?thesis
    by (rule issues_mono) (rule foreign_is_service)
qed

end
