(* ===== verification/App_Theorems.thy ===== *)
theory App_Theorems
  imports System Manager_Theorems
begin

section \<open>What the application promises\<close>

text \<open>
  The properties of src/app.py: the endpoint that starts a stream, readiness, and a restart in the same process.
\<close>

subsection \<open>Starting a stream by a request\<close>

lemma wp_validate:
  "wp (validate_subreddit_access sub) (\<lambda>r l' v'. l' = l \<and> v' = v \<and>
     (case r of Inl e \<Rightarrow> \<not> is_exception e | Inr None \<Rightarrow> True | Inr (Some (c, _)) \<Rightarrow> c \<in> {403, 404, 503})) l v"
  by (auto simp: validate_subreddit_access_def wp_bind wp_attempt wp_andthen wp_subreddit wp_load)

definition posted :: "app_env \<Rightarrow> string \<Rightarrow> app \<Rightarrow> view \<Rightarrow> pyexn + dict response \<Rightarrow> app \<Rightarrow> view \<Rightarrow> bool" where
  "posted env sub app v r app' v' =
     (case r of
        Inl e \<Rightarrow> app' = app \<and> (is_exception e \<longrightarrow> \<not> isinstance e [Stream_Exists_Error, Runtime_Error])
      | Inr (Http_Error c _) \<Rightarrow> app' = app \<and> c \<in> {403, 404, 409, 503}
      | Inr (Answer meta) \<Rightarrow> app' = app\<lparr>ap_manager := ap_manager app'\<rparr> \<and> ap_state_reddit app \<noteq> None \<and>
          stream_started (manager_of env) sub (ap_manager app) v (Inr meta) (ap_manager app') v')"

lemma posted_refused: "c \<in> {403, 404, 409, 503} \<Longrightarrow> posted env sub app v (Inr (Http_Error c m)) app v'"
  by (simp add: posted_def)

lemma wp_create_stream_endpoint:
  assumes "\<not> mg_busy (ap_manager app)" and "0 < ae_rounds env" and "sound (rdb v)"
  shows "wp (create_stream_endpoint env sub) (\<lambda>r app' v'. posted env sub app v r app' v') app v"
proof -
  let ?Q = "\<lambda>r app' v'. posted env sub app v r app' v'"
  let ?answer = "\<lambda>r. case r of
             Inr meta \<Rightarrow> Ret (Answer meta)
           | Inl e \<Rightarrow>
               if isinstance e [Stream_Exists_Error] then Ret (Http_Error 409 (estr e))
               else if isinstance e [Runtime_Error] then Ret (Http_Error 409 (estr e))
               else Raise e"
  have env: "\<not> mg_busy (ap_manager app)" "0 < me_rounds (manager_of env)"
    using assms(1,2) by (simp_all add: manager_of_def)
  have answer: "wp (?answer r) ?Q (app\<lparr>ap_manager := m\<rparr>) v1"
    if "stream_started (manager_of env) sub (ap_manager app) v r m v1" "ap_state_reddit app \<noteq> None" for r m v1
  proof (cases r)
    case (Inl e)
    with that have "m = ap_manager app" by (simp add: stream_started_def)
    with Inl show ?thesis by (auto simp: posted_def)
  next
    case (Inr meta)
    with that show ?thesis by (simp add: posted_def)
  qed
  have start: "wp (bind (attempt (on_manager (start_stream (manager_of env) sub []))) ?answer) ?Q app v"
    if "ap_state_reddit app \<noteq> None"
    unfolding wp_bind [where p = "attempt p" for p] wp_attempt sum.case manager_part.wp_embed
    by (rule wp_mono [OF wp_start_stream [OF env assms(3)]]) (rule answer [OF _ that])
  show ?thesis
  proof (cases "ap_state_reddit app = None")
    case True
    then show ?thesis by (simp add: create_stream_endpoint_def wp_bind wp_basic posted_refused)
  next
    case False
    have "wp (bind (validate_subreddit_access sub) (\<lambda>refused. case refused of
         Some (status_code, detail) \<Rightarrow> Ret (Http_Error status_code detail)
       | None \<Rightarrow> bind (attempt (on_manager (start_stream (manager_of env) sub []))) ?answer)) ?Q app v"
    proof (rule wp_seq [OF wp_validate])
      fix x :: "(nat \<times> string) option" and l1 v1
      assume "l1 = app \<and> v1 = v \<and> (case Inr x of Inl e \<Rightarrow> \<not> is_exception e | Inr None \<Rightarrow> True | Inr (Some (c, _)) \<Rightarrow> c \<in> {403, 404, 503})"
      note refused = this
      show "wp (case x of Some (status_code, detail) \<Rightarrow> Ret (Http_Error status_code detail)
         | None \<Rightarrow> bind (attempt (on_manager (start_stream (manager_of env) sub []))) ?answer) ?Q l1 v1"
      proof (cases x)
        case None
        with refused have "l1 = app" "v1 = v" by simp_all
        then show ?thesis unfolding None option.case by (simp only: start [OF False])
      next
        case (Some cd)
        with refused show ?thesis by (cases cd) (auto simp: posted_refused)
      qed
    qed (simp add: posted_def)
    with False show ?thesis
      unfolding create_stream_endpoint_def wp_bind [where p = get_local] wp_basic sum.case by (simp only: if_False)
  qed
qed


text \<open>C24: a request to start a stream answers with the stream only if it runs: its manager has the
  task, the registry shows it active, the subreddit is claimed and locked. Any other answer is one of 403,
  404, 409 and 503, after which the application is as it was. \<^verbatim>\<open>StreamExistsError\<close> and \<^verbatim>\<open>RuntimeError\<close> are
  answered; any other exception, such as that of a failing Redis, leaves the endpoint, and the application is as
  it was then too.\<close>

theorem post_stream_answers:
  assumes "documented_services S V" and "sound (rdb (V w))" and "\<not> mg_busy (ap_manager app)" and "0 < ae_rounds env"
    and "run S (create_stream_endpoint env sub) app w = (r, app', w')"
  shows "posted env sub app (V w) r app' (V w')"
  using documented_services.run_wp [OF assms(1,5) wp_create_stream_endpoint [OF assms(3,4,2)]] .

definition kafka1 :: kafka_settings where
  "kafka1 = \<lparr>ks_bootstrap_servers = ''kafka:9092'', ks_raw_text_topic = ''t'', ks_delivery_wait_timeout = 300, ks_security_protocol = ''PLAINTEXT'', ks_sasl_mechanism = ''SCRAM-SHA-512'',
     ks_sasl_username = None, ks_sasl_password = None, ks_ssl_ca_location = None\<rparr>"

definition aenv1 :: app_env where
  "aenv1 = \<lparr>ae_instance_id = ''n'', ae_kafka = kafka1, ae_timeout_text = ''300'', ae_rounds = 1, ae_serializer_failure = None\<rparr>"

lemma aenv1_sel [simp]: "ae_instance_id aenv1 = ''n''" "ae_rounds aenv1 = 1" "ae_kafka aenv1 = kafka1"
  by (simp_all add: aenv1_def)

definition idle_task :: background where
  "idle_task = \<lparr>bg_running = False, bg_task = False\<rparr>"

definition new_app :: app where
  "new_app = \<lparr>ap_manager = new_manager, ap_flusher = idle_task, ap_cleanup = idle_task, ap_reddit = None,
     ap_state_reddit = None, ap_producer = None, ap_redis = None, ap_state_redis = None, ap_engine = None,
     ap_sessions = False, ap_made = 0\<rparr>"

definition serving_app :: app where
  "serving_app = new_app\<lparr>ap_reddit := Some 2, ap_state_reddit := Some 2, ap_producer := Some 3, ap_redis := Some 1,
     ap_state_redis := Some 1, ap_engine := Some 0, ap_sessions := True, ap_made := 4\<rparr>"

lemma serving_app_sel [simp]:
  "ap_manager serving_app = new_manager" "ap_state_reddit serving_app = Some 2" "ap_sessions serving_app"
  "ap_state_redis serving_app = Some 1" "ap_producer serving_app = Some 3" "ap_reddit serving_app = Some 2"
  "ap_redis serving_app = Some 1" "ap_engine serving_app = Some 0" "ap_made serving_app = 4"
  by (simp_all add: serving_app_def new_app_def)

theorem post_stream_answers_witness:
  "\<exists>meta app' w'. run ref_services (create_stream_endpoint aenv1 ''python'') serving_app (ref_start empty_view []) = (Inr (Answer meta), app', w') \<and>
     stream_id_of meta \<in> set (mg_tasks (ap_manager app'))" (is "\<exists>meta app' w'. ?run = _ \<and> _")
proof -
  have "\<exists>meta app' w'. ?run = (Inr (Answer meta), app', w')"
    by (simp add: ref_run create_stream_endpoint_def validate_subreddit_access_def manager_of_def attempt_def start_stream_def manager_runs
        fresh_uuid_def insert_stream_sql_def cong: lazy)
  then obtain meta app' w' where e: "?run = (Inr (Answer meta), app', w')" by blast
  have "posted aenv1 ''python'' serving_app empty_view (Inr (Answer meta)) app' (rview w')"
    using post_stream_answers [OF ref.documented_services_axioms _ _ _ e] by simp
  then have "stream_id_of meta \<in> set (mg_tasks (ap_manager app'))"
    by (simp add: posted_def stream_started_def running_def)
  with e show ?thesis by blast
qed

subsection \<open>Stopping a stream by a request\<close>

text \<open>The stream was there and has its owner still; the request is there for every instance. The status is
  \<^verbatim>\<open>stopping\<close>, or \<^verbatim>\<open>stopped\<close> if the task that was awaited ran on this instance and the stream was its own.\<close>

definition stop_left :: "manager_env \<Rightarrow> string \<Rightarrow> manager \<Rightarrow> rdb \<Rightarrow> manager \<Rightarrow> rdb \<Rightarrow> bool" where
  "stop_left env i l s l' s' =
     (\<not> no_row s i \<and> stop_asked s' i \<and> meta_owner s' i = meta_owner s i \<and>
      l' = (if i \<in> set (mg_tasks l) then forgotten i l else l) \<and>
      (\<not> mg_shutting_down l \<longrightarrow> meta_status s' i =
         Some (if i \<in> set (mg_tasks l) \<and> meta_owner s i = Some (me_instance_id env) then ''stopped'' else ''stopping'')))"

lemma status_written_kept:
  "status_written i st (or_none (meta_owner s i)) s s' \<Longrightarrow> meta_status s' i = Some st \<and> meta_owner s' i = meta_owner s i"
  by (cases "meta_field s i ''instance_id''") (auto simp: status_written_def meta_status_def meta_owner_def or_none_def split: if_splits)

lemma wp_request_stop_sound:
  assumes "sound (rdb v)"
  shows "wp (request_stop db i) (\<lambda>r l' v'. l' = l \<and> sound (rdb v') \<and> (r = Inr () \<longrightarrow> \<not> no_row (rdb v) i \<and> stop_asked (rdb v') i \<and>
     meta_status (rdb v') i = Some ''stopping'' \<and> meta_owner (rdb v') i = meta_owner (rdb v) i)) l v"
proof (rule wp_mono [OF keeps_wp [OF issues_keeps [OF registry_calls(9) stable_sound] assms
      wp_local [OF mild_registry(7) wp_request_stop [OF assms]]]], goal_cases)
  case (1 r l' v')
  then show ?case using status_written_kept [of i "''stopping''" "rdb v" "rdb v'"] by simp
qed

lemma stop_left_run:
  assumes D: "documented_services S V" and U: "uncancelled S I" "w \<in> I" and s: "sound (rdb (V w))"
    and l: "\<not> mg_busy l" "0 < me_rounds env"
    and r: "run S (stop_stream_with (ending_task env) env i) l w = (Inr (), l', w')"
  shows "stop_left env i l (rdb (V w)) l' (rdb (V w'))"
proof -
  let ?b = "with_lock env (bind get_local (\<lambda>self. if i \<notin> set (mg_tasks self) then Ret False
       else andthen (unit_call (Cancel_Task (''stream-'' @ i))) (Ret True)))"
  obtain ra la wa rb lb wb where
    a: "run S (request_stop (me_db env) i) l w = (ra, la, wa)" and b: "run S ?b la wa = (rb, lb, wb)"
    by (metis prod_cases3)
  have a': "la = l" "sound (rdb (V wa))" "ra = Inr () \<longrightarrow> \<not> no_row (rdb (V w)) i \<and> stop_asked (rdb (V wa)) i \<and>
     meta_status (rdb (V wa)) i = Some ''stopping'' \<and> meta_owner (rdb (V wa)) i = meta_owner (rdb (V w)) i"
    using documented_services.run_wp [OF D a wp_request_stop_sound [OF s]] by auto
  have b': "rb = Inr (i \<in> set (mg_tasks l)) \<and> lb = l \<and> V wb = V wa"
    by (rule documented_services.run_wp [OF D b]) (use l a'(1) in \<open>simp add: wp_with_lock wp_rules\<close>)
  have ra: "ra = Inr ()" using r a by (cases ra) (auto simp: stop_stream_with_def andthen_def run_bind)
  show ?thesis
  proof (cases "i \<in> set (mg_tasks l)")
    case True
    with r a b b' ra have "run S (except is_cancelled (ending_task env i) (\<lambda>_. skip)) l wb = (Inr (), l', w')"
      by (simp add: stop_stream_with_def andthen_def run_bind)
    moreover have "wb \<in> I" using stays_uncancelled [OF U(1) stays_uncancelled [OF U a] b] .
    ultimately have "l' = forgotten i l" "ending env i l (rdb (V wa)) (rdb (V w'))"
      using awaited_ending [OF D U(1) _ _ l, of wb i l' w'] a'(2) b' by auto
    with a'(3) ra True show ?thesis by (simp add: stop_left_def ending_def)
  next
    case False
    with r a b b' ra have "l' = l" "V w' = V wa" by (auto simp: stop_stream_with_def andthen_def run_bind skip_def)
    with a'(3) ra False show ?thesis by (simp add: stop_left_def)
  qed
qed

definition stop_posted :: "manager_env \<Rightarrow> string \<Rightarrow> app \<Rightarrow> rdb \<Rightarrow> pyexn + dict response \<Rightarrow> app \<Rightarrow> rdb \<Rightarrow> bool" where
  "stop_posted env i app s r app' s' =
     (case r of
        Inl e \<Rightarrow> \<not> isinstance e [Stream_Not_Found_Error]
      | Inr (Http_Error c m) \<Rightarrow> c = 404
      | Inr (Answer a) \<Rightarrow>
          (if meta_status s i \<in> {Some ''stopped'', Some ''error'', Some ''inactive''}
           then a = [(''stream_id'', i), (''status'', or_empty (meta_status s i))] \<and> passed s s' \<and> app' = app
           else a = [(''stream_id'', i), (''status'', ''stopping'')] \<and> stop_left env i (ap_manager app) s (ap_manager app') s'))"

lemma stop_left_later: "passed s s1 \<Longrightarrow> sound s \<Longrightarrow> stop_left env i l s1 l' s' \<Longrightarrow> stop_left env i l s l' s'"
  by (auto simp: passed_def stop_left_def)

text \<open>C25: a request to stop a stream that answers has left a stream already at its end alone and told its status.
  Otherwise it answers \<^verbatim>\<open>stopping\<close>; the request to stop is there for every instance and the stream's owner is the
  same. A stream that runs here has then been waited for: its task is gone from the map of local tasks, and its
  status is \<^verbatim>\<open>stopped\<close> if this instance owned it (unless the manager is shutting down). Any other stream's status is
  \<^verbatim>\<open>stopping\<close>. The only error response is 404; of the exceptions, \<^verbatim>\<open>StreamNotFoundError\<close> never leaves. (No service is
  itself cancelled while the call waits for it; the awaited task waited for its runner.)\<close>

theorem post_stop_answers:
  assumes D: "documented_services S V" and U: "uncancelled S I" "w \<in> I"
    and s: "sound (rdb (V w))" and l: "\<not> mg_busy (ap_manager app)" "0 < ae_rounds env"
    and r: "run S (stop_stream_endpoint_with (ending_task (manager_of env)) env i) app w = (r, app', w')"
  shows "stop_posted (manager_of env) i app (rdb (V w)) r app' (rdb (V w'))"
proof -
  let ?m = "manager_of env"
  obtain ra la wa where a: "run S (get_stream i) app w = (ra, la, wa)" by (metis prod_cases3)
  have a': "la = app" "passed (rdb (V w)) (rdb (V wa))" "sound (rdb (V wa))"
      "\<forall>d. ra = Inr d \<longrightarrow> dict_get (sd_fields d) ''status'' = meta_status (rdb (V w)) i"
    using documented_services.run_wp [OF D a wp_get_row [OF s]] by auto
  obtain rb lb wb where b: "run S (stop_stream_with (ending_task ?m) ?m i) (ap_manager app) wa = (rb, lb, wb)" by (metis prod_cases3)
  have rounds: "0 < me_rounds ?m" using l(2) by (simp add: manager_of_def)
  have "wa \<in> I" using stays_uncancelled [OF U a] .
  then have left: "rb = Inr () \<longrightarrow> stop_left ?m i (ap_manager app) (rdb (V w)) lb (rdb (V wb))"
    using stop_left_run [OF D U(1) _ a'(3) l(1) rounds, of i lb wb] b stop_left_later [OF a'(2) s] by auto
  show ?thesis
    using r a a' b left unfolding stop_stream_endpoint_with_def attempt_def
    by (cases ra; cases rb)
       (auto simp: run_bind run_except andthen_def manager_part.run_embed stop_posted_def Let_def split: if_splits)
qed

definition own_world :: ref_world where
  "own_world = ref_start (with_rdb (\<lambda>s. put_key (meta_key ''s1'')
     (VHash [(''id'', ''s1''), (''subreddit'', ''python''), (''status'', ''active''), (''instance_id'', ''n'')]) s) empty_view) []"

lemma ref_uncancelled: "uncancelled ref_services {w. schedule w = []}"
proof -
  have "schedule (snd (ref_ask c w)) = [] \<and> (\<forall>e. fst (ref_ask c w) = Inl e \<longrightarrow> is_cancelled e \<longrightarrow> (\<exists>t. c = Join_Task t))"
    if "schedule w = []" for c w
    using that by (cases c) (auto simp: ref_redis_def ref_pg_def ref_reports_def next_fault_def Let_def split: option.splits list.splits prod.splits)
  then show ?thesis by (auto simp: uncancelled_def)
qed

theorem post_stop_answers_witness:
  "\<exists>a app' w'. run ref_services (stop_stream_endpoint_with (ending_task (manager_of aenv1)) aenv1 ''s1'')
       (serving_app\<lparr>ap_manager := running_manager\<rparr>) own_world = (Inr (Answer a), app', w') \<and>
     meta_status (rdb (rview w')) ''s1'' = Some ''stopped'' \<and> mg_tasks (ap_manager app') = []" (is "\<exists>a app' w'. ?run = _ \<and> _")
proof -
  have "\<exists>a app' w'. ?run = (Inr (Answer a), app', w')"
    by (simp add: ref_run stop_stream_endpoint_with_def stop_stream_with_def request_stop_def manager_of_def attempt_def manager_runs
        own_world_def update_status_sql_def update_rows_def ending_task_def handle_run_exception_def handle_runner_cancellation_def
        should_preserve_for_failover_def finish_run_def forget_task_def join_quietly_def update_status_if_owner_def
        update_owner_closed manager_part.run_embed cong: lazy)
  then obtain a app' w' where e: "?run = (Inr (Answer a), app', w')" by blast
  have "own_world \<in> {w. schedule w = []}" "sound (rdb (rview own_world))" by (simp_all add: own_world_def)
  from post_stop_answers [OF ref.documented_services_axioms ref_uncancelled this _ _ e]
  have "stop_posted (manager_of aenv1) ''s1'' (serving_app\<lparr>ap_manager := running_manager\<rparr>) (rdb (rview own_world)) (Inr (Answer a)) app' (rdb (rview w'))"
    by simp
  moreover have "meta_status (rdb (rview own_world)) ''s1'' = Some ''active''" "meta_owner (rdb (rview own_world)) ''s1'' = Some ''n''"
    by (simp_all add: own_world_def meta_status_def meta_owner_def meta_field_def ref_run)
  ultimately have "meta_status (rdb (rview w')) ''s1'' = Some ''stopped'' \<and> mg_tasks (ap_manager app') = []"
    by (simp add: stop_posted_def stop_left_def forgotten_def manager_of_def)
  with e show ?thesis by blast
qed

subsection \<open>Readiness\<close>

definition gauge_of :: "string \<times> bool \<Rightarrow> metric" where
  "gauge_of c = Gauge_Set ''dependency_ready'' [fst c] (if snd c then 1 else 0)"

definition reported :: "app \<Rightarrow> view \<Rightarrow> pyexn + nat \<times> (string \<times> bool) list \<Rightarrow> app \<Rightarrow> view \<Rightarrow> bool" where
  "reported app v r app' v' =
     (app' = app \<and> rdb v' = rdb v \<and> pgd v' = pgd v \<and>
      (case r of
         Inl e \<Rightarrow> \<not> is_exception e
       | Inr (code, checks) \<Rightarrow>
           map fst checks = [''postgres'', ''redis'', ''kafka'', ''reddit''] \<and>
           (map_of checks ''postgres'' = Some True \<longrightarrow> ap_sessions app) \<and>
           (map_of checks ''redis'' = Some True \<longrightarrow> ap_state_redis app \<noteq> None) \<and>
           (map_of checks ''kafka'' = Some True \<longrightarrow> ap_producer app \<noteq> None) \<and>
           map_of checks ''reddit'' = Some (ap_state_reddit app \<noteq> None) \<and>
           code = (if list_all snd checks then 200 else 503) \<and>
           metrics v' = rev (map gauge_of checks) @ metrics v))"

lemma wp_checks:
  "wp check_redis (\<lambda>r l' v'. l' = app \<and> v' = v \<and> (case r of Inl e \<Rightarrow> \<not> is_exception e | Inr b \<Rightarrow> b \<longrightarrow> ap_state_redis app \<noteq> None)) app v"
  "wp check_postgres (\<lambda>r l' v'. l' = app \<and> v' = v \<and> (case r of Inl e \<Rightarrow> \<not> is_exception e | Inr b \<Rightarrow> b \<longrightarrow> ap_sessions app)) app v"
  "wp check_kafka (\<lambda>r l' v'. l' = app \<and> v' = v \<and> (case r of Inl e \<Rightarrow> \<not> is_exception e | Inr b \<Rightarrow> b \<longrightarrow> ap_producer app \<noteq> None)) app v"
  by (auto simp: check_redis_def check_postgres_def get_session_def check_kafka_def checked_dependency_def wp_except wp_bind wp_andthen wp_basic
      wp_clients wp_load)

lemma wp_readiness: "wp readiness (\<lambda>r app' v'. reported app v r app' v') app v"
  unfolding readiness_def
  by (auto simp: wp_bind [where p = get_local] wp_andthen wp_bind [where p = "emit m" for m] wp_basic Let_def reported_def gauge_of_def
      intro!: wp_seq [OF wp_checks(1)] wp_seq [OF wp_checks(2)] wp_seq [OF wp_checks(3)])

text \<open>What a dependency with a client says to the call that checks it; a call that fails is a check that fails.
  Without a client there is no call.\<close>

definition asked :: "'w services \<Rightarrow> bool \<Rightarrow> call \<Rightarrow> (reply \<Rightarrow> bool) \<Rightarrow> 'w \<Rightarrow> bool \<times> 'w" where
  "asked S client c ok w =
     (if client then (case fst (ask S c w) of Inr x \<Rightarrow> ok x | Inl _ \<Rightarrow> False, snd (ask S c w)) else (False, w))"

definition dependency_checks :: "'w services \<Rightarrow> app \<Rightarrow> 'w \<Rightarrow> (string \<times> bool) list" where
  "dependency_checks S app w =
     (case asked S (ap_state_redis app \<noteq> None) (Probe ''redis'') (\<lambda>x. x = Bool_Reply True) w of (pinged, w1) \<Rightarrow>
      case asked S (ap_sessions app) (Probe ''postgres'') (\<lambda>x. x \<in> range Bool_Reply) w1 of (selected, w2) \<Rightarrow>
      case asked S (ap_producer app \<noteq> None) List_Topics (\<lambda>x. x = Bool_Reply True) w2 of (topics, _) \<Rightarrow>
        [(''postgres'', selected), (''redis'', pinged), (''kafka'', topics), (''reddit'', ap_state_reddit app \<noteq> None)])"

lemma run_checks:
  "run S check_redis app w = (Inr b, l', w') \<Longrightarrow>
     l' = app \<and> asked S (ap_state_redis app \<noteq> None) (Probe ''redis'') (\<lambda>x. x = Bool_Reply True) w = (b, w')"
  "run S check_postgres app w = (Inr b, l', w') \<Longrightarrow>
     l' = app \<and> asked S (ap_sessions app) (Probe ''postgres'') (\<lambda>x. x \<in> range Bool_Reply) w = (b, w')"
  "run S check_kafka app w = (Inr b, l', w') \<Longrightarrow>
     l' = app \<and> asked S (ap_producer app \<noteq> None) List_Topics (\<lambda>x. x = Bool_Reply True) w = (b, w')"
  subgoal by (cases "ask S (Probe ''redis'') w") (auto simp: check_redis_def checked_dependency_def asked_def probe_def
        run_except run_bind get_local_def split: if_splits sum.splits reply.splits)
  subgoal by (cases "ask S (Probe ''postgres'') w") (auto simp: check_postgres_def checked_dependency_def get_session_def asked_def probe_def
        run_except run_bind andthen_def get_local_def skip_def split: if_splits sum.splits reply.splits)
  subgoal by (cases "ask S List_Topics w") (auto simp: check_kafka_def checked_dependency_def asked_def list_topics_def
        run_except run_bind get_local_def split: if_splits sum.splits reply.splits)
  done

lemma readiness_checks_run:
  assumes "run S readiness app w = (Inr (code, checks), app', w')"
  shows "checks = dependency_checks S app w"
proof -
  obtain ra la wa rb lb wb rc lc wc where
    a: "run S check_redis app w = (ra, la, wa)" and b: "run S check_postgres la wa = (rb, lb, wb)" and
    c: "run S check_kafka lb wb = (rc, lc, wc)"
    by (metis prod_cases3)
  show ?thesis
    using assms a b c run_checks(1) [of S app w _ la wa] run_checks(2) [of S la wa _ lb wb] run_checks(3) [of S lb wb _ lc wc]
    by (cases ra; cases rb; cases rc)
       (auto simp: readiness_def run_bind andthen_def get_local_def dependency_checks_def Let_def emit_def skip_def)
qed

text \<open>C30: each check readiness reports is what its dependency said to the call that checks it: Redis answered the ping with
  true, PostgreSQL the query with a value, Kafka the listing of topics with true, and for Reddit that there is a client. A dependency without
  a client, or whose call fails, does not pass. The answer is 200 exactly if all four pass, and 503 otherwise; the gauges show
  what it answers; it raises no \<^verbatim>\<open>Exception\<close> whatever the dependencies do, and changes nothing.\<close>

theorem readiness_reports:
  assumes "documented_services S V" and "run S readiness app w = (r, app', w')"
  shows "reported app (V w) r app' (V w') \<and> (\<forall>code checks. r = Inr (code, checks) \<longrightarrow> checks = dependency_checks S app w)"
  using documented_services.run_wp [OF assms wp_readiness] readiness_checks_run [of S app w _ _ app' w'] assms(2) by auto

text \<open>All clients are there, and all dependencies answer.\<close>

theorem readiness_reports_witness:
  "\<exists>checks app' w'. run ref_services readiness serving_app (ref_start empty_view []) = (Inr (200, checks), app', w') \<and>
     checks = [(''postgres'', True), (''redis'', True), (''kafka'', True), (''reddit'', True)]" (is "\<exists>checks app' w'. ?run = _ \<and> _")
proof -
  have "\<exists>checks app' w'. ?run = (Inr (200, checks), app', w')"
    by (simp add: ref_run readiness_def check_redis_def check_postgres_def get_session_def check_kafka_def checked_dependency_def cong: lazy)
  then obtain checks app' w' where e: "?run = (Inr (200, checks), app', w')" by blast
  from readiness_reports [OF ref.documented_services_axioms e]
  have "checks = dependency_checks ref_services serving_app (ref_start empty_view [])" by simp
  with e show ?thesis by (simp add: dependency_checks_def asked_def)
qed

subsection \<open>A restart in the same process\<close>

text \<open>What a program does to the clients if it returns.\<close>

definition clients :: "app \<Rightarrow> nat option \<times> nat option \<times> nat option \<times> nat option \<times> nat option \<times> nat" where
  "clients app = (ap_reddit app, ap_state_reddit app, ap_producer app, ap_redis app, ap_engine app, ap_made app)"

definition turns :: "(app, 'a) prog \<Rightarrow> (nat option \<times> nat option \<times> nat option \<times> nat option \<times> nat option \<times> nat \<Rightarrow>
    nat option \<times> nat option \<times> nat option \<times> nat option \<times> nat option \<times> nat) \<Rightarrow> bool" where
  "turns p f = (\<forall>l v. wp p (\<lambda>r l' v'. isl r \<or> clients l' = f (clients l)) l v)"

lemma turns_andthen:
  assumes "turns p f" and "turns q g"
  shows "turns (andthen p q) (g \<circ> f)"
proof -
  have "wp (andthen p q) (\<lambda>r l' v'. isl r \<or> clients l' = (g \<circ> f) (clients l)) l v" for l v
  proof (rule wp_seq_andthen)
    show "wp p (\<lambda>r l' v'. isl r \<or> clients l' = f (clients l)) l v" using assms(1) by (simp add: turns_def)
  next
    fix x :: 'a and l1 v1
    assume "isl (Inr x :: pyexn + 'a) \<or> clients l1 = f (clients l)"
    then have "clients l1 = f (clients l)" by simp
    moreover have "wp q (\<lambda>r l' v'. isl r \<or> clients l' = g (clients l1)) l1 v1" using assms(2) by (simp add: turns_def)
    ultimately show "wp q (\<lambda>r l' v'. isl r \<or> clients l' = (g \<circ> f) (clients l)) l1 v1" by simp
  qed simp
  then show ?thesis by (simp add: turns_def)
qed

abbreviation same_clients :: "app \<Rightarrow> app \<Rightarrow> bool" where
  "same_clients a b \<equiv> clients b = clients a"

lemma turns_mild: "mild same_clients p \<Longrightarrow> turns p id"
proof -
  have "puts same_clients p l \<Longrightarrow> clients l = c \<Longrightarrow> wp p (\<lambda>r l' v'. isl r \<or> clients l' = c) l v" for l c v
    by (induction p arbitrary: l v) auto
  then show "mild same_clients p \<Longrightarrow> turns p id" by (simp add: turns_def mild_def)
qed

lemma same_parts [simp]:
  "clients (app\<lparr>ap_manager := m\<rparr>) = clients app" "clients (app\<lparr>ap_flusher := b\<rparr>) = clients app"
  "clients (app\<lparr>ap_cleanup := b\<rparr>) = clients app"
  by (simp_all add: clients_def)

lemma mild_flush [mild_rules]: "mild T (flush inst)"
proof -
  have "mild T (checkpoint_parameters ps)" for ps
    by (induction ps) (auto intro!: mild_rules)
  then have up: "mild T (upsert_checkpoints ps)" for ps
    unfolding upsert_checkpoints_def by (auto intro!: mild_rules)
  show ?thesis unfolding flush_def flush_owned_def Let_def by (intro up mild_rules)
qed

lemma turns_parts:
  "turns (on_manager p) id" "turns (on_flusher q) id" "turns (on_cleanup q) id" "turns (except is_exception (flush inst) (\<lambda>_. skip)) id"
  by (intro turns_mild manager_part.mild_embed flusher_part.mild_embed cleanup_part.mild_embed mild_rules; simp)+

lemma turns_close:
  "turns (flush_kafka_producer ms) (\<lambda>(rd, sr, _, rs, en, n). (rd, sr, None, rs, en, n))"
  "turns close_reddit (\<lambda>(rd, sr, pr, rs, en, n). (if sr \<noteq> None \<and> rd = sr then None else rd, sr, pr, rs, en, n))"
  "turns close_redis (\<lambda>(rd, sr, pr, _, en, n). (rd, sr, pr, None, en, n))"
  "turns close_db (\<lambda>(rd, sr, pr, rs, _, n). (rd, sr, pr, rs, None, n))"
  unfolding turns_def flush_kafka_producer_def close_reddit_def close_redis_def close_db_def Let_def
  by (auto simp: clients_def wp_rules)

lemma turns_shutdown:
  "turns (shutdown env) (\<lambda>(rd, sr, _, _, _, n). (if sr \<noteq> None \<and> rd = sr then None else rd, sr, None, None, None, n))"
proof -
  let ?engine = "\<lambda>(rd, sr, pr, rs, _, n). (rd, sr, pr, rs, None, n)"
  let ?redis = "\<lambda>(rd, sr, pr, _, en, n). (rd, sr, pr, None, en, n)"
  let ?reddit = "\<lambda>(rd, sr, pr, rs, en, n). (if sr \<noteq> None \<and> rd = sr then None else rd, sr, pr, rs, en, n)"
  let ?producer = "\<lambda>(rd, sr, _, rs, en, n). (rd, sr, None, rs, en, n)"
  have t: "turns (shutdown env) ((((((?engine \<circ> ?redis) \<circ> ?reddit) \<circ> id) \<circ> id) \<circ> ?producer) \<circ> id \<circ> id)"
    unfolding shutdown_def by (intro turns_andthen turns_parts turns_close)
  have e: "(((((?engine \<circ> ?redis) \<circ> ?reddit) \<circ> id) \<circ> id) \<circ> ?producer) \<circ> id \<circ> id =
      (\<lambda>(rd, sr, _, _, _, n). (if sr \<noteq> None \<and> rd = sr then None else rd, sr, None, None, None, n))"
    by (rule ext) (simp only: o_apply id_apply split: prod.split, simp)
  from arg_cong [OF e, of "turns (shutdown env)"] t show ?thesis by (rule iffD1)
qed

text \<open>All clients are there, and none is older than the \<open>n\<close>-th.\<close>

definition fresh_clients :: "nat \<Rightarrow> app \<Rightarrow> bool" where
  "fresh_clients n app =
     ((\<exists>e \<ge> n. ap_engine app = Some e) \<and> (\<exists>r \<ge> n. ap_redis app = Some r \<and> ap_state_redis app = Some r) \<and>
      (\<exists>c \<ge> n. ap_reddit app = Some c \<and> ap_state_reddit app = Some c) \<and> (\<exists>p \<ge> n. ap_producer app = Some p) \<and>
      ap_sessions app)"

lemma wp_lazy: "p = p' \<Longrightarrow> l = l' \<Longrightarrow> wp p Q l v = wp p' Q l' v"
  by simp

lemma wp_startup:
  assumes "ap_reddit app = None" and "ap_producer app = None" and "ap_redis app = None"
  shows "wp (startup env) (\<lambda>r app' v'. isl r \<or> fresh_clients (ap_made app) app') app v"
  using assms
  by (simp add: startup_def get_engine_def init_db_def get_redis_def get_reddit_client_def create_runner_def get_kafka_producer_from_settings_def
      get_kafka_producer_def start_flusher_def start_background_def start_reconciliation_def new_manager_def
      wp_bind wp_andthen wp_basic wp_clients manager_part.wp_embed flusher_part.wp_embed cleanup_part.wp_embed cong: wp_lazy)
    (simp add: fresh_clients_def)

text \<open>C31: after a shutdown that returns, a startup in the same process that returns has made all its
  clients anew: the database engine, the Redis client, the Reddit client and the Kafka producer
  are none of those that were closed.\<close>

theorem restart_uses_new_clients:
  assumes "documented_services S V" and "ap_state_reddit app \<noteq> None" and "ap_reddit app = ap_state_reddit app"
    and "run S (shutdown env) app w = (Inr (), app1, w1)" and "run S (startup env) app1 w1 = (Inr (), app2, w2)"
  shows "fresh_clients (ap_made app) app2"
proof -
  have "wp (shutdown env) (\<lambda>r l' v'. isl r \<or>
      clients l' = (\<lambda>(rd, sr, _, _, _, n). (if sr \<noteq> None \<and> rd = sr then None else rd, sr, None, None, None, n)) (clients app)) app (V w)"
    using turns_shutdown [of env] by (simp add: turns_def)
  from documented_services.run_wp [OF assms(1,4) this] assms(2,3)
  have "ap_reddit app1 = None" "ap_producer app1 = None" "ap_redis app1 = None" "ap_made app1 = ap_made app"
    by (simp_all add: clients_def)
  from documented_services.run_wp [OF assms(1,5) wp_startup [OF this(1,2,3)]] this(4) show ?thesis by simp
qed

lemmas life_runs = shutdown_def stop_background_def stop_all_def stop_reconciliation_def flush_kafka_producer_def flush_def
  flush_owned_def stop_flusher_def close_reddit_def close_redis_def close_db_def startup_def get_engine_def init_db_def get_redis_def
  get_reddit_client_def create_runner_def get_kafka_producer_from_settings_def get_kafka_producer_def
  start_flusher_def start_background_def start_reconciliation_def with_lock_def attempt_def idle_task_def manager_of_def
  release_mutex_def manager_part.run_embed flusher_part.run_embed cleanup_part.run_embed

theorem restart_uses_new_clients_witness:
  "\<exists>app1 w1 app2 w2. run ref_services (shutdown aenv1) serving_app (ref_start empty_view []) = (Inr (), app1, w1) \<and>
     run ref_services (startup aenv1) app1 w1 = (Inr (), app2, w2) \<and> ap_redis app2 \<noteq> Some 1"
    (is "\<exists>app1 w1 app2 w2. ?down = _ \<and> _")
proof -
  have "\<exists>app1 w1 app2 w2. ?down = (Inr (), app1, w1) \<and> run ref_services (startup aenv1) app1 w1 = (Inr (), app2, w2)"
    by (simp add: ref_run life_runs cong: lazy)
  then obtain app1 w1 app2 w2 where e: "?down = (Inr (), app1, w1)" "run ref_services (startup aenv1) app1 w1 = (Inr (), app2, w2)"
    by blast
  have "fresh_clients 4 app2"
    using restart_uses_new_clients [OF ref.documented_services_axioms _ _ e] by simp
  with e show ?thesis by (auto simp: fresh_clients_def)
qed

end
