(* ===== verification/Metrics.thy ===== *)
theory Metrics
  imports Services
begin

section \<open>The declarations of the metrics\<close>

text \<open>
  src/observability/metrics.py: the metrics \<^verbatim>\<open>ApplicationMetrics\<close> declares, as the attributes the components use
  them by, and its method \<open>render\<close>. A metric recorded under an attribute that is not declared, with an operation its kind
  does not have or with another number of labels, raises in Python; a program's \<open>Emit\<close> cannot raise,
  so theory Metrics\_Theorems shows that no program records such a metric. How Prometheus's client writes the text
  of a page is a parameter.
\<close>

subsection \<open>Families\<close>

text \<open>The bounds of a histogram's buckets.\<close>

datatype metric_kind = Counter | Gauge | Histogram "rat list"

record family =
  fa_attribute :: string
  fa_name :: string
  fa_help :: string
  fa_kind :: metric_kind
  fa_labels :: "string list"

definition family :: "string \<Rightarrow> string \<Rightarrow> string \<Rightarrow> metric_kind \<Rightarrow> string list \<Rightarrow> family" where
  "family attribute name hlp kind labels =
     \<lparr>fa_attribute = attribute, fa_name = name, fa_help = hlp, fa_kind = kind, fa_labels = labels\<rparr>"

definition http_families :: "family list" where
  "http_families =
    [family ''http_requests'' ''reddit_kafka_http_requests_total''
       ''HTTP requests handled by the control plane.''
       Counter [''method'', ''route'', ''status_code''],
     family ''http_request_duration'' ''reddit_kafka_http_request_duration_seconds''
       ''Control-plane request latency.''
       (Histogram [5/1000, 1/100, 25/1000, 5/100, 1/10, 25/100, 5/10, 1, 25/10, 5]) [''method'', ''route''],
     family ''http_in_progress'' ''reddit_kafka_http_requests_in_progress''
       ''Control-plane requests currently being handled.''
       Gauge [''method'']]"

definition stream_families :: "family list" where
  "stream_families =
    [family ''active_streams'' ''reddit_kafka_active_streams''
       ''Stream workers currently owned by this process.''
       Gauge [],
     family ''stream_lifecycle'' ''reddit_kafka_stream_lifecycle_total''
       ''Stream lifecycle transitions.''
       Counter [''transition'', ''result''],
     family ''comments'' ''reddit_kafka_comments_total''
       ''Reddit comments handled by processing outcome.''
       Counter [''outcome''],
     family ''reddit_comments_received'' ''reddit_kafka_reddit_comments_received_total''
       ''Comments observed on Reddit streams before processing.''
       Counter [],
     family ''comment_processing_duration'' ''reddit_kafka_comment_processing_duration_seconds''
       ''Time spent validating, serializing, and queuing a comment.''
       (Histogram [1/1000, 25/10000, 5/1000, 1/100, 25/1000, 5/100, 1/10, 25/100, 5/10, 1]) [''outcome''],
     family ''kafka_deliveries'' ''reddit_kafka_kafka_deliveries_total''
       ''Kafka delivery callback outcomes.''
       Counter [''result''],
     family ''kafka_delivery_bytes'' ''reddit_kafka_kafka_delivery_bytes_total''
       ''Serialized payload bytes reported by Kafka delivery callbacks.''
       Counter [''result''],
     family ''last_delivery_timestamp'' ''reddit_kafka_last_delivery_timestamp_seconds''
       ''Unix timestamp of the most recent successful Kafka delivery.''
       Gauge []]"

definition operation_families :: "family list" where
  "operation_families =
    [family ''errors'' ''reddit_kafka_errors_total''
       ''Operational errors by bounded exception class and recoverability.''
       Counter [''error_type'', ''recoverable''],
     family ''lock_operations'' ''reddit_kafka_lock_operations_total''
       ''Distributed lease operations.''
       Counter [''operation'', ''result''],
     family ''checkpoint_flushes'' ''reddit_kafka_checkpoint_flushes_total''
       ''Checkpoint flush attempts.''
       Counter [''result''],
     family ''checkpoint_batch_size'' ''reddit_kafka_checkpoint_batch_size''
       ''Number of checkpoints in each PostgreSQL upsert.''
       (Histogram [0, 1, 2, 5, 10, 25, 50, 100, 250]) [],
     family ''checkpoint_flush_duration'' ''reddit_kafka_checkpoint_flush_duration_seconds''
       ''Redis-to-PostgreSQL checkpoint flush latency.''
       (Histogram [5/1000, 1/100, 25/1000, 5/100, 1/10, 25/100, 5/10, 1, 25/10, 5]) [''result''],
     family ''circuit_breaker_transitions'' ''reddit_kafka_circuit_breaker_transitions_total''
       ''Circuit breaker state transitions.''
       Counter [''state''],
     family ''cleanup_runs'' ''reddit_kafka_cleanup_runs_total''
       ''Dead-stream cleanup sweeps.''
       Counter [''result''],
     family ''cleanup_removed'' ''reddit_kafka_cleanup_removed_streams_total''
       ''Terminal registry entries removed by cleanup.''
       Counter [],
     family ''dependency_ready'' ''reddit_kafka_dependency_ready''
       ''Whether a readiness dependency passed its latest check.''
       Gauge [''dependency'']]"

definition application_metrics :: "family list" where
  "application_metrics = http_families @ stream_families @ operation_families"

subsection \<open>Recording\<close>

fun metric_name :: "metric \<Rightarrow> string" where
  "metric_name (Inc n ls) = n"
| "metric_name (Inc_By n ls k) = n"
| "metric_name (Gauge_Inc n ls) = n"
| "metric_name (Gauge_Dec n ls) = n"
| "metric_name (Gauge_Set n ls k) = n"
| "metric_name (Gauge_Now n) = n"
| "metric_name (Observe n ls) = n"

fun metric_labels :: "metric \<Rightarrow> string list" where
  "metric_labels (Inc n ls) = ls"
| "metric_labels (Inc_By n ls k) = ls"
| "metric_labels (Gauge_Inc n ls) = ls"
| "metric_labels (Gauge_Dec n ls) = ls"
| "metric_labels (Gauge_Set n ls k) = ls"
| "metric_labels (Gauge_Now n) = []"
| "metric_labels (Observe n ls) = ls"

text \<open>The methods of the client's classes: \<^verbatim>\<open>inc\<close> of a counter, \<^verbatim>\<open>inc\<close>, \<^verbatim>\<open>dec\<close>, \<^verbatim>\<open>set\<close> and
  \<^verbatim>\<open>set_to_current_time\<close> of a gauge, \<^verbatim>\<open>observe\<close> of a histogram.\<close>

fun kind_allows :: "metric_kind \<Rightarrow> metric \<Rightarrow> bool" where
  "kind_allows Counter (Inc n ls) = True"
| "kind_allows Counter (Inc_By n ls k) = True"
| "kind_allows Gauge (Gauge_Inc n ls) = True"
| "kind_allows Gauge (Gauge_Dec n ls) = True"
| "kind_allows Gauge (Gauge_Set n ls k) = True"
| "kind_allows Gauge (Gauge_Now n) = True"
| "kind_allows (Histogram bs) (Observe n ls) = True"
| "kind_allows _ _ = False"

definition declared :: "metric \<Rightarrow> bool" where
  "declared m =
     (case find (\<lambda>fa. fa_attribute fa = metric_name m) application_metrics of
        None \<Rightarrow> False
      | Some fa \<Rightarrow> kind_allows (fa_kind fa) m \<and> length (metric_labels m) = length (fa_labels fa))"

subsection \<open>What a page shows\<close>

text \<open>The children of a family that exist: one without labels has its only child from the start, the two results of
  \<^verbatim>\<open>kafka_delivery_bytes\<close> are created by the constructor, and any other is created when it is first recorded.
  The value of a histogram is its number of observations; the times of day of a gauge are not kept. The list of recorded
  metrics has the latest first.\<close>

definition precreated :: "(string \<times> string list) list" where
  "precreated =
     map (\<lambda>fa. (fa_attribute fa, [])) (filter (\<lambda>fa. fa_labels fa = []) application_metrics) @
     map (\<lambda>result. (''kafka_delivery_bytes'', [result])) [''success'', ''error'']"

definition children :: "metric list \<Rightarrow> (string \<times> string list) list" where
  "children ms = remdups (precreated @ map (\<lambda>m. (metric_name m, metric_labels m)) ms)"

fun child_value :: "string \<Rightarrow> string list \<Rightarrow> metric list \<Rightarrow> int" where
  "child_value n ls [] = 0"
| "child_value n ls (m # ms) =
     (let before = child_value n ls ms in
      if metric_name m \<noteq> n \<or> metric_labels m \<noteq> ls then before
      else case m of
          Inc _ _ \<Rightarrow> before + 1
        | Inc_By _ _ k \<Rightarrow> before + int k
        | Gauge_Inc _ _ \<Rightarrow> before + 1
        | Gauge_Dec _ _ \<Rightarrow> before - 1
        | Gauge_Set _ _ k \<Rightarrow> int k
        | Gauge_Now _ \<Rightarrow> before
        | Observe _ _ \<Rightarrow> before + 1)"

definition samples :: "metric list \<Rightarrow> ((string \<times> string list) \<times> int) list" where
  "samples ms = map (\<lambda>(n, ls). ((n, ls), child_value n ls ms)) (children ms)"

definition render :: "(((string \<times> string list) \<times> int) list \<Rightarrow> string) \<Rightarrow> metric list \<Rightarrow> string" where
  "render generate_latest ms = generate_latest (samples ms)"

end
