(* ===== verification/Config_Theorems.thy ===== *)
theory Config_Theorems
  imports Config
begin

section \<open>Which environments the settings are read from\<close>

text \<open>
  The fields of a class, one by one, against what an environment must hold as a whole: every
  required variable, and in every variable a value of its type and within its bounds (\<open>usable\<close>).
\<close>

subsection \<open>Fields\<close>

lemma constrained_Some [simp]: "constrained P parse text = Some x \<longleftrightarrow> parse text = Some x \<and> P x"
  by (auto simp: constrained_def split: option.splits)

lemma assign_simps [simp]:
  "variable (required name parse put) = name" "variable (with_default name parse d put) = name"
  "\<not> Option.is_none (assign (required name parse put) v) \<longleftrightarrow> v \<noteq> None \<and> (\<forall>t. v = Some t \<longrightarrow> parse t \<noteq> None)"
  "\<not> Option.is_none (assign (with_default name parse d put) v) \<longleftrightarrow> (\<forall>t. v = Some t \<longrightarrow> parse t \<noteq> None)"
  by (auto simp: required_def with_default_def Option.is_none_def split: option.splits)

lemma assign_Some:
  "assign (required name parse put) v = Some g \<longleftrightarrow> (\<exists>t x. v = Some t \<and> parse t = Some x \<and> g = put x)"
  "assign (with_default name parse d put) v = Some g \<longleftrightarrow>
     (v = None \<and> g = put d \<or> (\<exists>t x. v = Some t \<and> parse t = Some x \<and> g = put x))"
  by (auto simp: required_def with_default_def split: option.splits)

lemma accepted_Some [simp]: "accepted r = Some x \<longleftrightarrow> r = Inr x"
  by (cases r) (auto simp: accepted_def)

lemma accepted_none [simp]: "Option.is_none (accepted (read_fields specs env blank)) \<longleftrightarrow> rejected specs env \<noteq> []"
  by (simp add: read_fields_def accepted_def Option.is_none_def split: list.split)

text \<open>A record keeps what every field's assignment keeps.\<close>

lemma read_fields_keeps:
  assumes "read_fields specs env blank = Inr r" and "P blank"
    and "\<forall>f \<in> set specs. \<forall>g s. assign f (env (variable f)) = Some g \<longrightarrow> P s \<longrightarrow> P (g s)"
  shows "P r"
proof -
  have "P (fold (\<lambda>f r. case assign f (env (variable f)) of None \<Rightarrow> r | Some put \<Rightarrow> put r) specs s)" if "P s" for s
    using assms(3) that by (induction specs arbitrary: s) (auto split: option.splits)
  with assms(1,2) show ?thesis by (auto simp: read_fields_def split: list.splits)
qed

lemma rejected_cong:
  "(\<And>f. f \<in> set specs \<Longrightarrow> env (variable f) = env' (variable f)) \<Longrightarrow> rejected specs env = rejected specs env'"
  unfolding rejected_def by (intro arg_cong [where f = "map variable"] filter_cong) simp_all

subsection \<open>Usable environments\<close>

definition required_variables :: "string list" where
  "required_variables =
     [''REDDIT_CLIENT_ID'', ''REDDIT_CLIENT_SECRET'', ''REDDIT_USER_AGENT'', ''KAFKA_BOOTSTRAP_SERVERS'', ''KAFKA_RAW_TEXT_TOPIC'',
      ''REDIS_HOST'', ''REDIS_PORT'', ''REDIS_USER'', ''REDIS_PASSWORD'',
      ''POSTGRES_HOST'', ''POSTGRES_PORT'', ''POSTGRES_USER'', ''POSTGRES_PASSWORD'', ''POSTGRES_DB'']"

abbreviation reads :: "(string \<Rightarrow> 'a option) \<Rightarrow> ('a \<Rightarrow> bool) \<Rightarrow> string \<Rightarrow> bool" where
  "reads parse P text \<equiv> \<exists>x. parse text = Some x \<and> P x"

definition value_checks :: "pydantic \<Rightarrow> (string \<times> (string \<Rightarrow> bool)) list" where
  "value_checks px =
     [(''REDIS_PORT'', reads (px_int px) (\<lambda>_. True)), (''REDIS_USE_SSL'', reads (px_bool px) (\<lambda>_. True)),
      (''POSTGRES_PORT'', reads (px_int px) (\<lambda>_. True)),
      (''KAFKA_DELIVERY_WAIT_TIMEOUT'', reads (px_float px) (\<lambda>x. 0 < x)),
      (''USE_AWS_SCHEMA_REGISTRY'', reads (px_bool px) (\<lambda>_. True)), (''SCHEMA_VERSION'', reads (px_int px) (\<lambda>x. 0 < x)),
      (''TRACES_ENABLED'', reads (px_bool px) (\<lambda>_. True)), (''OTEL_LOGS_EXPORT_ENABLED'', reads (px_bool px) (\<lambda>_. True)),
      (''OTEL_TRACE_SAMPLE_RATIO'', reads (px_float px) (\<lambda>x. 0 \<le> x \<and> x \<le> 1)), (''JSON_LOGS'', reads (px_bool px) (\<lambda>_. True)),
      (''DB_FLUSH_INTERVAL'', reads (px_int px) (\<lambda>_. True)), (''DEAD_STREAM_CLEANUP_INTERVAL'', reads (px_int px) (\<lambda>_. True)),
      (''STREAM_RECONCILE_INTERVAL'', reads (px_int px) (\<lambda>x. 0 < x))]"

definition usable :: "pydantic \<Rightarrow> environ \<Rightarrow> bool" where
  "usable px env \<longleftrightarrow> list_all (\<lambda>v. env v \<noteq> None) required_variables \<and>
     list_all (\<lambda>(v, ok). \<forall>text. env v = Some text \<longrightarrow> ok text) (value_checks px)"

text \<open>No variable gives a class as a whole.\<close>

definition plain_environ :: "environ \<Rightarrow> bool" where
  "plain_environ env \<longleftrightarrow>
     list_all (\<lambda>v. env v = None) [''REDDIT'', ''KAFKA'', ''REDIS'', ''POSTGRES'', ''SCHEMA_SETTINGS'', ''OBSERVABILITY'']"

lemmas class_fields = interval_fields_def reddit_fields_def kafka_fields_def redis_fields_def postgres_fields_def
  schema_fields_def observability_fields_def

text \<open>Each class accepts what it requires.\<close>

lemma none_rejected:
  "rejected specs env = [] \<longleftrightarrow> (\<forall>f \<in> set specs. \<not> Option.is_none (assign f (env (variable f))))"
  by (simp add: rejected_def filter_empty_conv)

lemma section_accepted:
  "plain_environ env \<Longrightarrow> name \<in> {''REDDIT'', ''KAFKA'', ''REDIS'', ''POSTGRES'', ''SCHEMA_SETTINGS'', ''OBSERVABILITY''} \<Longrightarrow>
     read_section px name specs env blank = accepted (read_fields specs env blank)"
  by (auto simp: read_section_def plain_environ_def)

lemma bind_none [simp]: "Option.is_none (Option.bind x f) \<longleftrightarrow> Option.is_none x \<or> Option.is_none (f (the x))"
  by (cases x) auto

lemma accepts_settings:
  assumes "plain_environ env"
  shows "\<not> Option.is_none (read_settings px env) \<longleftrightarrow>
    rejected (interval_fields px) env = [] \<and> rejected reddit_fields env = [] \<and> rejected (kafka_fields px) env = [] \<and>
    rejected (redis_fields px) env = [] \<and> rejected (postgres_fields px) env = [] \<and> rejected (schema_fields px) env = [] \<and>
    rejected (observability_fields px) env = []"
  by (auto simp: read_settings_def section_accepted [OF assms])

lemma read_settings_usable:
  assumes "plain_environ env"
  shows "\<not> Option.is_none (read_settings px env) \<longleftrightarrow> usable px env"
  unfolding accepts_settings [OF assms] none_rejected class_fields usable_def required_variables_def value_checks_def
  by (simp, intro iffI; elim conjE; intro conjI; assumption)

subsection \<open>Bounds\<close>

definition within_bounds :: "settings \<Rightarrow> bool" where
  "within_bounds s \<longleftrightarrow> 0 < st_stream_reconcile_interval s \<and> 0 < ks_delivery_wait_timeout (st_kafka s) \<and>
     0 < ss_schema_version (st_schema s) \<and>
     0 \<le> os_trace_sample_ratio (st_observability s) \<and> os_trace_sample_ratio (st_observability s) \<le> 1"

lemma bind_Some [simp]: "Option.bind x f = Some r \<longleftrightarrow> (\<exists>a. x = Some a \<and> f a = Some r)"
  by (cases x) auto

lemma read_section_Some: "read_section px name specs env blank = Some r \<Longrightarrow> \<exists>env'. read_fields specs env' blank = Inr r"
  by (auto simp: read_section_def split: option.splits)

lemma section_keeps:
  assumes "read_section px name specs env blank = Some r" and "P blank"
    and "\<forall>f \<in> set specs. \<forall>v g s. assign f v = Some g \<longrightarrow> P s \<longrightarrow> P (g s)"
  shows "P r"
  using read_section_Some [OF assms(1)] read_fields_keeps [of specs _ blank r P] assms(2,3) by blast

lemma intervals_bounded:
  "read_fields (interval_fields px) env s = Inr r \<Longrightarrow> 0 < st_stream_reconcile_interval s \<and> st_kafka s = k \<and> st_schema s = c \<and> st_observability s = b \<Longrightarrow>
     0 < st_stream_reconcile_interval r \<and> st_kafka r = k \<and> st_schema r = c \<and> st_observability r = b"
  by (erule read_fields_keeps) (auto simp: interval_fields_def assign_Some)

lemma kafka_bounded:
  "read_section px name (kafka_fields px) env s = Some r \<Longrightarrow> 0 < ks_delivery_wait_timeout s \<Longrightarrow> 0 < ks_delivery_wait_timeout r"
  by (erule section_keeps) (auto simp: kafka_fields_def assign_Some)

lemma schema_bounded:
  "read_section px name (schema_fields px) env s = Some r \<Longrightarrow> 0 < ss_schema_version s \<Longrightarrow> 0 < ss_schema_version r"
  by (erule section_keeps) (auto simp: schema_fields_def assign_Some)

lemma observability_bounded:
  "read_section px name (observability_fields px) env s = Some r \<Longrightarrow> 0 \<le> os_trace_sample_ratio s \<and> os_trace_sample_ratio s \<le> 1 \<Longrightarrow>
     0 \<le> os_trace_sample_ratio r \<and> os_trace_sample_ratio r \<le> 1"
  by (erule section_keeps) (auto simp: observability_fields_def assign_Some)

lemma read_settings_bounded:
  assumes "read_settings px env = Some s"
  shows "within_bounds s"
proof -
  from assms obtain t kafka schema observability where
    t: "read_fields (interval_fields px) env blank_settings = Inr t" and
    k: "read_section px ''KAFKA'' (kafka_fields px) env (st_kafka t) = Some kafka" and
    c: "read_section px ''SCHEMA_SETTINGS'' (schema_fields px) env (st_schema t) = Some schema" and
    b: "read_section px ''OBSERVABILITY'' (observability_fields px) env (st_observability t) = Some observability" and
    s: "st_stream_reconcile_interval s = st_stream_reconcile_interval t" "st_kafka s = kafka" "st_schema s = schema" "st_observability s = observability"
    by (auto simp: read_settings_def)
  from intervals_bounded [OF t, of "st_kafka blank_settings" "st_schema blank_settings" "st_observability blank_settings"]
  have "0 < st_stream_reconcile_interval t" "0 < ks_delivery_wait_timeout (st_kafka t)" "0 < ss_schema_version (st_schema t)"
    "0 \<le> os_trace_sample_ratio (st_observability t) \<and> os_trace_sample_ratio (st_observability t) \<le> 1"
    by (simp_all add: blank_settings_def)
  with kafka_bounded [OF k] schema_bounded [OF c] observability_bounded [OF b] show ?thesis
    by (simp add: within_bounds_def s)
qed

subsection \<open>The database's URL\<close>

text \<open>\<^verbatim>\<open>build_postgres_url\<close> quotes nothing: the URL determines the settings if none of its delimiters is in a part
  before it.\<close>

lemma split_unique:
  "c \<notin> set a \<Longrightarrow> c \<notin> set a' \<Longrightarrow> a @ c # b = a' @ c # b' \<longleftrightarrow> a = a' \<and> b = b'"
proof (induction a arbitrary: a')
  case Nil
  then show ?case by (cases a') auto
next
  case (Cons x a)
  then show ?case by (cases a') auto
qed

lemma read_show_nat [simp]: "read_nat (show_nat n) = n"
proof (induction n rule: show_nat.induct)
  case (1 n)
  then show ?case
    by (subst show_nat.simps) (auto simp: read_nat_append, simp add: read_nat_def)
qed

lemma show_nat_digits: "list_all is_digit (show_nat n)"
proof (induction n rule: show_nat.induct)
  case (1 n)
  then show ?case by (subst show_nat.simps) auto
qed

lemma show_nat_chars: "\<not> is_digit c \<Longrightarrow> c \<notin> set (show_nat n)"
  using show_nat_digits [of n] by (auto simp: list_all_iff)

lemma show_int_chars: "\<not> is_digit c \<Longrightarrow> c \<noteq> CHR ''-'' \<Longrightarrow> c \<notin> set (show_int i)"
  by (simp add: show_int_def show_nat_chars)

lemma show_nat_eq [simp]: "show_nat m = show_nat n \<longleftrightarrow> m = n"
  by (metis read_show_nat)

lemma show_nat_no_minus: "show_nat n \<noteq> CHR ''-'' # t"
  using show_nat_chars [of "CHR ''-''" n] by (auto simp: is_digit_def)

lemma show_int_eq [simp]: "show_int i = show_int j \<longleftrightarrow> i = j"
  using show_nat_no_minus show_nat_no_minus [THEN not_sym] by (auto simp: show_int_def nat_eq_iff)

definition unambiguous :: "postgres_settings \<Rightarrow> bool" where
  "unambiguous s \<longleftrightarrow> CHR '':'' \<notin> set (ps_user s) \<and> CHR ''@'' \<notin> set (ps_password s) \<and> CHR '':'' \<notin> set (ps_host s)"

lemma postgres_url_determines:
  assumes "unambiguous s" and "unambiguous s'"
  shows "build_postgres_url s = build_postgres_url s' \<longleftrightarrow> s = s'"
proof -
  have "CHR ''/'' \<notin> set (show_int i)" for i
    by (rule show_int_chars) (simp_all add: is_digit_def)
  with assms show ?thesis
    by (cases s; cases s') (auto simp: build_postgres_url_def unambiguous_def split_unique)
qed

text \<open>Otherwise it may not: this is the URL of another password on another host as well.\<close>

lemma postgres_url_ambiguous:
  "build_postgres_url \<lparr>ps_host = ''db'', ps_port = 5432, ps_user = ''app'', ps_password = ''p@q'', ps_db = ''reddit''\<rparr> =
   build_postgres_url \<lparr>ps_host = ''q@db'', ps_port = 5432, ps_user = ''app'', ps_password = ''p'', ps_db = ''reddit''\<rparr>"
  by (simp add: build_postgres_url_def)

end
