(* ===== verification/Telemetry_Theorems.thy ===== *)
theory Telemetry_Theorems
  imports Telemetry App_Theorems Metrics Config_Theorems
begin

section \<open>What telemetry promises\<close>

text \<open>
  The request metrics of src/observability/telemetry.py, whatever the request's handler does, and what becomes of
  tracing when the application is started again in the same process.
\<close>

subsection \<open>The metrics of a request\<close>

definition http_metric :: "metric \<Rightarrow> bool" where
  "http_metric m = List.member [''http_in_progress'', ''http_requests'', ''http_request_duration''] (metric_name m)"

lemma http_metric_simps [simp]:
  "http_metric (Gauge_Inc ''http_in_progress'' ls)" "http_metric (Gauge_Dec ''http_in_progress'' ls)"
  "http_metric (Inc ''http_requests'' ls)" "http_metric (Observe ''http_request_duration'' ls)"
  by (simp_all add: http_metric_def)

definition http_metrics :: "view \<Rightarrow> metric list" where
  "http_metrics v = filter http_metric (metrics v)"

lemma http_metrics_simps [simp]:
  "http_metrics (v\<lparr>metrics := m # ms\<rparr>) = (if http_metric m then m # http_metrics (v\<lparr>metrics := ms\<rparr>) else http_metrics (v\<lparr>metrics := ms\<rparr>))"
  "http_metrics (v\<lparr>metrics := metrics v\<rparr>) = http_metrics v"
  "http_metrics (issued u v) = http_metrics v"
  by (simp_all add: http_metrics_def issued_def)

lemma http_metrics_documented: "documented c v r v' \<Longrightarrow> http_metrics v' = http_metrics v"
  by (cases c; cases r) (auto simp: http_metrics_def)

text \<open>A program that leaves the metrics of requests to the middleware.\<close>

primrec quiet :: "('l, 'a) prog \<Rightarrow> bool" where
  "quiet (Ret x) = True"
| "quiet (Raise e) = True"
| "quiet (Call c k) = (\<forall>r. quiet (k r))"
| "quiet (Get_Local k) = (\<forall>l. quiet (k l))"
| "quiet (Put_Local l p) = quiet p"
| "quiet (Emit m p) = (\<not> http_metric m \<and> quiet p)"

lemma wp_quiet: "quiet p \<Longrightarrow> wp p (\<lambda>_ _ v'. http_metrics v' = http_metrics v) l v"
proof -
  have "quiet p \<Longrightarrow> http_metrics v1 = h \<Longrightarrow> wp p (\<lambda>_ _ v'. http_metrics v' = h) l v1" for h v1
  proof (induction p arbitrary: l v1)
    case (Call c k)
    then show ?case by (auto dest: http_metrics_documented)
  qed auto
  then show "quiet p \<Longrightarrow> wp p (\<lambda>_ _ v'. http_metrics v' = http_metrics v) l v" by blast
qed

lemma quiet_bind: "quiet p \<Longrightarrow> (\<And>x. quiet (f x)) \<Longrightarrow> quiet (bind p f)"
  by (induction p) auto

definition good_id :: "dict \<Rightarrow> view \<Rightarrow> string \<Rightarrow> bool" where
  "good_id headers v i =
     (let given = or_empty (dict_get headers ''x-request-id'') in
      if given = [] \<or> 128 < length given then i \<noteq> [] \<and> i \<notin> set (uuids v) else i = given)"

definition observed :: "http_request \<Rightarrow> 'a http_context_scheme \<Rightarrow> view \<Rightarrow> pyexn + http_response \<Rightarrow> 'a http_context_scheme \<Rightarrow> view \<Rightarrow> bool" where
  "observed request cx v r cx' v' =
     (cx_request_id cx' = cx_request_id cx \<and>
      (\<forall>response. r = Inr response \<longrightarrow> (\<exists>i. dict_get (rs_headers response) ''x-request-id'' = Some i \<and> good_id (rq_headers request) v i)) \<and>
      (\<not> List.member probe_paths (rq_path request) \<longrightarrow>
        (\<exists>sp. cx_span cx' = Some sp \<and> sp_route sp = request_route cx' \<and>
          sp_status sp = (case r of Inl _ \<Rightarrow> 500 | Inr response \<Rightarrow> rs_status response) \<and> (sp_error sp \<longleftrightarrow> 500 \<le> sp_status sp))) \<and>
      http_metrics v' =
        (if List.member probe_paths (rq_path request) then []
         else [Observe ''http_request_duration'' [rq_method request, request_route cx'],
               Inc ''http_requests'' [rq_method request, request_route cx', show_nat (case r of Inl _ \<Rightarrow> 500 | Inr response \<Rightarrow> rs_status response)],
               Gauge_Dec ''http_in_progress'' [rq_method request], Gauge_Inc ''http_in_progress'' [rq_method request]]) @ http_metrics v)"

lemma wp_correlation_id:
  "wp (correlation_id headers) (\<lambda>r l' v'. l' = l \<and> http_metrics v' = http_metrics v \<and> (\<exists>i. r = Inr i \<and> good_id headers v i)) l v"
  by (auto simp: correlation_id_def good_id_def Let_def wp_uuid4)

lemma with_id_sel [simp]:
  "rs_status (with_request_id i response) = rs_status response"
  "dict_get (rs_headers (with_request_id i response)) ''x-request-id'' = Some i"
  by (simp_all add: with_request_id_def)

lemma route_of_id [simp]:
  "request_route (cx\<lparr>cx_request_id := i\<rparr>) = request_route cx" "request_route (cx\<lparr>cx_span := x\<rparr>) = request_route cx"
  by (simp_all add: request_route_def)

lemma span_sel [simp]:
  "sp_route (ended_span request route n r) = route" "sp_status (ended_span request route n r) = n"
  "sp_error (ended_span request route n (Inr x)) \<longleftrightarrow> 500 \<le> n" "sp_error (ended_span request route 500 (Inl e))"
  by (simp_all add: ended_span_def Let_def)

lemma wp_observe:
  assumes "quiet (call_next request)"
  shows "wp (observe_http_request request call_next) (\<lambda>r cx' v'. observed request cx v r cx' v') cx v"
proof -
  have tail: "wp (call_next request) (\<lambda>r l' v'. http_metrics v' = http_metrics v1) l1 v1" for l1 v1
    by (rule wp_quiet [OF assms])
  show ?thesis
    unfolding observe_http_request_def
  proof (rule wp_seq [OF wp_correlation_id])
    fix i l1 v1
    assume "l1 = cx \<and> http_metrics v1 = http_metrics v \<and> (\<exists>i'. Inr i = Inr i' \<and> good_id (rq_headers request) v i')"
    then have 1: "l1 = cx" "http_metrics v1 = http_metrics v" "good_id (rq_headers request) v i" by auto
    show "wp (bind get_local (\<lambda>cx. andthen (set_request_id i)
       (if List.member probe_paths (rq_path request) then
          finally_do (bind (call_next request) (\<lambda>response. Ret (with_request_id i response))) (set_request_id (cx_request_id cx))
        else andthen (emit (Gauge_Inc ''http_in_progress'' [rq_method request]))
            (bind (attempt (call_next request)) (finish_request request (cx_request_id cx) i))))) 
       (\<lambda>r cx' v'. observed request cx v r cx' v') l1 v1"
    proof (cases "List.member probe_paths (rq_path request)")
      case True
      with 1 show ?thesis
        by (simp add: wp_bind [where p = get_local] wp_andthen wp_finally wp_bind [where p = "call_next request"] wp_basic set_request_id_def)
          (rule wp_mono [OF tail], auto simp: observed_def wp_basic split: sum.splits)
    next
      case False
      with 1 show ?thesis
        by (simp add: wp_bind [where p = get_local] wp_andthen wp_bind [where p = "attempt p" for p] wp_attempt wp_basic set_request_id_def)
          (rule wp_mono [OF tail], auto simp: finish_request_def set_request_id_def set_span_def Let_def wp_rules observed_def split: sum.splits)
    qed
  qed auto
qed

text \<open>Whatever a request's handler does, be it that it answers, raises or is cancelled, the middleware leaves the
  gauge of requests in progress as it was, has counted and timed the request once, under its method, route and status, 500
  if the handler raised, and has restored the caller's correlation id; probes are not counted. The request's span carries the same route and status, and is an
  error exactly from status 500 on. An answer carries the
  client's correlation id, or a new one if the client sent none or one of more than 128 characters.\<close>

theorem http_request_observed:
  assumes "documented_services S V" and "quiet (call_next request)"
    and "run S (observe_http_request request call_next) cx w = (r, cx', w')"
  shows "observed request cx (V w) r cx' (V w')"
  using documented_services.run_wp [OF assms(1,3) wp_observe [of call_next request, OF assms(2)]] .

definition get_streams :: http_request where
  "get_streams = \<lparr>rq_method = ''GET'', rq_path = ''/streams'', rq_headers = [(''x-request-id'', ''abc'')]\<rparr>"

definition failing_handler :: "http_request \<Rightarrow> (http_context, http_response) prog" where
  "failing_handler request = andthen (modify_local (\<lambda>cx. cx\<lparr>cx_route := Some ''/streams''\<rparr>)) (Raise response_error)"

theorem http_request_observed_witness:
  "case run ref_services (observe_http_request get_streams failing_handler) \<lparr>cx_request_id = ''x'', cx_route = None, cx_span = None\<rparr> (ref_start empty_view []) of
     (r, cx', w') \<Rightarrow> observed get_streams \<lparr>cx_request_id = ''x'', cx_route = None, cx_span = None\<rparr> empty_view r cx' (rview w')"
    (is "case ?run of (r, cx', w') \<Rightarrow> _")
proof -
  obtain r cx' w' where e: "?run = (r, cx', w')" by (rule prod_cases3)
  have "quiet (failing_handler get_streams)"
    by (simp add: failing_handler_def andthen_def modify_local_def)
  from http_request_observed [OF ref.documented_services_axioms this e] show ?thesis
    unfolding e by simp
qed

subsection \<open>Configuring telemetry\<close>

lemma exporters_keep [simp]:
  "tl_global (add_trace_exporter settings p st) = tl_global st" "tl_made (add_trace_exporter settings p st) = tl_made st"
  "tl_stopped (add_trace_exporter settings p st) = tl_stopped st" "tl_handlers (add_trace_exporter settings p st) = tl_handlers st"
  "add_log_exporter settings st = (q, st') \<Longrightarrow> tl_global st' = tl_global st \<and> tl_stopped st' = tl_stopped st \<and> tl_made st \<le> tl_made st'"
  by (auto simp: add_trace_exporter_def add_log_exporter_def Let_def split: if_splits)

lemma providers_keep [simp]:
  "tl_made (set_tracer_provider p st) = tl_made st" "tl_stopped (set_tracer_provider p st) = tl_stopped st"
  "tl_global (set_tracer_provider p st) = Some (case tl_global st of None \<Rightarrow> p | Some q \<Rightarrow> q)"
  by (auto simp: set_tracer_provider_def split: option.splits)

lemma console_keep [simp]:
  "tl_runtime (configure_console_logging settings st) = tl_runtime st" "tl_made (configure_console_logging settings st) = tl_made st"
  "tl_stopped (configure_console_logging settings st) = tl_stopped st" "tl_global (configure_console_logging settings st) = tl_global st"
  "tl_samplers (configure_console_logging settings st) = tl_samplers st"
  by (simp_all add: configure_console_logging_def)

text \<open>Configuring makes a new tracer provider, which comes into force if none was.\<close>

lemma configure_new:
  assumes "tl_runtime st = None" and "configure_observability settings st = (rt, st')"
  shows "rt_tracer rt = tl_made st \<and> tl_made st < tl_made st' \<and> tl_runtime st' = Some rt \<and> tl_stopped st' = tl_stopped st \<and>
     tl_global st' = Some (case tl_global st of None \<Rightarrow> tl_made st | Some q \<Rightarrow> q)"
proof -
  let ?st = "add_trace_exporter settings (tl_made st) (set_tracer_provider (tl_made st)
    (configure_console_logging settings st\<lparr>tl_traces := os_traces_enabled settings,
       tl_samplers := (tl_made st, if os_traces_enabled settings then os_trace_sample_ratio settings else 0) # tl_samplers st,
       tl_made := tl_made st + 1\<rparr>))"
  obtain q st3 where e: "add_log_exporter settings ?st = (q, st3)" by fastforce
  from exporters_keep(5) [OF e] e assms show ?thesis
    by (auto simp: configure_observability_def Let_def)
qed

lemma wp_any: "wp p (\<lambda>_ _ _. True) l v"
  by (induction p arbitrary: l v) auto

lemma wp_application:
  "(\<And>r a v'. Q r (s\<lparr>pr_app := a\<rparr>) v') \<Longrightarrow> wp (on_application p) Q s v"
  unfolding application_part.wp_embed by (rule wp_mono [OF wp_any]) simp

lemma wp_start_process:
  "wp (start_process settings env)
     (\<lambda>r s' v'. isl r \<or> pr_telemetry s' = snd (configure_observability settings (pr_telemetry s))) s v"
  by (auto simp: start_process_def configure_def Let_def wp_bind [where p = uuid4] wp_uuid4 wp_andthen wp_basic telemetry_part.wp_embed
      intro!: wp_application)

lemma wp_stop_process:
  assumes "tl_runtime (pr_telemetry s) = Some rt"
  shows "wp (stop_process env) (\<lambda>r s' v'. isl r \<or>
     rt_tracer rt \<in> set (tl_stopped (pr_telemetry s')) \<and> tl_runtime (pr_telemetry s') = None \<and>
     tl_global (pr_telemetry s') = tl_global (pr_telemetry s) \<and> tl_made (pr_telemetry s') = tl_made (pr_telemetry s)) s v"
  using assms
  by (auto simp: stop_process_def shutdown_observability_def stopped_def wp_bind [where p = get_local] wp_andthen wp_basic wp_clients
      telemetry_part.wp_embed intro!: wp_application split: sum.split option.split)

text \<open>C33: after a shutdown that returns, an application started again in the same process does not trace: the tracer provider in
  force is still the first one, which was shut down, and not the one the new runtime has made.\<close>

theorem restart_traces_to_stopped_provider:
  assumes "documented_services S V" and "tl_runtime (pr_telemetry s) = None" and "tl_global (pr_telemetry s) = None"
    and "run S (start_process settings env) s w = (Inr (), s1, w1)" and "run S (stop_process env) s1 w1 = (Inr (), s2, w2)"
    and "run S (start_process settings env) s2 w2 = (Inr (), s3, w3)"
  shows "\<exists>p rt. tl_global (pr_telemetry s3) = Some p \<and> p \<in> set (tl_stopped (pr_telemetry s3)) \<and>
     tl_runtime (pr_telemetry s3) = Some rt \<and> rt_tracer rt \<noteq> p"
proof -
  let ?t = "pr_telemetry s"
  obtain rt1 t1 where c1: "configure_observability settings ?t = (rt1, t1)" by fastforce
  with documented_services.run_wp [OF assms(1,4) wp_start_process] have t1: "pr_telemetry s1 = t1" by simp
  from configure_new [OF assms(2) c1] assms(3) have 1: "rt_tracer rt1 = tl_made ?t" "tl_made ?t < tl_made t1"
    "tl_runtime t1 = Some rt1" "tl_global t1 = Some (tl_made ?t)" by auto
  from documented_services.run_wp [OF assms(1,5) wp_stop_process] 1(3) t1
  have 2: "rt_tracer rt1 \<in> set (tl_stopped (pr_telemetry s2))" "tl_runtime (pr_telemetry s2) = None"
    "tl_global (pr_telemetry s2) = tl_global t1" "tl_made (pr_telemetry s2) = tl_made t1" by auto
  obtain rt2 t3 where c3: "configure_observability settings (pr_telemetry s2) = (rt2, t3)" by fastforce
  with documented_services.run_wp [OF assms(1,6) wp_start_process] have "pr_telemetry s3 = t3" by simp
  with configure_new [OF 2(2) c3] 1 2 show ?thesis by auto
qed

definition defaults :: observability_settings where
  "defaults = \<lparr>os_service_name = ''reddit-kafka'', os_service_version = ''0.1.0'', os_environment = ''development'', os_otlp_endpoint = Some ''http://otel:4317'',
     os_traces_enabled = True, os_logs_export_enabled = True, os_trace_sample_ratio = 1, os_json_logs = True, os_log_level = ''INFO''\<rparr>"

definition new_process :: process where
  "new_process = \<lparr>pr_app = new_app, pr_telemetry = \<lparr>tl_runtime = None, tl_traces = False, tl_engines = {}, tl_handlers = [Foreign_Handler 0],
     tl_level = ''WARNING'', tl_global = None, tl_samplers = [], tl_exports = [], tl_stopped = [], tl_libraries = False, tl_made = 0\<rparr>, pr_instance_id = []\<rparr>"

text \<open>Starting and stopping on services that hold nothing and answer everything.\<close>

definition quiescent :: "ref_world \<Rightarrow> bool" where
  "quiescent w = (schedule w = [] \<and> rdb (rview w) = rdb empty_view)"

definition drained :: "app \<Rightarrow> bool" where
  "drained a = (mg_tasks (ap_manager a) = [] \<and> \<not> mg_busy (ap_manager a))"

lemma calm_startup:
  "\<exists>a. run ref_services (startup env) app w = (Inr (), a, w) \<and> drained a"
  by (simp add: ref_run life_runs new_manager_def drained_def cong: lazy)

lemma calm_shutdown:
  assumes "quiescent w" and "drained app" and "0 < ae_rounds env"
  shows "\<exists>a w'. run ref_services (shutdown env) app w = (Inr (), a, w') \<and> quiescent w'"
proof -
  obtain n where "ae_rounds env = Suc n" using assms(3) by (cases "ae_rounds env") auto
  with assms(1,2) show ?thesis
    by (simp add: ref_run life_runs join_quietly_def quiescent_def drained_def cong: lazy)
qed

lemma calm_start:
  assumes "quiescent w" and "List.member level_names (map upper_char (os_log_level settings))"
  shows "\<exists>s1 w1. run ref_services (start_process settings env) s w = (Inr (), s1, w1) \<and> quiescent w1 \<and> drained (pr_app s1)"
proof -
  let ?u = "fresh_uuid (uuids (rview w))"
  let ?w = "w\<lparr>rview := (rview w)\<lparr>uuids := ?u # uuids (rview w)\<rparr>\<rparr>"
  obtain a where "run ref_services (startup (env\<lparr>ae_instance_id := take 8 ?u\<rparr>)) (pr_app s) ?w = (Inr (), a, ?w)" "drained a"
    using calm_startup by blast
  with assms show ?thesis
    by (simp add: start_process_def configure_def uuid4_def andthen_def modify_local_def run_bind Let_def
        telemetry_part.run_embed application_part.run_embed quiescent_def)
qed

lemma calm_stop:
  assumes "quiescent w" and "drained (pr_app s)"
  shows "\<exists>s1 w1. run ref_services (stop_process aenv1) s w = (Inr (), s1, w1) \<and> quiescent w1"
proof -
  have "0 < ae_rounds (aenv1\<lparr>ae_instance_id := pr_instance_id s\<rparr>)" by (simp add: aenv1_def)
  from calm_shutdown [OF assms this] obtain a w' where
    "run ref_services (shutdown (aenv1\<lparr>ae_instance_id := pr_instance_id s\<rparr>)) (pr_app s) w = (Inr (), a, w')" "quiescent w'" by blast
  then show ?thesis
    by (simp add: stop_process_def shutdown_observability_def andthen_def modify_local_def get_local_def skip_def unit_call_def
        run_bind telemetry_part.run_embed application_part.run_embed split: option.split)
qed

theorem restart_traces_to_stopped_provider_witness:
  "\<exists>s1 w1 s2 w2 s3 w3 p. run ref_services (start_process defaults aenv1) new_process (ref_start empty_view []) = (Inr (), s1, w1) \<and>
     run ref_services (stop_process aenv1) s1 w1 = (Inr (), s2, w2) \<and>
     run ref_services (start_process defaults aenv1) s2 w2 = (Inr (), s3, w3) \<and>
     tl_global (pr_telemetry s3) = Some p \<and> p \<in> set (tl_stopped (pr_telemetry s3))"
    (is "\<exists>s1 w1 s2 w2 s3 w3 p. ?run = _ \<and> _")
proof -
  have level: "List.member level_names (map upper_char (os_log_level defaults))"
    by (simp add: level_names_def defaults_def upper_char_def)
  have "quiescent (ref_start empty_view [])" by (simp add: quiescent_def)
  then obtain s1 w1 where 1: "?run = (Inr (), s1, w1)" "quiescent w1" "drained (pr_app s1)" using calm_start [OF _ level] by blast
  obtain s2 w2 where 2: "run ref_services (stop_process aenv1) s1 w1 = (Inr (), s2, w2)" "quiescent w2" using calm_stop [OF 1(2,3)] by blast
  obtain s3 w3 where 3: "run ref_services (start_process defaults aenv1) s2 w2 = (Inr (), s3, w3)" using calm_start [OF 2(2) level] by blast
  have "\<exists>p rt. tl_global (pr_telemetry s3) = Some p \<and> p \<in> set (tl_stopped (pr_telemetry s3)) \<and>
     tl_runtime (pr_telemetry s3) = Some rt \<and> rt_tracer rt \<noteq> p"
    using restart_traces_to_stopped_provider [OF ref.documented_services_axioms _ _ 1(1) 2(1) 3] by (simp add: new_process_def)
  with 1 2 3 show ?thesis by blast
qed

subsection \<open>Starting from an environment\<close>

text \<open>C34: the application starts only from an environment that holds every required variable, and in every variable a
  value of its type and within its bounds. From any other, the first statement of the lifespan raises a
  \<^verbatim>\<open>ValueError\<close> and nothing has been called or changed. Settings that were read are within the bounds that the
  classes declare.\<close>

theorem unusable_environment_starts_nothing:
  assumes "plain_environ env" and "run S (start_lifespan px show_float rounds env) s w = (r, s', w')"
  shows "(if usable px env then \<exists>st. read_settings px env = Some st \<and> within_bounds st \<and> (\<forall>st'. r = Inr st' \<longrightarrow> st' = st)
    else (\<exists>e. r = Inl e \<and> isinstance e [Value_Error]) \<and> s' = s \<and> w' = w)"
proof (cases "read_settings px env")
  case None
  with read_settings_usable [OF assms(1), of px] assms(2) show ?thesis
    by (auto simp: start_lifespan_def settings_error_def)
next
  case (Some st)
  with read_settings_usable [OF assms(1), of px] read_settings_bounded [OF Some] assms(2) show ?thesis
    by (auto simp: start_lifespan_def andthen_def run_bind split: prod.splits sum.splits)
qed

text \<open>The environment of a deployment, and one with a database port that is no number.\<close>

definition decimal :: pydantic where
  "decimal = \<lparr>px_int = (\<lambda>t. if t \<noteq> [] \<and> list_all is_digit t then Some (int (read_nat t)) else None),
     px_float = (\<lambda>t. if t \<noteq> [] \<and> list_all is_digit t then Some (of_nat (read_nat t)) else None),
     px_bool = (\<lambda>t. if t = ''true'' then Some True else if t = ''false'' then Some False else None),
     px_section = (\<lambda>_ _ _. None)\<rparr>"

definition deployment :: environ where
  "deployment = map_of
     [(''REDDIT_CLIENT_ID'', ''id''), (''REDDIT_CLIENT_SECRET'', ''s''), (''REDDIT_USER_AGENT'', ''ua''),
      (''KAFKA_BOOTSTRAP_SERVERS'', ''kafka:9092''), (''KAFKA_RAW_TEXT_TOPIC'', ''t''),
      (''REDIS_HOST'', ''redis''), (''REDIS_PORT'', ''6379''), (''REDIS_USER'', ''u''), (''REDIS_PASSWORD'', ''p''),
      (''POSTGRES_HOST'', ''db''), (''POSTGRES_PORT'', ''5432''), (''POSTGRES_USER'', ''u''), (''POSTGRES_PASSWORD'', ''p''),
      (''POSTGRES_DB'', ''reddit''), (''DB_FLUSH_INTERVAL'', ''0'')]"

lemma deployment_plain: "plain_environ (deployment(''POSTGRES_PORT'' := p))"
  by (simp add: plain_environ_def deployment_def)

lemma deployment_usable: "usable decimal deployment"
  by (simp add: usable_def required_variables_def value_checks_def deployment_def decimal_def is_digit_def)

theorem unusable_environment_starts_nothing_witness:
  "read_settings decimal deployment \<noteq> None \<and>
   (case run ref_services (start_lifespan decimal (\<lambda>_. []) 1 (deployment(''POSTGRES_PORT'' := Some ''db''))) new_process
       (ref_start empty_view []) of (r, s', w') \<Rightarrow> (\<exists>e. r = Inl e) \<and> s' = new_process \<and> w' = ref_start empty_view [])"
    (is "_ \<and> (case ?run of (r, s', w') \<Rightarrow> _)")
proof -
  obtain r s' w' where e: "?run = (r, s', w')" by (rule prod_cases3)
  have "\<not> usable decimal (deployment(''POSTGRES_PORT'' := Some ''db''))"
    by (simp add: usable_def value_checks_def decimal_def is_digit_def)
  with unusable_environment_starts_nothing [OF deployment_plain e]
    read_settings_usable [OF deployment_plain [of "deployment ''POSTGRES_PORT''"], of decimal] deployment_usable
  show ?thesis
    unfolding e by (auto simp: Option.is_none_def)
qed

text \<open>The interval of the flusher has no bound: 0, which makes its loop run without a pause, is accepted.\<close>

lemma settings_accept_zero_interval: "map_option st_db_flush_interval (read_settings decimal deployment) = Some 0"
  by (simp add: read_settings_def read_section_def read_fields_def rejected_def class_fields required_def with_default_def
      deployment_def decimal_def is_digit_def read_nat_def digit_val_def accepted_def)

end
