(* ===== verification/Metrics_Theorems.thy ===== *)
theory Metrics_Theorems
  imports Metrics System
begin

section \<open>What the programs record\<close>

text \<open>
  Every metric a program of the service records is one of the declared ones, recorded by an operation of its kind and with its
  labels (theory Metrics), and all its label values but the name of an exception's class come from fixed lists: \<open>emits\<close>
  bounds the metrics a program ever records, whatever the answers, and holds of every schedule.
\<close>

subsection \<open>Fixed label values\<close>

definition label_values :: "string \<Rightarrow> string list list" where
  "label_values n =
     (if n = ''stream_lifecycle'' then
        [[''start'', ''reconcile'', ''drain'', ''stop'', ''lease'', ''run''],
         [''success'', ''lock_contended'', ''error'', ''released'', ''cancelled'', ''completed'', ''relinquished'',
          ''stream_not_found'', ''lost'']]
      else if n = ''comments'' then [[''queued'', ''replayed'', ''delivery_error'', ''invalid'']]
      else if n = ''comment_processing_duration'' then [[''queued'', ''cancelled'', ''delivery_error'', ''invalid'', ''error'']]
      else if n = ''lock_operations'' then
        [[''acquire'', ''refresh'', ''verify'', ''release''], [''success'', ''contended'', ''not_owner'', ''error'']]
      else if n = ''circuit_breaker_transitions'' then [[''closed'', ''open'', ''half_open'']]
      else if n = ''dependency_ready'' then [[''postgres'', ''redis'', ''kafka'', ''reddit'']]
      else if n \<in> {''kafka_deliveries'', ''kafka_delivery_bytes'', ''checkpoint_flushes'', ''checkpoint_flush_duration'', ''cleanup_runs''}
        then [[''success'', ''error'']]
      else [])"

text \<open>The children of all families but \<^verbatim>\<open>errors\<close> and those of the requests.\<close>

definition bounded_children :: "(string \<times> string list) list" where
  "bounded_children =
     concat (map (\<lambda>fa. map (Pair (fa_attribute fa)) (product_lists (label_values (fa_attribute fa))))
       (filter (\<lambda>fa. fa_attribute fa \<noteq> ''errors'') (stream_families @ operation_families)))"

definition recordable :: "metric \<Rightarrow> bool" where
  "recordable m = (declared m \<and>
     (if metric_name m = ''errors'' then drop 1 (metric_labels m) \<in> {[''true''], [''false'']}
      else (metric_name m, metric_labels m) \<in> set bounded_children))"

lemma bounded_children_iff:
  "(n, ls) \<in> set bounded_children \<longleftrightarrow>
     n \<in> set (map fa_attribute (stream_families @ operation_families)) \<and> n \<noteq> ''errors'' \<and>
     list_all2 (\<lambda>x vs. x \<in> set vs) ls (label_values n)"
proof -
  have "(n, ls) \<in> set (concat (map (\<lambda>fa. map (Pair (fa_attribute fa)) (product_lists (label_values (fa_attribute fa))))
       (filter (\<lambda>fa. fa_attribute fa \<noteq> ''errors'') fas))) \<longleftrightarrow>
     n \<in> set (map fa_attribute fas) \<and> n \<noteq> ''errors'' \<and> list_all2 (\<lambda>x vs. x \<in> set vs) ls (label_values n)" for fas
    by (auto simp: product_lists_set)
  then show ?thesis unfolding bounded_children_def .
qed

lemmas family_defs = family_def http_families_def stream_families_def operation_families_def application_metrics_def

lemma recordable_simps [simp]:
  "recordable (Inc ''lock_operations'' [operation, result]) =
     (operation \<in> {''acquire'', ''refresh'', ''verify'', ''release''} \<and> result \<in> {''success'', ''contended'', ''not_owner'', ''error''})"
  "recordable (Inc ''errors'' [x, y]) = (y \<in> {''true'', ''false''})"
  "recordable (Inc ''comments'' [x]) = (x \<in> {''queued'', ''replayed'', ''delivery_error'', ''invalid''})"
  "recordable (Observe ''comment_processing_duration'' [x]) =
     (x \<in> {''queued'', ''cancelled'', ''delivery_error'', ''invalid'', ''error''})"
  "recordable (Inc ''reddit_comments_received'' [])" "recordable (Gauge_Now ''last_delivery_timestamp'')"
  "recordable (Inc ''kafka_deliveries'' [x]) = (x \<in> {''success'', ''error''})"
  "recordable (Inc_By ''kafka_delivery_bytes'' [x] k) = (x \<in> {''success'', ''error''})"
  "recordable (Inc ''circuit_breaker_transitions'' [x]) = (x \<in> {''closed'', ''open'', ''half_open''})"
  "recordable (Inc ''stream_lifecycle'' [x, y]) =
     (x \<in> {''start'', ''reconcile'', ''drain'', ''stop'', ''lease'', ''run''} \<and>
      y \<in> {''success'', ''lock_contended'', ''error'', ''released'', ''cancelled'', ''completed'', ''relinquished'',
        ''stream_not_found'', ''lost''})"
  "recordable (Gauge_Inc ''active_streams'' [])" "recordable (Gauge_Dec ''active_streams'' [])"
  "recordable (Inc ''checkpoint_flushes'' [x]) = (x \<in> {''success'', ''error''})"
  "recordable (Observe ''checkpoint_flush_duration'' [x]) = (x \<in> {''success'', ''error''})"
  "recordable (Observe ''checkpoint_batch_size'' [])"
  "recordable (Inc ''cleanup_runs'' [x]) = (x \<in> {''success'', ''error''})"
  "recordable (Inc_By ''cleanup_removed'' [] k)"
  "recordable (Gauge_Set ''dependency_ready'' [x] k) = (x \<in> {''postgres'', ''redis'', ''kafka'', ''reddit''})"
  by (auto simp: recordable_def declared_def bounded_children_iff label_values_def family_defs)

lemma bounded_children_length: "length bounded_children = 101"
  by (simp add: bounded_children_def label_values_def family_defs)

lemma precreated_bounded: "set precreated \<subseteq> set bounded_children"
  by (auto simp: precreated_def bounded_children_iff label_values_def family_defs)

subsection \<open>The metrics a program records\<close>

primrec emits :: "(metric \<Rightarrow> bool) \<Rightarrow> ('l, 'a) prog \<Rightarrow> bool" where
  "emits P (Ret x) = True"
| "emits P (Raise e) = True"
| "emits P (Call c k) = (\<forall>r. emits P (k r))"
| "emits P (Get_Local k) = (\<forall>l. emits P (k l))"
| "emits P (Put_Local l p) = emits P p"
| "emits P (Emit m p) = (P m \<and> emits P p)"

named_theorems emits_rules \<open>the metrics composed programs record\<close>

lemma emits_bind [emits_rules]: "emits P p \<Longrightarrow> (\<And>x. emits P (f x)) \<Longrightarrow> emits P (bind p f)"
  by (induction p) auto

lemma emits_andthen [emits_rules]: "emits P p \<Longrightarrow> emits P q \<Longrightarrow> emits P (andthen p q)"
  by (simp add: andthen_def emits_bind)

lemma emits_except [emits_rules]: "emits P p \<Longrightarrow> (\<And>e. emits P (h e)) \<Longrightarrow> emits P (except g p h)"
  by (induction p) auto

lemma emits_finally [emits_rules]: "emits P p \<Longrightarrow> emits P q \<Longrightarrow> emits P (finally_do p q)"
  by (induction p) (auto intro!: emits_bind)

lemma emits_attempt [emits_rules]: "emits P p \<Longrightarrow> emits P (attempt p)"
  by (simp add: attempt_def emits_except emits_bind)

lemma emits_sum [emits_rules]:
  "(\<And>e. r = Inl e \<Longrightarrow> emits P (f e)) \<Longrightarrow> (\<And>x. r = Inr x \<Longrightarrow> emits P (g x)) \<Longrightarrow>
     emits P (case r of Inl e \<Rightarrow> f e | Inr x \<Rightarrow> g x)"
  by (cases r) auto

lemma emits_basic [emits_rules]:
  "emits P (Ret x)" "emits P (Raise e)" "emits P skip" "emits P get_local" "emits P (modify_local f)"
  "P m \<Longrightarrow> emits P (emit m)"
  by (simp_all add: skip_def get_local_def modify_local_def emit_def)

lemma emits_if [emits_rules]:
  "(b \<Longrightarrow> emits P p) \<Longrightarrow> (\<not> b \<Longrightarrow> emits P q) \<Longrightarrow> emits P (if b then p else q)"
  by simp

lemma emits_option [emits_rules]:
  "(x = None \<Longrightarrow> emits P p) \<Longrightarrow> (\<And>y. x = Some y \<Longrightarrow> emits P (f y)) \<Longrightarrow>
     emits P (case x of None \<Rightarrow> p | Some y \<Rightarrow> f y)"
  by (cases x) auto

lemma emits_prod [emits_rules]:
  "(\<And>x y. t = (x, y) \<Longrightarrow> emits P (f x y)) \<Longrightarrow> emits P (case t of (x, y) \<Rightarrow> f x y)"
  by (cases t) simp

lemma emits_let [emits_rules]: "(\<And>x. x = t \<Longrightarrow> emits P (f x)) \<Longrightarrow> emits P (let x = t in f x)"
  by simp

lemma emits_for_each [emits_rules]:
  "(\<And>x. x \<in> set xs \<Longrightarrow> emits P (f x)) \<Longrightarrow> emits P (for_each xs f)"
  by (induction xs) (auto intro: emits_rules)

lemma emits_embed [emits_rules]: "emits P p \<Longrightarrow> emits P (embed get upd p)"
  by (induction p) auto

lemma emits_emit_all [emits_rules]: "list_all P ms \<Longrightarrow> emits P (emit_all ms)"
  by (induction ms) (auto intro!: emits_rules)

subsection \<open>Calls record nothing\<close>

lemma emits_readings [emits_rules]:
  "emits P (redis c)"
  "emits P (as_text x)" "emits P (as_bool x)" "emits P (as_ok x)" "emits P (as_hash x)"
  "emits P (as_hashes x)" "emits P (as_members x)" "emits P (as_list x)" "emits P (as_int x)"
  by (auto simp: redis_def as_text_def as_bool_def as_ok_def as_hash_def as_hashes_def as_members_def
      as_list_def as_int_def split: sum.split reply.split rreply.split)

lemma emits_redis_calls [emits_rules]:
  "emits P (redis_get k)" "emits P (redis_hget k f)" "emits P (redis_exists k)" "emits P (redis_setnx k x ex)"
  "emits P (redis_hgetall k)" "emits P (redis_hgetalls ks)" "emits P (redis_smembers k)" "emits P (redis_eval sc)"
  "emits P (redis_do c)" "emits P (redis_llen k)" "emits P (redis_lrange k a b)"
  unfolding redis_get_def redis_hget_def redis_exists_def redis_setnx_def redis_hgetall_def
    redis_hgetalls_def redis_smembers_def redis_eval_def redis_do_def redis_llen_def redis_lrange_def
  by (intro emits_rules)+

lemma emits_calls [emits_rules]:
  "emits P (pg_transaction q)" "emits P datetime_now" "emits P uuid4" "emits P (sleep_ms ms)" "emits P (unit_call c)"
  "emits P (next_comment sub sk)" "emits P (serialize m)" "emits P (produce topic key x)" "emits P (reports_call c)"
  "emits P loop_time" "emits P (wait_tasks i)" "emits P timed_out" "emits P (task_done i)" "emits P list_topics"
  "emits P (probe x)" "emits P (flush_producer ms)"
  by (auto simp: pg_transaction_def datetime_now_def uuid4_def sleep_ms_def unit_call_def next_comment_def
      serialize_def produce_def reports_call_def loop_time_def wait_tasks_def timed_out_def list_topics_def task_done_def
      probe_def flush_producer_def split: sum.split reply.split)

lemma emits_compound [emits_rules]:
  "emits P now_iso" "emits P p \<Longrightarrow> emits P (wait_for p)" "emits P (persist db q)"
  unfolding now_iso_def wait_for_def persist_def by (intro emits_rules; assumption)+

subsection \<open>The registry and the lock\<close>

lemma emits_lock [emits_rules]:
  "emits recordable (acquire_lock sub inst ttl)" "emits recordable (refresh_lock sub tok ttl)"
  "emits recordable (release_lock sub tok)" "emits recordable (owns_lock sub tok)" "emits recordable (is_locked sub)"
  unfolding lock_defs by (intro emits_rules; simp)+

lemma emits_registry [emits_rules]:
  "emits P (create_stream db sub cfg inst)" "emits P (get_stream i)" "emits P (get_stream_by_subreddit sub)"
  "emits P list_streams" "emits P (update_status db i st inst)" "emits P (update_status_if_owner db i st own)"
  "emits P (finalize_stop_if_unowned db i sub up)" "emits P (heartbeat i own)" "emits P (request_stop db i)"
  "emits P (is_stop_requested i)" "emits P (delete_stream i est eup purge)"
  "emits P (set_checkpoint i c p)" "emits P (get_checkpoint i)"
  unfolding registry_defs by (intro emits_rules)+

subsection \<open>Workers\<close>

lemma recordable_transition [simp]: "recordable (transition st)"
  by (cases st) (simp_all add: transition_def)

lemma recordable_breaker [simp]:
  "list_all recordable (snd (breaker_success cfg cb))" "list_all recordable (snd (breaker_failure cfg e now cb))"
  "list_all recordable (snd (breaker_half_open cb))"
  by (simp_all add: breaker_success_def breaker_failure_def breaker_half_open_def Let_def)

lemma recordable_delivery [simp]: "list_all recordable (snd (complete_delivery report l))"
  by (simp add: complete_delivery_def Let_def split: option.split)

lemma emits_breaker [emits_rules]:
  "(\<And>cb. list_all recordable (snd (f cb))) \<Longrightarrow> emits recordable (breaker_step g s f)"
  "emits recordable (record_success cfg g s)"
  "emits recordable (breaker_guard g s)"
  "emits recordable coro \<Longrightarrow> emits recordable (breaker_call cfg g s coro)"
  unfolding breaker_call_def breaker_guard_def record_success_def breaker_step_def
  by (intro emits_rules; simp)+

lemma emits_record_error [emits_rules]: "emits recordable (record_error db i et msg rec)"
  unfolding record_error_def store_entry_def
  by (intro emits_rules) simp

lemma emits_deliveries [emits_rules]:
  "emits recordable (run_callbacks rs)" "emits recordable poll_deliveries" "emits recordable clear_pending"
  "emits recordable (still_pending ps)"
  unfolding run_callbacks_def poll_deliveries_def clear_pending_def still_pending_def
  by (intro emits_rules; simp)+

lemma emits_await [emits_rules]: "emits recordable (await_pending k env ps deadline)"
  by (induction k arbitrary: ps) (auto intro!: emits_rules simp: Let_def)

lemma emits_batch [emits_rules]: "emits recordable (wait_for_delivery_batch env)"
  unfolding wait_for_delivery_batch_def
  by (intro emits_rules; auto intro: emits_rules split: list.split)

lemma emits_comment [emits_rules]:
  "emits recordable (save_checkpoint_for_comment_id env c)"
  "emits recordable (save_checkpoint env)"
  "emits recordable (queue_message env c x)"
  "emits recordable (count_comment env c)"
  "emits recordable (publish_comment env comment)"
  "emits recordable (process_comment env comment checkpoint)"
  unfolding process_comment_def publish_comment_def count_comment_def queue_message_def processing_time_def
    save_checkpoint_def save_checkpoint_for_comment_id_def
  by (intro emits_rules; simp)+

lemma emits_fetch [emits_rules]: "emits recordable (fetch_comments n env sk checkpoint)"
proof (induction n)
  case (Suc n)
  show ?case
    unfolding fetch_comments.simps
    by (intro emits_rules) (auto intro!: emits_rules Suc.IH split: comment_event.split)
qed (simp add: emits_rules)

lemma emits_stream [emits_rules]:
  "emits recordable (fetch_and_process_comments n env)"
  "emits recordable (handle_error env e)"
  unfolding fetch_and_process_comments_def handle_error_def handle_fetch_exception_def
  by (intro emits_rules; simp)+

lemma emits_stream_loop [emits_rules]: "emits recordable (stream_loop n m env)"
  by (induction n) (auto intro!: emits_rules)

lemma emits_refresh [emits_rules]: "emits recordable (refresh_lock_or_raise env)"
  unfolding refresh_lock_or_raise_def record_lock_loss_def by (intro emits_rules; simp)

lemma emits_refresh_loop [emits_rules]: "emits recordable (lock_refresh_loop n env)"
  by (induction n) (auto intro!: emits_rules)

lemma emits_run [emits_rules]: "emits recordable (run_worker env)"
  unfolding run_worker_def await_tasks_def by (intro emits_rules; simp)

lemma emits_runner [emits_rules]: "emits recordable (runner env sub t)"
  unfolding runner_def by (intro emits_rules)

subsection \<open>Managers\<close>

lemma emits_with_lock [emits_rules]: "emits P p \<Longrightarrow> emits P (with_lock env p)"
proof -
  have "emits P (acquire_mutex n)" for n
    by (induction n) (auto intro!: emits_rules)
  then show "emits P p \<Longrightarrow> emits P (with_lock env p)"
    unfolding with_lock_def release_mutex_def by (intro emits_rules)
qed

lemma emits_start_local [emits_rules]:
  "tr \<in> {''start'', ''reconcile''} \<Longrightarrow> emits recordable (start_local_worker env i sub t tr)"
  unfolding start_local_worker_def lease_held_def lifecycle_def by (intro emits_rules) auto

lemma emits_start [emits_rules]:
  "emits recordable (give_back env sub t)" "emits recordable (take_lease env sub meta)" "emits recordable (activate env sub meta t)"
  "emits recordable (start_stream env sub cfg)"
  unfolding start_stream_def activate_def take_lease_def give_back_def lifecycle_def Let_def
  by (intro emits_rules; simp)+

lemma emits_resume [emits_rules]:
  "emits recordable (is_running_locally env i)" "emits recordable (adopt env i sub t')" "emits recordable (resume_stream env data)"
  unfolding resume_stream_def adopt_def is_running_locally_def lifecycle_def Let_def
  by (intro emits_rules; simp)+

lemma emits_reconcile [emits_rules]: "emits recordable (reconcile_loop n env interval)"
proof (induction n)
  case (Suc n)
  show ?case
    unfolding reconcile_loop.simps reconcile_once_def reconcile_stream_def needs_reconciliation_def lifecycle_def Let_def
    by (intro emits_rules Suc) auto
qed (simp add: emits_rules)

lemma emits_join [emits_rules]: "emits P (join_quietly x)"
  unfolding join_quietly_def by (intro emits_rules)

lemma emits_stream_task [emits_rules]: "emits recordable (run_stream env i)"
  unfolding run_stream_def watch_runner_def handle_run_exception_def handle_runner_cancellation_def
    should_preserve_for_failover_def finish_run_def forget_task_def lifecycle_def
  by (intro emits_rules) (auto intro!: emits_rules split: task_event.split)

lemma emits_watcher [emits_rules]: "emits P (wait_for_stop_request n env i)"
  by (induction n) (auto intro!: emits_rules)

lemma emits_stop [emits_rules]:
  "emits P (stop_stream env i)" "emits P (stop_all env)" "emits P (start_reconciliation env)"
  unfolding stop_stream_def stop_stream_with_def join_task_def stop_all_def stop_reconciliation_def start_reconciliation_def by (intro emits_rules)+

subsection \<open>Background tasks and the application\<close>

lemma emits_loop [emits_rules]: "emits P work \<Longrightarrow> emits P (background_loop n interval work)"
  by (induction n) (auto intro!: emits_rules)

lemma emits_life [emits_rules]: "emits P start_background" "emits P (stop_background x)"
  unfolding start_background_def stop_background_def by (intro emits_rules)+

lemma emits_cleanup [emits_rules]: "emits recordable cleanup"
proof -
  have "emits recordable (retire_stream stream)" for stream
    unfolding retire_stream_def Let_def by (intro emits_rules)
  then have "emits recordable (retire_streams streams n)" for streams n
    by (induction streams arbitrary: n) (auto intro!: emits_bind)
  then show ?thesis unfolding cleanup_def cleanup_sweep_def Let_def by (intro emits_rules) (auto split: sum.split)
qed

lemma emits_flush [emits_rules]: "emits recordable (flush inst)"
proof -
  have "emits recordable (checkpoint_parameters ps)" for ps
    by (induction ps) (auto intro!: emits_rules)
  then have up: "emits recordable (upsert_checkpoints ps)" for ps
    unfolding upsert_checkpoints_def by (intro emits_bind) (auto intro: emits_rules)
  show ?thesis
    unfolding flush_def flush_owned_def Let_def
    by (intro up emits_rules) (simp split: sum.split)+
qed

lemma emits_clients [emits_rules]:
  "emits P init_db" "emits P get_redis" "emits P get_reddit_client" "emits P (get_kafka_producer cfg)"
  "emits P close_db" "emits P close_redis" "emits P close_reddit" "emits P (flush_kafka_producer ms)"
  unfolding init_db_def get_redis_def get_reddit_client_def get_kafka_producer_def close_db_def close_redis_def
    close_reddit_def flush_kafka_producer_def Let_def
  by (intro emits_rules)+

lemma emits_application [emits_rules]: "emits recordable (startup env)" "emits recordable (shutdown env)"
  unfolding startup_def get_engine_def create_runner_def get_kafka_producer_from_settings_def start_flusher_def shutdown_def stop_flusher_def
  by (intro emits_rules)+

lemma emits_endpoints [emits_rules]:
  "emits recordable (create_stream_endpoint env sub)" "emits recordable list_streams_endpoint"
  "emits recordable (stop_stream_endpoint env i)"
  unfolding create_stream_endpoint_def validate_subreddit_access_def list_streams_endpoint_def stop_stream_endpoint_def stop_stream_endpoint_with_def stop_stream_with_def join_task_def Let_def
  by (intro emits_rules)+

lemma emits_readiness [emits_rules]: "emits recordable readiness"
  unfolding readiness_def check_redis_def check_postgres_def get_session_def check_kafka_def checked_dependency_def Let_def
  by (intro emits_rules) auto

subsection \<open>Requests and all activities\<close>

text \<open>The middleware's own metrics, under whatever method a client sends.\<close>

definition http_recordable :: "metric \<Rightarrow> bool" where
  "http_recordable m = (declared m \<and> metric_name m \<in> set (map fa_attribute http_families))"

lemma http_recordable_simps [simp]:
  "http_recordable (Gauge_Inc ''http_in_progress'' [x])" "http_recordable (Gauge_Dec ''http_in_progress'' [x])"
  "http_recordable (Inc ''http_requests'' [x, y, z])" "http_recordable (Observe ''http_request_duration'' [x, y])"
  by (simp_all add: http_recordable_def declared_def family_defs)

lemma emits_mono: "emits P p \<Longrightarrow> (\<And>m. P m \<Longrightarrow> Q m) \<Longrightarrow> emits Q p"
  by (induction p) auto

lemma emits_endpoint: "emits recordable (call_endpoint env endpoint)"
  by (cases endpoint) (auto simp: answered_def health_def intro!: emits_rules)

lemma emits_route: "emits recordable (call_route fw env request)"
  unfolding call_route_def by (intro emits_rules emits_endpoint)

definition activity_metric :: "metric \<Rightarrow> bool" where
  "activity_metric m = (recordable m \<or> http_recordable m)"

lemma children_recordable:
  "list_all activity_metric ms \<Longrightarrow>
     set (children ms) \<subseteq> set bounded_children \<union> {(n, ls). n = ''errors'' \<or> n \<in> set (map fa_attribute http_families)}"
  using precreated_bounded
  by (auto simp: children_def list_all_iff activity_metric_def recordable_def http_recordable_def split: if_splits)

lemma emits_serve: "emits activity_metric (serve fw env request)"
proof -
  have "emits activity_metric (call_route fw env request)"
    using emits_route by (rule emits_mono) (simp add: activity_metric_def)
  then show ?thesis
    unfolding serve_def observe_http_request_def correlation_id_def set_request_id_def set_span_def finish_request_def Let_def
    by (intro emits_rules) (auto simp: activity_metric_def)
qed

lemma emits_activity: "emits activity_metric (activity_of k env a)"
proof (cases "\<exists>j fw request. a = Http_Request j fw request")
  case True
  then show ?thesis by (auto simp: discard_def intro!: emits_rules emits_serve)
next
  case False
  then have "emits recordable (activity_of k env a)"
    by (cases a) (auto simp: discard_def flush_loop_def cleanup_loop_def intro!: emits_rules)
  then show ?thesis by (rule emits_mono) (simp add: activity_metric_def)
qed

subsection \<open>Every schedule\<close>

text \<open>The services themselves record nothing.\<close>

lemma documented_metrics: "documented c v r v' \<Longrightarrow> metrics v' = metrics v"
  by (cases c; cases r) auto

interpretation recorded: discipline "\<lambda>p _. emits P p" "\<lambda>v. list_all P (metrics v)" "\<lambda>_ _. True" for P
  by unfold_locales (auto dest: documented_metrics)

lemma pool_emits:
  assumes "documented_services S V" and "list_all (emits P) ps" and "list_all P (metrics (V w))"
    and "pool_run S sch (ps, l, w) = (ps', l', w')"
  shows "list_all P (metrics (V w'))"
  using documented_services.pool_discipline [OF assms(1) recorded.discipline_axioms _ assms(3,4)] assms(2)
  by (simp add: list_all_iff)

end
