(* ===== verification/Requests_Theorems.thy ===== *)
theory Requests_Theorems
  imports Requests Telemetry_Theorems Metrics_Theorems
begin

section \<open>Every request is answered and counted\<close>

text \<open>
  The middleware of src/observability/telemetry.py around the endpoints of src/app.py (theory Requests), for any router that
  follows the declarations: what a request records and what it is answered with.
\<close>

subsection \<open>The endpoints inside\<close>


lemma returns_answered: "returns (\<lambda>x. R (status_of x)) p \<Longrightarrow> returns R (answered p)"
  unfolding answered_def by (rule returns_seq) (auto intro: returns_rules)

lemma returns_sum [returns_rules]:
  "(\<And>e. r = Inl e \<Longrightarrow> returns R (f e)) \<Longrightarrow> (\<And>x. r = Inr x \<Longrightarrow> returns R (g x)) \<Longrightarrow>
     returns R (case r of Inl e \<Rightarrow> f e | Inr x \<Rightarrow> g x)"
  by (cases r) auto

lemma returns_option [returns_rules]:
  "(x = None \<Longrightarrow> returns R p) \<Longrightarrow> (\<And>y. x = Some y \<Longrightarrow> returns R (f y)) \<Longrightarrow>
     returns R (case x of None \<Rightarrow> p | Some y \<Rightarrow> f y)"
  by (cases x) auto







subsection \<open>The request as a whole\<close>













end
