(* ===== verification/Identities.thy ===== *)
theory Identities
  imports Registry_Spec Parts
begin

section \<open>Identities among any number of processes\<close>

text \<open>
  The identity of a subreddit, once it has one, is a fact that every process may rely on from the moment it learns it: no process
  of the service changes it. \<open>id_safe m c\<close> says which calls a program may make that knows the identities \<open>m\<close>,
  \<open>tells\<close> what an answer lets it know, and \<open>obeys p Q m\<close> that \<open>p\<close> makes such calls only, whatever other
  processes add meanwhile. It is a discipline (theory Interleaving), under which the registry's keys agree with
  the identities at every moment.
\<close>

type_synonym idmap = "string \<Rightarrow> string option"

abbreviation idents :: "view \<Rightarrow> idmap" where
  "idents v \<equiv> ident (rdb v)"

text \<open>The claims and the metadata name the identities of their subreddits.\<close>

definition agreed :: "view \<Rightarrow> bool" where
  "agreed v =
     (sound (rdb v) \<and>
      (\<forall>sub i. claim (rdb v) sub = Some i \<longrightarrow> idents v sub = Some i) \<and>
      (\<forall>i sub. names_sub (rdb v) i = Some sub \<longrightarrow> idents v sub = Some i))"

lemma registry_agreed: "registry_ok v \<Longrightarrow> agreed v"
  by (simp add: registry_ok_def ids_agree_def agreed_def)

lemma agreed_sound [simp]: "agreed v \<Longrightarrow> sound (rdb v)"
  by (simp add: agreed_def)

lemma agreed_frame [simp]:
  "agreed (v\<lparr>metrics := x\<rparr>) = agreed v" "agreed (v\<lparr>pgd := d\<rparr>) = agreed v" "agreed (v\<lparr>uuids := us\<rparr>) = agreed v"
  "agreed (v\<lparr>sent := ms\<rparr>) = agreed v" "agreed (v\<lparr>acked := a\<rparr>) = agreed v" "agreed (v\<lparr>loop_clock := t\<rparr>) = agreed v"
  by (simp_all add: agreed_def)

lemma agreed_later [simp]: "agreed v \<Longrightarrow> agreed (later t v)"
  by (simp add: agreed_def)

lemma kind_forms:
  "kind_of k = Meta_Kind \<Longrightarrow> \<exists>i. k = meta_key i"
  "kind_of k = Subreddit_Kind \<Longrightarrow> \<exists>sub. k = subreddit_key sub"
  "kind_of k = Identity_Kind \<Longrightarrow> \<exists>sub. k = identity_key sub"
proof -
  have p: "starts_with p k \<Longrightarrow> \<exists>x. k = p @ x" for p
    using append_take_drop_id [of "length p" k] unfolding starts_with_def by metis
  have "kind_of k = Meta_Kind \<Longrightarrow> starts_with ''stream:meta:'' k"
    "kind_of k = Subreddit_Kind \<Longrightarrow> starts_with ''stream:subreddit:'' k"
    "kind_of k = Identity_Kind \<Longrightarrow> starts_with ''stream:identity:'' k"
    unfolding kind_of_def by (simp_all split: if_splits)
  then show "kind_of k = Meta_Kind \<Longrightarrow> \<exists>i. k = meta_key i"
    "kind_of k = Subreddit_Kind \<Longrightarrow> \<exists>sub. k = subreddit_key sub"
    "kind_of k = Identity_Kind \<Longrightarrow> \<exists>sub. k = identity_key sub"
    unfolding meta_key_def subreddit_key_def identity_key_def using p by blast+
qed

subsection \<open>Calls\<close>

fun script_safe :: "idmap \<Rightarrow> script \<Rightarrow> bool" where
  "script_safe m (Delete_Stream_If_Unchanged k1 k2 k3 k4 k5 k6 sid st up purge) =
     (script_ok (Delete_Stream_If_Unchanged k1 k2 k3 k4 k5 k6 sid st up purge) \<and> purge \<noteq> ''1'' \<and>
      (\<forall>sub. k6 = identity_key sub \<longrightarrow> m sub = Some sid))"
| "script_safe m sc = script_ok sc"

fun command_safe :: "idmap \<Rightarrow> rcmd \<Rightarrow> bool" where
  "command_safe m (Set_Plain k x) = (kind_of k = Stop_Kind)"
| "command_safe m (Set_Nx k x ex) = (command_ok (Set_Nx k x ex) \<and> (\<forall>sub. k = subreddit_key sub \<longrightarrow> m sub = Some x))"
| "command_safe m (Hset k d) =
     (command_ok (Hset k d) \<and> (\<forall>i sub. k = meta_key i \<longrightarrow> map_of (rev d) ''subreddit'' = Some sub \<longrightarrow> m sub = Some i))"
| "command_safe m (Del ks) = (Identity_Kind \<notin> kind_of ` set ks)"
| "command_safe m (Eval sc) = script_safe m sc"
| "command_safe m c = command_ok c"

fun id_safe :: "idmap \<Rightarrow> call \<Rightarrow> bool" where
  "id_safe m (Redis c) = command_safe m c"
| "id_safe m _ = True"

fun reply_tells :: "rcmd \<Rightarrow> rreply \<Rightarrow> idmap \<Rightarrow> bool" where
  "reply_tells (Get k) r m = (\<forall>x sub. r = RBulk x \<longrightarrow> k = subreddit_key sub \<or> k = identity_key sub \<longrightarrow> m sub = Some x)"
| "reply_tells (Set_Nx k x ex) r m = (\<forall>sub. r = ROk \<longrightarrow> k = identity_key sub \<longrightarrow> m sub = Some x)"
| "reply_tells (Hgetall k) r m =
     (\<forall>d i sub. r = RHash d \<longrightarrow> k = meta_key i \<longrightarrow> dict_get d ''subreddit'' = Some sub \<longrightarrow> m sub = Some i)"
| "reply_tells _ r m = True"

definition tells :: "call \<Rightarrow> pyexn + reply \<Rightarrow> idmap \<Rightarrow> bool" where
  "tells c r m = (\<forall>rc x. c = Redis rc \<longrightarrow> r = Inr (Redis_Reply x) \<longrightarrow> reply_tells rc x m)"

lemma script_safe_mono: "script_safe m sc \<Longrightarrow> m \<subseteq>\<^sub>m m' \<Longrightarrow> script_safe m' sc"
  by (cases sc) (auto simp: map_le_def dom_def)

lemma id_safe_mono: "id_safe m c \<Longrightarrow> m \<subseteq>\<^sub>m m' \<Longrightarrow> id_safe m' c"
proof (cases c)
  case (Redis rc)
  assume "id_safe m c" "m \<subseteq>\<^sub>m m'"
  then show ?thesis
    unfolding Redis by (cases rc) (auto simp: map_le_def dom_def intro: script_safe_mono)
qed auto

lemma script_safe_ok: "script_safe m sc \<Longrightarrow> script_ok sc"
  by (cases sc) auto

lemma safe_command: "command_safe m c \<Longrightarrow> command_ok c"
  by (cases c) (auto simp: text_kinds_def intro: script_safe_ok)

text \<open>The effect of a safe command keeps the agreement and every identity.\<close>

lemma agreedI:
  assumes "sound (rdb v')" and "idents v \<subseteq>\<^sub>m idents v'" and "agreed v"
    and "\<And>sub i. claim (rdb v') sub = Some i \<Longrightarrow> claim (rdb v) sub = Some i \<or> idents v' sub = Some i"
    and "\<And>i sub. names_sub (rdb v') i = Some sub \<Longrightarrow> names_sub (rdb v) i = Some sub \<or> idents v' sub = Some i"
  shows "agreed v' \<and> idents v \<subseteq>\<^sub>m idents v'"
proof -
  have up: "idents v sub = Some i \<Longrightarrow> idents v' sub = Some i" for sub i
    using assms(2) by (auto simp: map_le_def dom_def)
  from assms show ?thesis unfolding agreed_def by (meson up)
qed

lemma agreed_same:
  assumes "agreed v" and "command_ok c" and "claim (redis_effect c (rdb v)) = claim (rdb v)"
    and "ident (redis_effect c (rdb v)) = ident (rdb v)" and "names_sub (redis_effect c (rdb v)) = names_sub (rdb v)"
  shows "agreed (with_rdb (redis_effect c) v) \<and> idents v \<subseteq>\<^sub>m idents (with_rdb (redis_effect c) v)"
proof -
  have "names_sub (redis_effect c (rdb v)) i = names_sub (rdb v) i" for i
    using assms(5) by meson
  with assms(1-4) show ?thesis by (intro agreedI) (auto simp: sound_effect)
qed

lemma agreed_set_nx:
  assumes "agreed v" and "command_safe (idents v) (Set_Nx k x ex)"
  shows "agreed (with_rdb (set_absent k x ex) v) \<and> idents v \<subseteq>\<^sub>m idents (with_rdb (set_absent k x ex) v)"
proof (cases "live (rdb v) k")
  case True
  with assms(1) show ?thesis by (intro agreedI) (auto simp: set_absent_def)
next
  case False
  have ok: "command_ok (Set_Nx k x ex)" using safe_command [OF assms(2)] .
  consider (claim) sub where "k = subreddit_key sub" | (identity) sub where "k = identity_key sub"
    | (other) "kind_of k \<in> {Stop_Kind, Lock_Kind}"
    using ok kind_forms(2,3) [of k] by (auto simp: text_kinds_def)
  then show ?thesis
  proof cases
    case claim
    with False assms ok show ?thesis by (intro agreedI) (auto simp: set_absent_def split: if_splits)
  next
    case identity
    then have "idents v sub = None" using False by (simp add: ident_def live_def str_at_def)
    with identity False assms ok show ?thesis
      by (intro agreedI) (auto simp: set_absent_def map_le_def)
  next
    case other
    with False assms(1) ok agreed_same [OF assms(1) ok] show ?thesis by (auto simp: set_absent_def)
  qed
qed

lemma agreed_hset:
  assumes "agreed v" and "command_safe (idents v) (Hset k d)"
  shows "agreed (with_rdb (redis_effect (Hset k d)) v) \<and> idents v \<subseteq>\<^sub>m idents (with_rdb (redis_effect (Hset k d)) v)"
proof -
  have ok: "command_ok (Hset k d)" using safe_command [OF assms(2)] .
  then consider (meta) i where "k = meta_key i" | (other) "kind_of k = Checkpoint_Kind"
    using kind_forms(1) [of k] by auto
  then show ?thesis
  proof cases
    case meta
    with assms ok show ?thesis
      by (intro agreedI) (auto simp: sound_effect map_of_dict_update hash_at_meta split: if_splits option.splits)
  next
    case other
    then show ?thesis using agreed_same [OF assms(1) ok] by auto
  qed
qed

lemma agreed_script:
  assumes "agreed v" and "script_safe (idents v) sc"
  shows "agreed (with_rdb (redis_effect (Eval sc)) v) \<and> idents v \<subseteq>\<^sub>m idents (with_rdb (redis_effect (Eval sc)) v)"
proof -
  have ok: "command_ok (Eval sc)" using script_safe_ok [OF assms(2)] by simp
  have same: "claim s = claim (rdb v) \<Longrightarrow> ident s = idents v \<Longrightarrow> names_sub s = names_sub (rdb v) \<Longrightarrow> s = redis_effect (Eval sc) (rdb v) \<Longrightarrow> ?thesis" for s
    using agreed_same [OF assms(1) ok] by simp
  show ?thesis
  proof (cases sc)
    case (Delete_Stream_If_Unchanged k1 k2 k3 k4 k5 k6 sid st up purge)
    then obtain i sub0 sub where k: "k1 = meta_key i" "k4 = subreddit_key sub0" "k6 = identity_key sub"
      using ok kind_forms [of k1] kind_forms [of k4] kind_forms [of k6] by auto
    then have "idents v sub = Some sid" using assms(2) Delete_Stream_If_Unchanged by simp
    then have "(idents v)(sub := Some sid) = idents v" by auto
    moreover have "distinct [k1, k2, k3, k4, k5, k6]" "is_hash (rdb v) k1" "is_str (rdb v) k4" "is_set (rdb v) k5"
      using ok assms(1) sound_types [of "rdb v"] unfolding Delete_Stream_If_Unchanged by auto
    ultimately show ?thesis
      using ok assms k unfolding Delete_Stream_If_Unchanged
      by (intro agreedI) (auto simp: sound_effect redis_effect_def delete_stream_closed Let_def split: if_splits)
  next
    case (Heartbeat_If_Active k1 k2 a u x)
    then obtain i where "k1 = meta_key i" "kind_of k2 = Instance_Kind" using ok kind_forms(1) [of k1] by auto
    moreover from this have "meta_key i \<noteq> k2" by auto
    ultimately show ?thesis
      unfolding Heartbeat_If_Active
      by (intro same [unfolded Heartbeat_If_Active, OF _ _ _ refl])
        (auto simp: redis_effect_def heartbeat_closed Let_def ids_touch_meta update_conv' simp del: ids_put_key(3))
  next
    case (Update_Status_If_Owner k1 a st u)
    then obtain i where "k1 = meta_key i" using ok kind_forms(1) [of k1] by auto
    then show ?thesis
      unfolding Update_Status_If_Owner
      by (intro same [unfolded Update_Status_If_Owner, OF _ _ _ refl])
        (auto simp: redis_effect_def update_owner_closed Let_def ids_touch_meta update_conv' simp del: ids_put_key(3))
  next
    case (Finalize_Stop_If_Unowned k1 k2 a u)
    then obtain i where "k1 = meta_key i" using ok kind_forms(1) [of k1] by auto
    then show ?thesis
      unfolding Finalize_Stop_If_Unowned
      by (intro same [unfolded Finalize_Stop_If_Unowned, OF _ _ _ refl])
        (auto simp: redis_effect_def finalize_closed Let_def ids_touch_meta update_conv' simp del: ids_put_key(3))
  qed (use ok in \<open>intro same [OF _ _ _ refl]; auto simp: redis_effect_def refresh_closed delete_owner_closed\<close>)+
qed

text \<open>A safe call keeps both and its answer tells the truth.\<close>

lemma answer_tells:
  assumes "agreed v" and "redis_answer c (rdb v) x"
  shows "reply_tells c x (ident (redis_effect c (rdb v)))"
proof (cases c)
  case (Set_Nx k y ex)
  then show ?thesis using assms by (auto simp: redis_answer_def ident_def set_absent_def split: if_splits)
qed (use assms in \<open>auto simp: redis_answer_def redis_effect_def agreed_def claim_def ident_def meta_field_def hash_field_def
    split: option.splits if_splits\<close>)

lemma agreed_command:
  assumes "agreed v" and "command_safe (idents v) c"
  shows "agreed (with_rdb (redis_effect c) v) \<and> idents v \<subseteq>\<^sub>m idents (with_rdb (redis_effect c) v)"
proof (cases c)
  case (Set_Nx k x ex)
  with agreed_set_nx assms show ?thesis by simp
next
  case (Hset k d)
  with agreed_hset assms show ?thesis by blast
next
  case (Eval sc)
  with agreed_script assms show ?thesis by simp
next
  case (Del ks)
  have "ident (fold del_key ks s) = ident s" if "Identity_Kind \<notin> kind_of ` set ks" for s
    using that by (induction ks arbitrary: s) auto
  moreover have "claim (fold del_key ks s) \<subseteq>\<^sub>m claim s \<and> names_sub (fold del_key ks s) \<subseteq>\<^sub>m names_sub s" for s
  proof (induction ks arbitrary: s)
    case (Cons k ks)
    have "claim (del_key k s) \<subseteq>\<^sub>m claim s \<and> names_sub (del_key k s) \<subseteq>\<^sub>m names_sub s"
      by (auto simp: map_le_def claim_def meta_field_def str_at_def hash_field_def hash_at_def)
    with Cons.IH [of "del_key k s"] show ?case by (auto intro: map_le_trans)
  qed simp
  ultimately show ?thesis
    using assms Del by (intro agreedI) (auto simp: sound_effect map_le_def dom_def)
qed (use assms(2) safe_command [OF assms(2)] in \<open>intro agreed_same [OF assms(1)]; auto simp: redis_effect_def split: if_splits\<close>)+

text \<open>What a documented answer is worth.\<close>

lemma agreed_call:
  assumes "agreed v" and "id_safe (idents v) c" and "documented c v r v'"
  shows "agreed v' \<and> idents v \<subseteq>\<^sub>m idents v' \<and> tells c r (idents v')"
proof (cases c)
  case (Redis rc)
  with assms(3) obtain t where t: "v' = later t v \<or> v' = with_rdb (redis_effect rc) (later t v)"
    "\<And>x. r = Inr (Redis_Reply x) \<Longrightarrow> redis_answer rc (rdb (later t v)) x \<and> v' = with_rdb (redis_effect rc) (later t v)"
    by (cases r) (auto simp: later_def with_rdb_def)
  have l: "agreed (later t v)" "idents (later t v) = idents v" using assms(1) by simp_all
  with assms(2) Redis have "command_safe (idents (later t v)) rc" by simp
  from agreed_command [OF l(1) this] l t(1) have "agreed v' \<and> idents v \<subseteq>\<^sub>m idents v'" by auto
  moreover have "tells c r (idents v')"
    using t(2) answer_tells [OF l(1)] Redis by (auto simp: tells_def)
  ultimately show ?thesis by simp
qed (use assms in \<open>cases r; auto simp: tells_def\<close>)+

subsection \<open>Programs that know identities\<close>

primrec obeys :: "('l, 'a) prog \<Rightarrow> (pyexn + 'a \<Rightarrow> idmap \<Rightarrow> bool) \<Rightarrow> idmap \<Rightarrow> bool" where
  "obeys (Ret x) Q m = Q (Inr x) m"
| "obeys (Raise e) Q m = Q (Inl e) m"
| "obeys (Call c k) Q m = (id_safe m c \<and> (\<forall>r m'. m \<subseteq>\<^sub>m m' \<longrightarrow> tells c r m' \<longrightarrow> obeys (k r) Q m'))"
| "obeys (Get_Local k) Q m = (\<forall>l. obeys (k l) Q m)"
| "obeys (Put_Local l p) Q m = obeys p Q m"
| "obeys (Emit x p) Q m = obeys p Q m"

lemma obeys_mono: "obeys p Q m \<Longrightarrow> (\<And>r m'. Q r m' \<Longrightarrow> Q' r m') \<Longrightarrow> obeys p Q' m"
  by (induction p arbitrary: m) auto

lemma obeys_more:
  "obeys p Q m \<Longrightarrow> m \<subseteq>\<^sub>m m' \<Longrightarrow> (\<And>r m m'. Q r m \<Longrightarrow> m \<subseteq>\<^sub>m m' \<Longrightarrow> Q r m') \<Longrightarrow> obeys p Q m'"
proof (induction p arbitrary: m m')
  case (Call c k)
  then show ?case by (auto intro: id_safe_mono) (meson map_le_trans)
next
  case (Get_Local k)
  from Get_Local.IH [OF rangeI] Get_Local.prems show ?case by (auto; blast)
qed auto

lemma obeys_bind:
  "obeys (bind p f) Q m = obeys p (\<lambda>r m. case r of Inl e \<Rightarrow> Q (Inl e) m | Inr x \<Rightarrow> obeys (f x) Q m) m"
  by (induction p arbitrary: m) auto

lemma obeys_except:
  "obeys (except g p h) Q m =
     obeys p (\<lambda>r m. case r of Inl e \<Rightarrow> if g e then obeys (h e) Q m else Q (Inl e) m | Inr x \<Rightarrow> Q (Inr x) m) m"
  by (induction p arbitrary: m) auto

lemma obeys_finally:
  "obeys (finally_do p q) Q m =
     obeys p (\<lambda>r. obeys q (\<lambda>r' m. case r' of Inl e \<Rightarrow> Q (Inl e) m | Inr _ \<Rightarrow> Q r m)) m"
  by (induction p arbitrary: m) (simp_all add: obeys_bind cong: sum.case_cong)

text \<open>Whatever it knows.\<close>

definition heeds :: "('l, 'a) prog \<Rightarrow> bool" where
  "heeds p = (\<forall>m. obeys p (\<lambda>_ _. True) m)"

lemma heedsD: "heeds p \<Longrightarrow> obeys p (\<lambda>_ _. True) m"
  by (simp add: heeds_def)

text \<open>Calls that any program may make.\<close>

definition plain_call :: "call \<Rightarrow> bool" where
  "plain_call c = (\<forall>m. id_safe m c)"

lemma obeys_plain:
  "issues plain_call p \<Longrightarrow> (\<And>r m'. m \<subseteq>\<^sub>m m' \<Longrightarrow> Q r m') \<Longrightarrow> obeys p Q m"
proof (induction p arbitrary: m)
  case (Call c k)
  from Call.prems(1) have "plain_call c" and c: "\<And>r. issues plain_call (k r)" by simp_all
  have "obeys (k r) Q m'" if "m \<subseteq>\<^sub>m m'" for r m'
    by (rule Call.IH [OF rangeI c]) (blast intro: Call.prems(2) map_le_trans [OF that])
  with \<open>plain_call c\<close> show ?case by (simp add: plain_call_def)
next
  case (Get_Local k)
  from Get_Local.prems(1) have "issues plain_call (k l)" for l by simp
  from Get_Local.IH [OF rangeI this Get_Local.prems(2)] show ?case by simp
qed auto

lemma heeds_plain: "issues plain_call p \<Longrightarrow> heeds p"
  by (simp add: heeds_def obeys_plain)

lemma plain_unfold [simp]:
  "plain_call (Redis (Get k))" "plain_call (Redis (Hget k f))" "plain_call (Redis (Exists k))" "plain_call (Redis (Hgetall k))"
  "plain_call (Redis (Smembers k))" "plain_call (Redis (Pipeline_Hgetall ks))" "plain_call (Redis (Llen k))"
  "plain_call (Redis (Lrange k a b))" "plain_call (Redis Ping)"
  "plain_call (Redis (Set_Plain k x)) = (kind_of k = Stop_Kind)"
  "plain_call (Redis (Set_Nx (lock_key sub) x (Some e)))"
  "plain_call (Redis (Set_Nx (identity_key sub) x None))"
  "plain_call (Redis (Hset (checkpoint_key i) d))"
  "map_of (rev d) ''subreddit'' = None \<Longrightarrow> plain_call (Redis (Hset (meta_key i) d))"
  "plain_call (Redis (Sadd k x)) = (kind_of k \<in> {Instance_Kind, All_Kind})"
  "plain_call (Redis (Srem k xs)) = (kind_of k \<in> {Instance_Kind, All_Kind})"
  "plain_call (Redis (Expire k e)) = (kind_of k = Error_Kind)"
  "plain_call (Redis (Lpush k x)) = (kind_of k = Error_Kind)"
  "plain_call (Redis (Ltrim k a b)) = (kind_of k = Error_Kind)"
  "plain_call (Redis (Eval (Refresh_If_Owner (lock_key sub) t e))) = (0 < e)"
  "plain_call (Redis (Eval (Delete_If_Owner (lock_key sub) t)))"
  "plain_call (Redis (Eval (Heartbeat_If_Active (meta_key i) (instance_key n) inst u x)))"
  "plain_call (Redis (Eval (Update_Status_If_Owner (meta_key i) inst st u)))"
  "plain_call (Redis (Eval (Finalize_Stop_If_Unowned (meta_key i) k up u)))"
  "(\<And>rc. c \<noteq> Redis rc) \<Longrightarrow> plain_call c"
  by (auto simp: plain_call_def text_kinds_def) (cases c; auto)

interpretation identities: discipline "\<lambda>p v. obeys p (\<lambda>_ _. True) (idents v)" agreed "\<lambda>v v'. idents v \<subseteq>\<^sub>m idents v'"
proof unfold_locales
  fix c k v r v'
  assume "obeys (Call c k) (\<lambda>_ _. True) (idents v)" "agreed v" "documented c v r v'"
  with agreed_call [of v c r v'] show "obeys (k r) (\<lambda>_ _. True) (idents v') \<and> agreed v' \<and> idents v \<subseteq>\<^sub>m idents v'"
    by auto
qed (auto intro: obeys_more map_le_trans)

subsection \<open>What answers say\<close>

lemma obeys_redis:
  assumes "command_safe m c" and "\<And>e m'. m \<subseteq>\<^sub>m m' \<Longrightarrow> Q (Inl e) m'"
    and "\<And>x m'. m \<subseteq>\<^sub>m m' \<Longrightarrow> reply_tells c x m' \<Longrightarrow> Q (Inr x) m'"
  shows "obeys (redis c) Q m"
  using assms by (auto simp: redis_def tells_def split: sum.split reply.split)

lemma obeys_get:
  assumes "\<And>e m'. m \<subseteq>\<^sub>m m' \<Longrightarrow> Q (Inl e) m'" and "\<And>m'. m \<subseteq>\<^sub>m m' \<Longrightarrow> Q (Inr None) m'"
    and "\<And>x m'. m \<subseteq>\<^sub>m m' \<Longrightarrow> \<forall>sub. k = subreddit_key sub \<or> k = identity_key sub \<longrightarrow> m' sub = Some x \<Longrightarrow> Q (Inr (Some x)) m'"
  shows "obeys (redis_get k) Q m"
  unfolding redis_get_def obeys_bind
  by (rule obeys_redis) (auto simp: as_text_def intro: assms split: rreply.split)

lemma obeys_setnx:
  assumes "command_safe m (Set_Nx k x ex)" and "\<And>e m'. m \<subseteq>\<^sub>m m' \<Longrightarrow> Q (Inl e) m'" and "\<And>m'. m \<subseteq>\<^sub>m m' \<Longrightarrow> Q (Inr False) m'"
    and "\<And>m'. m \<subseteq>\<^sub>m m' \<Longrightarrow> \<forall>sub. k = identity_key sub \<longrightarrow> m' sub = Some x \<Longrightarrow> Q (Inr True) m'"
  shows "obeys (redis_setnx k x ex) Q m"
  unfolding redis_setnx_def obeys_bind
  by (rule obeys_redis [OF assms(1)]) (auto simp: as_ok_def intro: assms split: rreply.split)

lemma obeys_hgetall:
  assumes "\<And>e m'. m \<subseteq>\<^sub>m m' \<Longrightarrow> Q (Inl e) m'"
    and "\<And>d m'. m \<subseteq>\<^sub>m m' \<Longrightarrow> \<forall>i sub. k = meta_key i \<longrightarrow> dict_get d ''subreddit'' = Some sub \<longrightarrow> m' sub = Some i \<Longrightarrow> Q (Inr d) m'"
  shows "obeys (redis_hgetall k) Q m"
  unfolding redis_hgetall_def obeys_bind
  by (rule obeys_redis) (auto simp: as_hash_def intro: assms split: rreply.split)

lemma obeys_call_safe: "command_safe m c \<Longrightarrow> (\<And>r m'. m \<subseteq>\<^sub>m m' \<Longrightarrow> Q r m') \<Longrightarrow> obeys (redis_do c) Q m"
  unfolding redis_do_def obeys_bind by (rule obeys_redis) simp_all

lemma obeys_eval: "script_safe m sc \<Longrightarrow> (\<And>r m'. m \<subseteq>\<^sub>m m' \<Longrightarrow> Q r m') \<Longrightarrow> obeys (redis_eval sc) Q m"
  unfolding redis_eval_def obeys_bind by (rule obeys_redis) (simp_all add: as_bool_def split: rreply.split)

subsection \<open>Creating and deleting\<close>

lemma le_known: "m sub = Some i \<Longrightarrow> m \<subseteq>\<^sub>m m' \<Longrightarrow> m' sub = Some i"
  by (auto simp: map_le_def dom_def)

text \<open>After calls that any program may make it still knows what it knew.\<close>

lemma obeys_after:
  assumes "issues plain_call p" and "\<And>x m'. m \<subseteq>\<^sub>m m' \<Longrightarrow> obeys (f x) (\<lambda>_ _. True) m'"
  shows "obeys (bind p f) (\<lambda>_ _. True) m"
  unfolding obeys_bind by (rule obeys_plain [OF assms(1)]) (auto intro: assms(2) split: sum.split)

lemma obeys_then:
  assumes "obeys p (\<lambda>_ _. True) m" and "heeds q"
  shows "obeys (andthen p q) (\<lambda>_ _. True) m"
  unfolding andthen_def obeys_bind
  by (rule obeys_mono [OF assms(1)]) (auto intro: heedsD [OF assms(2)] split: sum.split)

lemma obeys_write:
  assumes "m sub = Some i"
  shows "obeys (write_stream db i sub cfg inst) (\<lambda>_ _. True) m"
proof -
  have rest: "heeds (andthen (redis_do (Sadd streams_all i)) (andthen (if b then redis_do (Sadd (instance_key n) i) else skip)
      (andthen (persist db q) (Ret x))))" for b n q x
    by (rule heeds_plain) (intro keeps_rules; simp)+
  have "obeys (redis_do (Hset (meta_key i) (stream_meta i sub cfg inst c u))) (\<lambda>_ _. True) m'" if "m \<subseteq>\<^sub>m m'" for c u m'
    using le_known [of m sub i, OF assms that] by (intro obeys_call_safe) simp_all
  note core = obeys_then [OF this rest]
  show ?thesis
    unfolding write_stream_def Let_def
    by (intro obeys_after keeps_rules core) (simp, simp, blast intro: map_le_trans)
qed

lemma obeys_claim:
  assumes "m sub = Some i"
  shows "obeys (claim_stream db i sub cfg inst) (\<lambda>_ _. True) m"
proof -
  have lost: "heeds (bind (redis_get (subreddit_key sub)) (\<lambda>existing. Raise (exists_error sub existing)))"
    by (rule heeds_plain) (intro keeps_rules; simp)
  show ?thesis
    unfolding claim_stream_def obeys_bind [where p = "redis_setnx k x e" for k x e]
    by (rule obeys_setnx) (simp_all add: assms text_kinds_def heedsD [OF lost] obeys_write [OF le_known [of m sub i, OF assms]])
qed

lemma obeys_resolve:
  assumes "\<And>e m'. Q (Inl e) m'" and "\<And>m'. Q (Inr None) m'" and "\<And>i m'. m' sub = Some i \<Longrightarrow> Q (Inr (Some i)) m'"
  shows "obeys (resolve_identity sub) Q m"
proof -
  have read: "obeys (redis_get (identity_key sub)) Q m'" for m'
    by (rule obeys_get) (auto intro: assms)
  have "obeys (bind (redis_setnx (identity_key sub) u None) (\<lambda>created. if created then Ret (Some u) else redis_get (identity_key sub))) Q m'"
    for u m'
    unfolding obeys_bind [where p = "redis_setnx k x e" for k x e]
    by (rule obeys_setnx) (auto intro: assms read simp: text_kinds_def)
  then show ?thesis
    unfolding resolve_identity_def obeys_bind [where p = uuid4]
    by (intro obeys_plain keeps_rules) (auto simp: assms(1) simp del: if_split split: sum.split)
qed

lemma heeds_create: "heeds (create_stream db sub cfg inst)"
proof -
  have new: "obeys (bind (resolve_identity sub) (\<lambda>stream_id. if \<not> truthy stream_id
      then Raise (runtime_error x) else claim_stream db (or_empty stream_id) sub cfg inst)) (\<lambda>_ _. True) m" for x m
    unfolding obeys_bind [where p = "resolve_identity s" for s]
    by (rule obeys_resolve) (auto intro: obeys_claim)
  have known: "heeds (bind (redis_setnx (identity_key sub) i None) (\<lambda>_. Raise e))" for i e
    by (rule heeds_plain) (intro keeps_rules; simp)
  show ?thesis
    unfolding heeds_def create_stream_def obeys_bind [where p = "redis_get k" for k]
    by (intro allI obeys_get) (simp_all add: new heedsD [OF known])
qed

text \<open>A deletion names the subreddit that the metadata named, whose identity it leaves.\<close>

lemma heeds_delete: "heeds (delete_stream i est eup False)"
proof -
  let ?script = "\<lambda>sub. Delete_Stream_If_Unchanged (meta_key i) (checkpoint_key i) (stop_request_key i) (subreddit_key sub)
    streams_all (identity_key sub) i (or_empty est) (or_empty eup) ''0''"
  have rest: "heeds (andthen (redis_do (Srem (instance_key n) [i])) (Ret x))" for n x
    by (rule heeds_plain) (intro keeps_rules; simp)
  have script: "obeys (bind (redis_eval (?script sub)) (\<lambda>deleted.
      andthen (if deleted \<and> b then redis_do (Srem (instance_key n) [i]) else skip) (Ret deleted))) (\<lambda>_ _. True) m"
    if "m sub = Some i" for sub b n m
    unfolding obeys_bind [where p = "redis_eval sc" for sc]
    by (rule obeys_eval) (simp_all add: that heedsD [OF rest] split: sum.split)
  show ?thesis
    unfolding delete_stream_def heeds_def Let_def obeys_bind [where p = "redis_hgetall k" for k]
    by (intro allI obeys_hgetall) (auto intro!: script simp: truthy_eq)
qed

end
