(* ===== verification/System_Identities.thy ===== *)
theory System_Identities
  imports System Identities
begin

section \<open>No process changes an identity\<close>

text \<open>
  Every activity of a process heeds the identities (theory Identities): all its calls are ones that any program may make, but
  for those of \<^verbatim>\<open>create_stream\<close> and \<^verbatim>\<open>delete_stream\<close>, which use the identity that they have learned.
\<close>

named_theorems heeds_rules \<open>programs that heed identities\<close>

lemma heeds_bind [heeds_rules]: "heeds p \<Longrightarrow> (\<And>x. heeds (f x)) \<Longrightarrow> heeds (bind p f)"
  unfolding heeds_def obeys_bind by (intro allI, erule allE, erule obeys_mono) (auto split: sum.split)

lemma heeds_andthen [heeds_rules]: "heeds p \<Longrightarrow> heeds q \<Longrightarrow> heeds (andthen p q)"
  by (simp add: andthen_def heeds_bind)

lemma heeds_except [heeds_rules]: "heeds p \<Longrightarrow> (\<And>e. heeds (h e)) \<Longrightarrow> heeds (except g p h)"
  unfolding heeds_def obeys_except by (intro allI, erule allE, erule obeys_mono) (auto split: sum.split)

lemma heeds_finally [heeds_rules]: "heeds p \<Longrightarrow> heeds q \<Longrightarrow> heeds (finally_do p q)"
  unfolding heeds_def obeys_finally
  by (intro allI, erule allE, erule obeys_mono) (auto elim: obeys_mono split: sum.split)

lemma heeds_basic [heeds_rules]:
  "heeds (Ret x)" "heeds (Raise e)" "heeds skip" "heeds get_local" "heeds (modify_local f)" "heeds (emit m)" "heeds uuid4"
  by (rule heeds_plain, intro keeps_rules, simp?)+

lemma heeds_attempt [heeds_rules]: "heeds p \<Longrightarrow> heeds (attempt p)"
  unfolding attempt_def by (intro heeds_rules)

lemma heeds_cases [heeds_rules]:
  "(b \<Longrightarrow> heeds p) \<Longrightarrow> (\<not> b \<Longrightarrow> heeds q) \<Longrightarrow> heeds (if b then p else q)"
  "(\<And>e. r = Inl e \<Longrightarrow> heeds (f e)) \<Longrightarrow> (\<And>x. r = Inr x \<Longrightarrow> heeds (g x)) \<Longrightarrow> heeds (case r of Inl e \<Rightarrow> f e | Inr x \<Rightarrow> g x)"
  "(z = None \<Longrightarrow> heeds p') \<Longrightarrow> (\<And>y. z = Some y \<Longrightarrow> heeds (h y)) \<Longrightarrow> heeds (case z of None \<Rightarrow> p' | Some y \<Rightarrow> h y)"
  "(\<And>x y. t = (x, y) \<Longrightarrow> heeds (u x y)) \<Longrightarrow> heeds (case t of (x, y) \<Rightarrow> u x y)"
  by (auto split: sum.split option.split prod.split)

lemma heeds_embed [heeds_rules]: "heeds p \<Longrightarrow> heeds (embed get upd p)"
proof -
  have "obeys p (\<lambda>_ _. True) m \<Longrightarrow> obeys (embed get upd p) (\<lambda>_ _. True) m" for m
    by (induction p arbitrary: m) auto
  then show "heeds p \<Longrightarrow> heeds (embed get upd p)" by (simp add: heeds_def)
qed

lemmas heeds_registry [heeds_rules] = heeds_create heeds_delete

subsection \<open>The registry, the lock and the errors\<close>

lemma plain_registry [keeps_rules]:
  "issues plain_call (get_stream i)" "issues plain_call (get_stream_by_subreddit sub)" "issues plain_call list_streams"
  "issues plain_call (update_status db i st inst)" "issues plain_call (update_status_if_owner db i st own)"
  "issues plain_call (finalize_stop_if_unowned db i sub up)" "issues plain_call (heartbeat i own)"
  "issues plain_call (request_stop db i)" "issues plain_call (is_stop_requested i)"
  "issues plain_call (set_checkpoint i c p)" "issues plain_call (get_checkpoint i)"
  unfolding registry_defs by (intro keeps_rules; simp split: option.split)+

lemma plain_lock [keeps_rules]:
  "0 < ttl \<Longrightarrow> issues plain_call (refresh_lock sub tok ttl)"
  "issues plain_call (acquire_lock sub inst ttl)" "issues plain_call (release_lock sub tok)"
  "issues plain_call (owns_lock sub tok)" "issues plain_call (is_locked sub)"
  unfolding lock_defs by (intro keeps_rules; simp)+

lemma plain_record_error [keeps_rules]: "issues plain_call (record_error db i et msg rec)"
  unfolding record_error_def store_entry_def by (intro keeps_rules; simp)

subsection \<open>Workers\<close>

lemma plain_deliveries [keeps_rules]:
  "issues plain_call (run_callbacks rs)" "issues plain_call poll_deliveries" "issues plain_call clear_pending"
  "issues plain_call (still_pending ps)"
  unfolding run_callbacks_def poll_deliveries_def clear_pending_def still_pending_def
  by (intro keeps_rules; simp)+

lemma plain_await [keeps_rules]: "issues plain_call (await_pending k env ps deadline)"
  by (induction k arbitrary: ps) (auto intro!: keeps_rules simp: Let_def)

lemma plain_batch [keeps_rules]: "issues plain_call (wait_for_delivery_batch env)"
  unfolding wait_for_delivery_batch_def
  by (intro keeps_rules; auto intro: keeps_rules split: list.split)

lemma plain_comment [keeps_rules]:
  "issues plain_call (save_checkpoint_for_comment_id env c)" "issues plain_call (save_checkpoint env)"
  "issues plain_call (queue_message env c x)" "issues plain_call (count_comment env c)"
  "issues plain_call (publish_comment env comment)" "issues plain_call (process_comment env comment checkpoint)"
  unfolding process_comment_def publish_comment_def count_comment_def queue_message_def processing_time_def
    save_checkpoint_def save_checkpoint_for_comment_id_def
  by (intro keeps_rules; simp)+

lemma plain_fetch [keeps_rules]: "issues plain_call (fetch_comments n env sk checkpoint)"
proof (induction n)
  case (Suc n)
  show ?case
    unfolding fetch_comments.simps
    by (intro keeps_rules) (auto intro!: keeps_rules Suc.IH split: comment_event.split)
qed (simp add: keeps_rules)

lemma plain_stream [keeps_rules]:
  "issues plain_call (fetch_and_process_comments n env)" "issues plain_call (handle_error env e)"
  unfolding fetch_and_process_comments_def handle_error_def handle_fetch_exception_def
  by (intro keeps_rules; simp)+

lemma plain_stream_loop [keeps_rules]: "issues plain_call (stream_loop n m env)"
  by (induction n) (auto intro!: keeps_rules)

lemma plain_refresh [keeps_rules]: "issues plain_call (refresh_lock_or_raise env)"
  unfolding refresh_lock_or_raise_def record_lock_loss_def
  by (intro keeps_rules; simp add: lock_ttl_def)

lemma plain_refresh_loop [keeps_rules]: "issues plain_call (lock_refresh_loop n env)"
  by (induction n) (auto intro!: keeps_rules)

lemma plain_runner [keeps_rules]: "issues plain_call (run_worker env)" "issues plain_call (runner aenv sub t)"
  unfolding runner_def run_worker_def await_tasks_def by (intro keeps_rules; simp)+

subsection \<open>Managers\<close>

lemma plain_start_local [keeps_rules]: "issues plain_call (start_local_worker env i sub t tr)"
  unfolding start_local_worker_def lease_held_def by (intro keeps_rules) auto

lemma plain_activate [keeps_rules]:
  "issues plain_call (give_back env sub t)" "issues plain_call (activate env sub meta t)"
  unfolding activate_def give_back_def Let_def by (intro keeps_rules)+

lemma heeds_start: "heeds (start_stream env sub cfg)"
proof -
  have "heeds (take_lease env sub meta)" for meta
    unfolding take_lease_def by (intro heeds_rules heeds_plain [OF plain_lock(2)] heeds_plain [OF foreign_lifecycle])
  then show ?thesis
    unfolding start_stream_def by (intro heeds_rules heeds_plain [OF plain_activate(2)])
qed

lemma plain_resume [keeps_rules]:
  "issues plain_call (is_running_locally env i)" "issues plain_call (adopt env i sub t')" "issues plain_call (resume_stream env data)"
  unfolding resume_stream_def adopt_def is_running_locally_def Let_def by (intro keeps_rules; simp)+

lemma plain_reconcile [keeps_rules]: "issues plain_call (reconcile_loop n env interval)"
proof (induction n)
  case (Suc n)
  show ?case
    unfolding reconcile_loop.simps reconcile_once_def reconcile_stream_def needs_reconciliation_def Let_def
    by (intro keeps_rules Suc) auto
qed (simp add: keeps_rules)

lemma plain_join [keeps_rules]: "issues plain_call (join_quietly x)"
  unfolding join_quietly_def by (intro keeps_rules) simp

lemma plain_stream_task [keeps_rules]: "issues plain_call (run_stream env i)"
  unfolding run_stream_def watch_runner_def handle_run_exception_def handle_runner_cancellation_def
    should_preserve_for_failover_def finish_run_def forget_task_def
  by (intro keeps_rules) (auto intro!: keeps_rules split: task_event.split)

lemma plain_watcher [keeps_rules]: "issues plain_call (wait_for_stop_request n env i)"
  by (induction n) (auto intro!: keeps_rules)

lemma plain_stop [keeps_rules]:
  "issues plain_call (stop_stream env i)" "issues plain_call (stop_all env)" "issues plain_call (start_reconciliation env)"
  unfolding stop_stream_def stop_stream_with_def join_task_def stop_all_def stop_reconciliation_def start_reconciliation_def by (intro keeps_rules; simp)+

subsection \<open>Background tasks and the application\<close>

lemma heeds_loop: "heeds work \<Longrightarrow> heeds (background_loop n interval work)"
proof (induction n)
  case (Suc n)
  have "issues plain_call (sleep_ms ms)" for ms by (intro keeps_rules) simp
  note pause = heeds_plain [OF this]
  from Suc show ?case unfolding background_loop.simps by (intro heeds_rules pause)
qed (simp add: heeds_rules)

lemma heeds_cleanup: "heeds (cleanup :: ('l, unit) prog)"
proof -
  have "heeds (retire_stream stream :: ('l, bool) prog)" for stream
    unfolding retire_stream_def Let_def by (intro heeds_rules)
  then have "heeds (retire_streams streams n :: ('l, nat) prog)" for streams n
    by (induction streams arbitrary: n) (auto intro!: heeds_rules)
  then show ?thesis
    unfolding cleanup_def cleanup_sweep_def Let_def by (intro heeds_rules heeds_plain [OF plain_registry(3)])
qed

lemma plain_flush [keeps_rules]: "issues plain_call (flush inst)"
proof -
  have "issues plain_call (checkpoint_parameters ps)" for ps
    by (induction ps) (auto intro!: keeps_rules)
  then have up: "issues plain_call (upsert_checkpoints ps)" for ps
    unfolding upsert_checkpoints_def by (intro issues_bind) (auto intro: keeps_rules)
  show ?thesis unfolding flush_def flush_owned_def Let_def by (intro up keeps_rules) auto
qed

lemma plain_background [keeps_rules]: "issues plain_call start_background" "issues plain_call (stop_background x)"
  unfolding start_background_def stop_background_def by (intro keeps_rules; simp)+

lemma plain_application [keeps_rules]: "issues plain_call (startup env)" "issues plain_call (shutdown env)"
  unfolding startup_def get_engine_def create_runner_def get_kafka_producer_from_settings_def start_flusher_def shutdown_def stop_flusher_def
  by (intro keeps_rules; simp)+

lemma plain_endpoints [keeps_rules]:
  "issues plain_call (validate_subreddit_access sub)" "issues plain_call list_streams_endpoint"
  "issues plain_call (stop_stream_endpoint env i)" "issues plain_call readiness"
  unfolding validate_subreddit_access_def list_streams_endpoint_def stop_stream_endpoint_def stop_stream_endpoint_with_def stop_stream_with_def join_task_def
    readiness_def check_redis_def check_postgres_def get_session_def check_kafka_def checked_dependency_def Let_def
  by (intro keeps_rules; simp)+

lemma heeds_endpoint: "heeds (call_endpoint env endpoint)"
proof (cases endpoint)
  case (Create_Stream sub)
  have "heeds (create_stream_endpoint env sub)"
    unfolding create_stream_endpoint_def
    by (intro heeds_rules heeds_start heeds_plain [OF plain_endpoints(1)])
  then show ?thesis using Create_Stream by (simp add: answered_def heeds_rules)
qed (auto simp: answered_def health_def intro!: heeds_plain keeps_rules)

lemma heeds_serve: "heeds (serve fw env request)"
  unfolding serve_def observe_http_request_def call_route_def correlation_id_def set_request_id_def set_span_def finish_request_def Let_def
  by (intro heeds_rules heeds_endpoint)

lemma heeds_activity: "heeds (activity_of k env a)"
proof (cases a)
  case (Http_Request j fw request)
  then show ?thesis by (auto simp: discard_def intro!: heeds_rules heeds_serve)
next
  case (Cleanup_Task n ms)
  then show ?thesis by (auto simp: discard_def cleanup_loop_def intro!: heeds_rules heeds_loop heeds_cleanup)
next
  case (Flush_Task n ms)
  then show ?thesis by (auto simp: discard_def flush_loop_def intro!: heeds_rules heeds_loop heeds_plain [OF plain_flush])
qed (auto simp: discard_def intro!: heeds_plain keeps_rules)

text \<open>What this gives for the system.\<close>

lemma pool_identities:
  assumes "documented_services S V" and "\<forall>p \<in> set ps. heeds p" and "agreed (V w)"
    and "pool_run S sch (ps, l, w) = (ps', l', w')"
  shows "agreed (V w') \<and> idents (V w) \<subseteq>\<^sub>m idents (V w')"
  using documented_services.pool_discipline [OF assms(1) identities.discipline_axioms _ assms(3,4)] assms(2)
  by (auto simp: heeds_def)

end
