(* ===== verification/Serializer.thy ===== *)
theory Serializer
  imports Config Py_Exn Comment_Message
begin

section \<open>The message serializers\<close>

text \<open>
  src/serializers/avro\_serializer.py. AWS Glue, the file of the local schema and the packages that parse Avro schemas and
  encode messages are parameters (\<open>'s avro_world\<close>, \<open>'s\<close> a parsed schema), given with every call, as they
  may answer differently each time. A serializer is an object: \<open>sc_made\<close> numbers them.
  \<^verbatim>\<open>functools.lru_cache\<close> keeps the results of the last calls, the latest first, and no exception.
\<close>

record 's avro_world =
  aw_client :: "string \<Rightarrow> pyexn option"
  aw_schema_version :: "string \<Rightarrow> string \<Rightarrow> string \<Rightarrow> int \<Rightarrow> pyexn + dict"
  aw_parse :: "string \<Rightarrow> pyexn + 's"
  aw_write :: "'s \<Rightarrow> reddit_comment_message \<Rightarrow> pyexn + string"
  aw_encode :: "string \<Rightarrow> nat \<Rightarrow> pyexn + string"
  aw_local_schema :: "pyexn + string"

datatype 's serializer = Glue_Serializer string 's nat | Local_Serializer 's

subsection \<open>\<^verbatim>\<open>uuid.UUID(text)\<close>\<close>

text \<open>\<^verbatim>\<open>s.replace(t, "")\<close>.\<close>

fun remove_all :: "nat \<Rightarrow> string \<Rightarrow> string \<Rightarrow> string" where
  "remove_all 0 t s = s"
| "remove_all (Suc n) t [] = []"
| "remove_all (Suc n) t (c # s) =
     (if take (length t) (c # s) = t then remove_all n t (drop (length t) (c # s)) else c # remove_all n t s)"

definition remove_text :: "string \<Rightarrow> string \<Rightarrow> string" where
  "remove_text t s = remove_all (length s) t s"

definition strip_chars :: "(char \<Rightarrow> bool) \<Rightarrow> string \<Rightarrow> string" where
  "strip_chars p s = rev (dropWhile p (rev (dropWhile p s)))"

definition hex_value :: "char \<Rightarrow> nat option" where
  "hex_value c =
     (let n = of_char c :: nat in
      if 48 \<le> n \<and> n \<le> 57 then Some (n - 48)
      else if 65 \<le> n \<and> n \<le> 70 then Some (n - 55)
      else if 97 \<le> n \<and> n \<le> 102 then Some (n - 87) else None)"

text \<open>Digits, with single underscores between them; \<open>b\<close> tells whether an underscore may come next.\<close>

fun hex_digits :: "bool \<Rightarrow> nat \<Rightarrow> string \<Rightarrow> nat option" where
  "hex_digits b n [] = (if b then Some n else None)"
| "hex_digits b n (c # s) =
     (if c = CHR ''_'' then (if b then hex_digits False n s else None)
      else case hex_value c of None \<Rightarrow> None | Some d \<Rightarrow> hex_digits True (16 * n + d) s)"

definition is_blank_char :: "char \<Rightarrow> bool" where
  "is_blank_char c = (let n = of_char c :: nat in (9 \<le> n \<and> n \<le> 13) \<or> (28 \<le> n \<and> n \<le> 32) \<or> n = 0x85 \<or> n = 0xA0)"

text \<open>\<^verbatim>\<open>int(text, 16)\<close> on text without a minus sign: blanks around it, a plus sign and the prefix \<^verbatim>\<open>0x\<close> are allowed.\<close>

definition int_base_16 :: "string \<Rightarrow> nat option" where
  "int_base_16 s =
     (let t = strip_chars is_blank_char s;
          u = (if take 1 t = ''+'' then drop 1 t else t)
      in if take 2 u = ''0x'' \<or> take 2 u = ''0X''
         then (let x = drop 2 u in hex_digits False 0 (if take 1 x = ''_'' then drop 1 x else x))
         else hex_digits False 0 u)"

definition parse_uuid :: "string \<Rightarrow> pyexn + nat" where
  "parse_uuid s =
     (let h = filter (\<lambda>c. c \<noteq> CHR ''-'')
            (strip_chars (\<lambda>c. c = CHR ''{'' \<or> c = CHR ''}'') (remove_text ''uuid:'' (remove_text ''urn:'' s)))
      in if length h \<noteq> 32 then Inl (value_error ''badly formed hexadecimal UUID string'')
         else case int_base_16 h of
             None \<Rightarrow> Inl (value_error ''invalid literal for int() with base 16'')
           | Some n \<Rightarrow> Inr n)"

subsection \<open>The Glue serializer\<close>

definition missing_key :: "string \<Rightarrow> pyexn" where
  "missing_key k = \<lparr>etype = ''KeyError'', emro = [Key_Error, Py_Exception, Base_Exception], estr = k, eretry = 0\<rparr>"

text \<open>The body of the constructor's \<^verbatim>\<open>try\<close>.\<close>

definition load_glue_schema :: "'s avro_world \<Rightarrow> schema_settings \<Rightarrow> pyexn + 's serializer" where
  "load_glue_schema world settings =
     (case aw_schema_version world (ss_region settings) (ss_registry_name settings) (ss_schema_name settings) (ss_schema_version settings) of
        Inl e \<Rightarrow> Inl e
      | Inr response \<Rightarrow>
          if dict_get response ''Status'' \<noteq> Some ''AVAILABLE'' then
            Inl (value_error (''Schema version is not available: '' @
              (case dict_get response ''Status'' of None \<Rightarrow> ''UNKNOWN'' | Some status \<Rightarrow> status)))
          else (case dict_get response ''SchemaDefinition'' of
              None \<Rightarrow> Inl (missing_key ''SchemaDefinition'')
            | Some schema_definition \<Rightarrow>
                (case aw_parse world schema_definition of
                   Inl e \<Rightarrow> Inl e
                 | Inr avro_schema \<Rightarrow>
                     (case dict_get response ''SchemaVersionId'' of
                        None \<Rightarrow> Inl (missing_key ''SchemaVersionId'')
                      | Some i \<Rightarrow>
                          (case parse_uuid i of
                             Inl e \<Rightarrow> Inl e
                           | Inr schema_version_id \<Rightarrow> Inr (Glue_Serializer (ss_schema_name settings) avro_schema schema_version_id))))))"

definition glue_serializer :: "'s avro_world \<Rightarrow> schema_settings \<Rightarrow> pyexn + 's serializer" where
  "glue_serializer world settings =
     (case aw_client world (ss_region settings) of
        Some e \<Rightarrow> Inl e
      | None \<Rightarrow>
          (case load_glue_schema world settings of
             Inr x \<Rightarrow> Inr x
           | Inl error \<Rightarrow>
               if isinstance error [Client_Error, Key_Error, No_Credentials_Error, Value_Error]
               then Inl (runtime_error ''Cannot start serializer without schema access.'')
               else Inl error))"

definition local_serializer :: "'s avro_world \<Rightarrow> pyexn + 's serializer" where
  "local_serializer world =
     (case aw_local_schema world of
        Inl e \<Rightarrow> Inl e
      | Inr schema_text \<Rightarrow> (case aw_parse world schema_text of Inl e \<Rightarrow> Inl e | Inr avro_schema \<Rightarrow> Inr (Local_Serializer avro_schema)))"

fun serialize_message :: "'s avro_world \<Rightarrow> 's serializer \<Rightarrow> reddit_comment_message \<Rightarrow> pyexn + string" where
  "serialize_message world (Glue_Serializer schema_name avro_schema schema_version_id) message =
     (case (case aw_write world avro_schema message of
              Inl e \<Rightarrow> Inl e
            | Inr avro_payload \<Rightarrow> aw_encode world avro_payload schema_version_id) of
        Inr x \<Rightarrow> Inr x
      | Inl error \<Rightarrow>
          if isinstance error [Validation_Error] then Inl (value_error (''Invalid message format for schema '' @ schema_name))
          else Inl error)"
| "serialize_message world (Local_Serializer avro_schema) message = aw_write world avro_schema message"

subsection \<open>The caches\<close>

definition lru_call :: "nat \<Rightarrow> 'k \<Rightarrow> (pyexn + 'v) \<Rightarrow> ('k \<times> 'v) list \<Rightarrow> (pyexn + 'v) \<times> ('k \<times> 'v) list" where
  "lru_call maxsize key computed cache =
     (case map_of cache key of
        Some x \<Rightarrow> (Inr x, (key, x) # filter (\<lambda>(k, _). k \<noteq> key) cache)
      | None \<Rightarrow>
          (case computed of
             Inl e \<Rightarrow> (Inl e, cache)
           | Inr x \<Rightarrow> (Inr x, take maxsize ((key, x) # cache))))"

type_synonym glue_key = "string \<times> string \<times> int \<times> string"

record 's caches =
  sc_glue :: "(glue_key \<times> nat \<times> 's serializer) list"
  sc_local :: "(unit \<times> nat \<times> 's serializer) list"
  sc_made :: nat

definition glue_key :: "schema_settings \<Rightarrow> glue_key" where
  "glue_key settings = (ss_registry_name settings, ss_schema_name settings, ss_schema_version settings, ss_region settings)"

definition get_cached_serializer :: "'s avro_world \<Rightarrow> schema_settings \<Rightarrow> 's caches \<Rightarrow> (pyexn + nat \<times> 's serializer) \<times> 's caches" where
  "get_cached_serializer world settings c =
     (let made = map_sum id (\<lambda>x. (sc_made c, x)) (glue_serializer world settings);
          (r, entries) = lru_call 4 (glue_key settings) made (sc_glue c)
      in (r, c\<lparr>sc_glue := entries,
               sc_made := (if map_of (sc_glue c) (glue_key settings) = None then sc_made c + 1 else sc_made c)\<rparr>))"

definition get_cached_local_serializer :: "'s avro_world \<Rightarrow> 's caches \<Rightarrow> (pyexn + nat \<times> 's serializer) \<times> 's caches" where
  "get_cached_local_serializer world c =
     (let made = map_sum id (\<lambda>x. (sc_made c, x)) (local_serializer world);
          (r, entries) = lru_call 1 () made (sc_local c)
      in (r, c\<lparr>sc_local := entries, sc_made := (if sc_local c = [] then sc_made c + 1 else sc_made c)\<rparr>))"

definition get_serializer :: "'s avro_world \<Rightarrow> schema_settings \<Rightarrow> 's caches \<Rightarrow> (pyexn + nat \<times> 's serializer) \<times> 's caches" where
  "get_serializer world settings c =
     (if \<not> ss_use_registry settings then get_cached_local_serializer world c
      else get_cached_serializer world settings c)"

text \<open>A sequence of calls, each with the world as it then is.\<close>

fun get_serializers :: "('s avro_world \<times> schema_settings) list \<Rightarrow> 's caches \<Rightarrow> 's caches" where
  "get_serializers [] c = c"
| "get_serializers ((world, settings) # ws) c = get_serializers ws (snd (get_serializer world settings c))"

subsection \<open>A serializer is made once\<close>

text \<open>An entry with at most the keys of \<open>K\<close> before it.\<close>

definition cached_behind :: "'k set \<Rightarrow> 'k \<Rightarrow> 'v \<Rightarrow> ('k \<times> 'v) list \<Rightarrow> bool" where
  "cached_behind K key x cache =
     (distinct (map fst cache) \<and> (\<exists>pre post. cache = pre @ (key, x) # post \<and> set (map fst pre) \<subseteq> K))"

lemma cached_lookup: "cached_behind K key x cache \<Longrightarrow> map_of cache key = Some x"
  by (auto simp: cached_behind_def map_of_eq_None_iff map_add_def image_iff split: option.splits dest: map_of_SomeD)

lemma lru_distinct:
  "distinct (map fst cache) \<Longrightarrow> lru_call n key computed cache = (r, cache') \<Longrightarrow> distinct (map fst cache')"
proof -
  assume d: "distinct (map fst cache)" and c: "lru_call n key computed cache = (r, cache')"
  have f: "distinct (map fst (filter P cache))" for P using d by (simp add: distinct_map_filter)
  from c show ?thesis
  proof (cases "map_of cache key")
    case None
    then have "distinct (map fst (take n ((key, x) # cache)))" for x
      using d by (simp only: take_map [symmetric]) (simp add: map_of_eq_None_iff distinct_take)
    with None c d show ?thesis by (auto simp: lru_call_def split: sum.splits)
  next
    case (Some x)
    with c f show ?thesis by (auto simp: lru_call_def)
  qed
qed

lemma lru_found:
  assumes "cached_behind K key x cache" and "lru_call n key computed cache = (r, cache')"
  shows "r = Inr x \<and> cached_behind {} key x cache'"
proof -
  from assms(1) have "distinct (map fst cache)" by (simp add: cached_behind_def)
  from lru_distinct [OF this assms(2)] cached_lookup [OF assms(1)] assms(2) show ?thesis
    by (auto simp: lru_call_def cached_behind_def)
qed

lemma lru_made:
  assumes "distinct (map fst cache)" and "0 < n" and "lru_call n key computed cache = (Inr x, cache')"
  shows "cached_behind {} key x cache'"
  using lru_distinct [OF assms(1,3)] assms(2,3)
  by (cases n) (auto simp: lru_call_def cached_behind_def split: option.splits sum.splits)

text \<open>A call with another key moves the entry back by one place at most, and never beyond those of \<open>K\<close>.\<close>

lemma lru_other:
  assumes "cached_behind K key x cache" and "key' \<in> K" and "key' \<noteq> key" and "finite K" and "card K < n"
    and "lru_call n key' computed cache = (r, cache')"
  shows "cached_behind K key x cache'"
proof -
  from assms(1) obtain pre post where c: "cache = pre @ (key, x) # post" "set (map fst pre) \<subseteq> K" "distinct (map fst cache)"
    by (auto simp: cached_behind_def)
  have d: "distinct (map fst cache')" by (rule lru_distinct [OF c(3) assms(6)])
  show ?thesis
  proof (cases "map_of cache key'")
    case (Some y)
    let ?f = "filter (\<lambda>(k, _). k \<noteq> key')"
    from Some assms(6) have "cache' = ((key', y) # ?f pre) @ (key, x) # ?f post"
      using assms(3) c(1) by (simp add: lru_call_def)
    moreover have "set (map fst ((key', y) # ?f pre)) \<subseteq> K" using c(2) assms(2) by auto
    ultimately show ?thesis using d unfolding cached_behind_def by blast
  next
    case None
    show ?thesis
    proof (cases computed)
      case (Inl e)
      with None assms(1,6) show ?thesis by (simp add: lru_call_def)
    next
      case (Inr y)
      let ?pre = "(key', y) # pre"
      from None c(1) have "key' \<notin> set (map fst pre)" by (auto simp: map_of_eq_None_iff)
      with c(1,3) have "distinct (map fst ?pre)" by simp
      then have "length ?pre = card (set (map fst ?pre))" by (metis distinct_card length_map)
      also have "\<dots> \<le> card K" using c(2) assms(2,4) by (intro card_mono) auto
      finally have "length ?pre < n" using assms(5) by simp
      from less_imp_Suc_add [OF this] obtain m where "n = Suc (length ?pre + m)" by blast
      then have m: "n = length ?pre + Suc m" by simp
      from None Inr assms(6) have "cache' = take n ((key', y) # cache)" by (simp add: lru_call_def)
      with m c(1) have "cache' = ?pre @ (key, x) # take m post" by simp
      moreover have "set (map fst ?pre) \<subseteq> K" using c(2) assms(2) by auto
      ultimately show ?thesis using d unfolding cached_behind_def by blast
    qed
  qed
qed

lemma cached_weaken: "cached_behind K key x cache \<Longrightarrow> K \<subseteq> K' \<Longrightarrow> cached_behind K' key x cache"
  unfolding cached_behind_def by blast

text \<open>How a call changes the Glue cache.\<close>

definition caches_ok :: "'s caches \<Rightarrow> bool" where
  "caches_ok c = distinct (map fst (sc_glue c))"

lemma get_serializer_ok:
  assumes "caches_ok c" and "get_serializer world settings c = (r, c')"
  shows "caches_ok c'"
  using assms lru_distinct
  by (auto simp: get_serializer_def get_cached_serializer_def get_cached_local_serializer_def caches_ok_def Let_def
      split: if_splits prod.splits)

lemma glue_made:
  assumes "caches_ok c" and "ss_use_registry settings" and "get_serializer world settings c = (Inr x, c')"
  shows "cached_behind {} (glue_key settings) x (sc_glue c')"
proof -
  from assms(2,3) obtain computed where "lru_call 4 (glue_key settings) computed (sc_glue c) = (Inr x, sc_glue c')"
    by (auto simp: get_serializer_def get_cached_serializer_def Let_def split: prod.splits)
  with lru_made [OF _ _ this] assms(1) show ?thesis by (simp add: caches_ok_def)
qed

lemma glue_found:
  assumes "cached_behind K (glue_key settings) x (sc_glue c)" and "ss_use_registry settings"
    and "get_serializer world settings c = (r, c')"
  shows "r = Inr x \<and> sc_made c' = sc_made c \<and> cached_behind {} (glue_key settings) x (sc_glue c')"
  using assms lru_found [OF assms(1)] cached_lookup [OF assms(1)]
  by (auto simp: get_serializer_def get_cached_serializer_def Let_def split: prod.splits)

lemma glue_other:
  assumes "cached_behind K key x (sc_glue c)" and "glue_key settings \<in> K" and "glue_key settings \<noteq> key"
    and "finite K" and "card K < 4" and "get_serializer world settings c = (r, c')"
  shows "cached_behind K key x (sc_glue c')"
  using assms lru_other [OF assms(1-5)]
  by (auto simp: get_serializer_def get_cached_serializer_def get_cached_local_serializer_def Let_def split: if_splits prod.splits)

lemma local_keeps: "\<not> ss_use_registry settings \<Longrightarrow> sc_glue (snd (get_serializer world settings c)) = sc_glue c"
  by (auto simp: get_serializer_def get_cached_local_serializer_def Let_def split: prod.split)

lemma cached_along:
  assumes "cached_behind K (glue_key settings) x (sc_glue c)" and "finite K" and "card K < 4"
    and "\<forall>(w, s) \<in> set ws. ss_use_registry s \<longrightarrow> glue_key s = glue_key settings \<or> glue_key s \<in> K"
  shows "cached_behind K (glue_key settings) x (sc_glue (get_serializers ws c))"
  using assms(1,4)
proof (induction ws arbitrary: c)
  case (Cons p ws)
  obtain w s r c1 where p: "p = (w, s)" "get_serializer w s c = (r, c1)" by (metis surj_pair)
  have "cached_behind K (glue_key settings) x (sc_glue c1)"
  proof (cases "ss_use_registry s")
    case use: True
    show ?thesis
    proof (cases "glue_key s = glue_key settings")
      case True
      with use Cons.prems p glue_found [of K s x c w] show ?thesis by (auto intro: cached_weaken)
    next
      case False
      with use Cons.prems p glue_other [OF Cons.prems(1) _ False assms(2,3)] show ?thesis by auto
    qed
  next
    case False
    with Cons.prems p local_keeps [of s w c] show ?thesis by simp
  qed
  with Cons p show ?case by simp
qed simp

text \<open>The Glue settings of some calls other than \<open>key\<close>.\<close>

definition other_keys :: "glue_key \<Rightarrow> ('s avro_world \<times> schema_settings) list \<Rightarrow> glue_key list" where
  "other_keys key ws = remdups (filter (\<lambda>k. k \<noteq> key) (map (glue_key \<circ> snd) (filter (\<lambda>(w, s). ss_use_registry s) ws)))"

text \<open>C35: once a Glue serializer was made for some settings, each later \<^verbatim>\<open>get_serializer\<close> for them answers the same object and
  asks AWS nothing, whatever has become of AWS, as long as serializers for fewer than four other settings were
  wanted since.\<close>

theorem serializer_made_once:
  assumes "caches_ok c" and "ss_use_registry settings" and "get_serializer world settings c = (Inr x, c1)"
    and "length (other_keys (glue_key settings) ws) < 4"
  shows "fst (get_serializer world' settings (get_serializers ws c1)) = Inr x \<and>
     sc_made (snd (get_serializer world' settings (get_serializers ws c1))) = sc_made (get_serializers ws c1)"
proof -
  let ?K = "set (other_keys (glue_key settings) ws)"
  have "card ?K = length (other_keys (glue_key settings) ws)"
    by (rule distinct_card) (simp add: other_keys_def)
  with assms(4) have k: "card ?K < 4" by simp
  have "cached_behind ?K (glue_key settings) x (sc_glue c1)"
    by (rule cached_weaken [OF glue_made [OF assms(1-3)]]) simp
  from cached_along [OF this _ k] have "cached_behind ?K (glue_key settings) x (sc_glue (get_serializers ws c1))"
    by (force simp: other_keys_def)
  then show ?thesis
    using glue_found [of ?K settings x "get_serializers ws c1" world'] assms(2) by (metis prod.collapse)
qed

definition some_settings :: "int \<Rightarrow> schema_settings" where
  "some_settings n = \<lparr>ss_use_registry = True, ss_registry_name = ''reddit-kafka-schemas'', ss_schema_name = ''RedditComment'',
     ss_schema_version = n, ss_region = ''us-east-1''\<rparr>"

definition good_world :: "string avro_world" where
  "good_world = \<lparr>aw_client = (\<lambda>_. None),
     aw_schema_version = (\<lambda>_ _ _ _. Inr [(''Status'', ''AVAILABLE''), (''SchemaDefinition'', ''{}''),
       (''SchemaVersionId'', ''00000000-0000-0000-0000-000000000001'')]),
     aw_parse = Inr, aw_write = (\<lambda>_ m. Inr (cm_text m)), aw_encode = (\<lambda>x _. Inr x), aw_local_schema = Inr ''{}''\<rparr>"

definition broken_world :: "string avro_world" where
  "broken_world = good_world\<lparr>aw_client := (\<lambda>_. Some response_error)\<rparr>"

definition no_caches :: "string caches" where
  "no_caches = \<lparr>sc_glue = [], sc_local = [], sc_made = 0\<rparr>"

lemma some_uuid: "parse_uuid ''00000000-0000-0000-0000-000000000001'' = Inr 1"
  by (simp add: parse_uuid_def remove_text_def strip_chars_def int_base_16_def is_blank_char_def hex_value_def Let_def)

theorem serializer_made_once_witness:
  "\<exists>x c1. get_serializer good_world (some_settings 1) no_caches = (Inr x, c1) \<and>
     fst (get_serializer broken_world (some_settings 1) (get_serializers [(good_world, some_settings 2), (good_world, some_settings 3)] c1)) = Inr x"
proof -
  have "\<exists>x c1. get_serializer good_world (some_settings 1) no_caches = (Inr x, c1)"
    by (simp add: get_serializer_def get_cached_serializer_def glue_serializer_def load_glue_schema_def lru_call_def
        good_world_def some_settings_def no_caches_def some_uuid)
  then obtain x c1 where e: "get_serializer good_world (some_settings 1) no_caches = (Inr x, c1)" by blast
  have "length (other_keys (glue_key (some_settings 1)) [(good_world, some_settings 2), (good_world, some_settings 3)]) < 4"
    by (simp add: other_keys_def some_settings_def glue_key_def)
  from serializer_made_once [OF _ _ e this, of broken_world] e show ?thesis
    by (auto simp: caches_ok_def no_caches_def some_settings_def)
qed

end
