(* ===== verification/Bytes_Text.thy ===== *)
theory Bytes_Text
  imports Prelude "HOL-Library.Word"
begin

unbundle bit_operations_syntax

section \<open>Bytes, text and digests\<close>

text \<open>
  What src/migrations.py uses of Python's standard library on the bytes of a file: decoding UTF-8 (RFC 3629, as
  \<^verbatim>\<open>bytes.decode\<close> does it strictly), \<^verbatim>\<open>str.strip\<close> as far as it tells blank text, and
  \<^verbatim>\<open>hashlib.sha256(...).hexdigest()\<close> (FIPS 180-4). A byte is a \<open>char\<close>, decoded text a list of code points.
\<close>

subsection \<open>UTF-8\<close>

definition is_cont :: "nat \<Rightarrow> bool" where
  "is_cont b = (0x80 \<le> b \<and> b \<le> 0xBF)"

fun utf8_decode :: "nat list \<Rightarrow> nat list option" where
  "utf8_decode [] = Some []"
| "utf8_decode (a # bs) =
     (if a < 0x80 then map_option ((#) a) (utf8_decode bs)
      else case bs of
        [] \<Rightarrow> None
      | b # cs \<Rightarrow>
          if \<not> is_cont b then None
          else if 0xC2 \<le> a \<and> a \<le> 0xDF then map_option ((#) ((a - 0xC0) * 64 + (b - 0x80))) (utf8_decode cs)
          else (case cs of
            [] \<Rightarrow> None
          | c # ds \<Rightarrow>
              if \<not> is_cont c then None
              else if 0xE0 \<le> a \<and> a \<le> 0xEF then
                if (a = 0xE0 \<and> b < 0xA0) \<or> (a = 0xED \<and> 0x9F < b) then None
                else map_option ((#) (((a - 0xE0) * 64 + (b - 0x80)) * 64 + (c - 0x80))) (utf8_decode ds)
              else (case ds of
                [] \<Rightarrow> None
              | d # es \<Rightarrow>
                  if \<not> is_cont d \<or> a < 0xF0 \<or> 0xF4 < a \<or> (a = 0xF0 \<and> b < 0x90) \<or> (a = 0xF4 \<and> 0x8F < b) then None
                  else map_option ((#) ((((a - 0xF0) * 64 + (b - 0x80)) * 64 + (c - 0x80)) * 64 + (d - 0x80)))
                         (utf8_decode es))))"

definition decode_utf8 :: "string \<Rightarrow> nat list option" where
  "decode_utf8 raw_bytes = utf8_decode (map of_char raw_bytes)"

text \<open>\<^verbatim>\<open>str.isspace\<close> of one character.\<close>

definition is_space :: "nat \<Rightarrow> bool" where
  "is_space c = ((9 \<le> c \<and> c \<le> 13) \<or> (28 \<le> c \<and> c \<le> 32) \<or> c = 0x85 \<or> c = 0xA0 \<or> c = 0x1680 \<or>
     (0x2000 \<le> c \<and> c \<le> 0x200A) \<or> c = 0x2028 \<or> c = 0x2029 \<or> c = 0x202F \<or> c = 0x205F \<or> c = 0x3000)"

subsection \<open>SHA-256\<close>

type_synonym hash_state = "32 word \<times> 32 word \<times> 32 word \<times> 32 word \<times> 32 word \<times> 32 word \<times> 32 word \<times> 32 word"

text \<open>The standard's constants are the first 32 bits of the fractional parts of the cube roots of the first 64 primes,
  its initial state those of the square roots of the first eight; \<open>root_floor e n\<close> is the \<open>e\<close>-th root of \<open>n\<close>, rounded down.\<close>

definition small_primes :: "nat list" where
  "small_primes = filter (\<lambda>n. list_all (\<lambda>d. n mod d \<noteq> 0) [2..<n]) [2..<312]"

definition root_floor :: "nat \<Rightarrow> nat \<Rightarrow> nat" where
  "root_floor e n = foldr (\<lambda>i r. if (r + 2 ^ i) ^ e \<le> n then r + 2 ^ i else r) [0..<40] 0"

definition sha_constants :: "32 word list" where
  "sha_constants = map (\<lambda>p. of_nat (root_floor 3 (p * 2 ^ 96))) small_primes"

definition sha_initial :: hash_state where
  "sha_initial =
     (let h = map (\<lambda>p. of_nat (root_floor 2 (p * 2 ^ 64))) (take 8 small_primes) in
      (h ! 0, h ! 1, h ! 2, h ! 3, h ! 4, h ! 5, h ! 6, h ! 7))"

definition rotr :: "nat \<Rightarrow> 32 word \<Rightarrow> 32 word" where
  "rotr n w = (drop_bit n w OR push_bit (32 - n) w)"

text \<open>The message schedule, the latest word first.\<close>

fun sha_schedule :: "nat \<Rightarrow> 32 word list \<Rightarrow> 32 word list" where
  "sha_schedule 0 ws = ws"
| "sha_schedule (Suc n) ws =
     (let x = ws ! 14; y = ws ! 1;
          s0 = rotr 7 x XOR rotr 18 x XOR drop_bit 3 x;
          s1 = rotr 17 y XOR rotr 19 y XOR drop_bit 10 y
      in sha_schedule n ((ws ! 15 + s0 + ws ! 6 + s1) # ws))"

fun sha_round :: "32 word \<times> 32 word \<Rightarrow> hash_state \<Rightarrow> hash_state" where
  "sha_round (k, w) (a, b, c, d, e, f, g, h) =
     (let s1 = rotr 6 e XOR rotr 11 e XOR rotr 25 e;
          ch = (e AND f) XOR (NOT e AND g);
          t1 = h + s1 + ch + k + w;
          s0 = rotr 2 a XOR rotr 13 a XOR rotr 22 a;
          maj = (a AND b) XOR (a AND c) XOR (b AND c)
      in (t1 + s0 + maj, a, b, c, d + t1, e, f, g))"

definition sha_block :: "32 word list \<Rightarrow> hash_state \<Rightarrow> hash_state" where
  "sha_block ws st =
     (let (a, b, c, d, e, f, g, h) = st;
          (a', b', c', d', e', f', g', h') = fold sha_round (zip sha_constants (rev (sha_schedule 48 (rev ws)))) st
      in (a + a', b + b', c + c', d + d', e + e', f + f', g + g', h + h'))"

fun big_endian :: "nat \<Rightarrow> nat \<Rightarrow> nat list" where
  "big_endian 0 n = []"
| "big_endian (Suc k) n = big_endian k (n div 256) @ [n mod 256]"

definition sha_padded :: "nat list \<Rightarrow> nat list" where
  "sha_padded bs = bs @ [0x80] @ replicate ((119 - length bs mod 64) mod 64) 0 @ big_endian 8 (8 * length bs)"

fun words_of :: "nat list \<Rightarrow> 32 word list" where
  "words_of (a # b # c # d # bs) = of_nat (((a * 256 + b) * 256 + c) * 256 + d) # words_of bs"
| "words_of _ = []"

definition hex_digit :: "nat \<Rightarrow> char" where
  "hex_digit d = (if d < 10 then char_of (48 + d) else char_of (87 + d))"

definition hex_word :: "32 word \<Rightarrow> string" where
  "hex_word w = concat (map (\<lambda>b. [hex_digit (b div 16), hex_digit (b mod 16)]) (big_endian 4 (unat w)))"

definition sha256_hexdigest :: "string \<Rightarrow> string" where
  "sha256_hexdigest raw_bytes =
     (let ws = words_of (sha_padded (map of_char raw_bytes));
          (a, b, c, d, e, f, g, h) = fold (\<lambda>i. sha_block (take 16 (drop (16 * i) ws))) [0..<length ws div 16] sha_initial
      in concat (map hex_word [a, b, c, d, e, f, g, h]))"

lemma length_big_endian [simp]: "length (big_endian k n) = k"
  by (induction k arbitrary: n) auto

lemma length_hex_word: "length (hex_word w) = 8"
  by (simp add: hex_word_def length_concat comp_def sum_list_triv)

lemma length_sha256: "length (sha256_hexdigest raw_bytes) = 64"
  by (simp add: sha256_hexdigest_def Let_def length_hex_word split: prod.split)

end
