(* ===== verification/Migrations.thy ===== *)
theory Migrations
  imports Py_Exn Bytes_Text "HOL-Library.List_Lexorder" "HOL-Library.Char_ord"
begin

section \<open>The migration runner\<close>

text \<open>
  src/migrations.py, which runs in a process of its own before the service. The database is \<open>'d mig_db\<close>: the
  table \<^verbatim>\<open>schema_migrations\<close>, if it exists, and everything else, on which the scripts work. What PostgreSQL does
  with a script is a parameter \<open>script\<close>, which fails with an exception or changes the database; so is
  \<open>create_all\<close>, SQLAlchemy's creation of the tables of the ORM models. \<^verbatim>\<open>engine.begin()\<close> commits at
  its end and rolls back on an exception, and the advisory lock keeps other runners out until then, so
  a transaction is one step (\<open>in_transaction\<close>). A \<open>fault\<close> is what the connection does to it.
  \<open>retry_env\<close> answers the calls around the attempts: the readings of the monotonic clock in
  microseconds, the failures of \<^verbatim>\<open>engine.dispose()\<close> and the cancellations of the sleep, by the number of the attempt.
\<close>

record 'd mig_db =
  md_log :: "dict option"
  md_data :: 'd

record migration_file =
  mf_name :: string
  mf_bytes :: string

record 'd migrator =
  mi_db :: "'d mig_db"
  mi_engine :: bool

datatype fault = No_Fault | Fails_Before pyexn | Fails_After pyexn

record retry_env =
  re_start :: int
  re_clock :: "nat \<Rightarrow> int"
  re_fault :: "nat \<Rightarrow> fault"
  re_dispose :: "nat \<Rightarrow> pyexn option"
  re_cancel :: "nat \<Rightarrow> pyexn option"

definition max_migration_wait_seconds :: int where
  "max_migration_wait_seconds = 600"

definition migration_retry_delay_seconds :: int where
  "migration_retry_delay_seconds = 10"

subsection \<open>Errors worth another attempt\<close>

definition lower_char :: "char \<Rightarrow> char" where
  "lower_char c =
     (let n = of_char c :: nat in
      if (65 \<le> n \<and> n \<le> 90) \<or> (0xC0 \<le> n \<and> n \<le> 0xDE \<and> n \<noteq> 0xD7) then char_of (n + 32) else c)"

fun contains :: "string \<Rightarrow> string \<Rightarrow> bool" where
  "contains token [] = (token = [])"
| "contains token (c # s) = (take (length token) (c # s) = token \<or> contains token s)"

definition retryable_messages :: "string list" where
  "retryable_messages = [''could not connect'', ''connection refused'', ''connection timed out'',
     ''server closed the connection'', ''too many connections'', ''the database system is starting up'']"

definition is_retryable_migration_error :: "pyexn \<Rightarrow> bool" where
  "is_retryable_migration_error error =
     (if isinstance error [Connection_Error, Timeout_Error, Os_Error, Operational_Error, Dbapi_Error] then True
      else list_ex (\<lambda>token. contains token (map lower_char (estr error))) retryable_messages)"

subsection \<open>The files\<close>

definition decode_error :: pyexn where
  "decode_error = \<lparr>etype = ''UnicodeDecodeError'', emro = [Value_Error, Py_Exception, Base_Exception],
     estr = ''invalid utf-8'', eretry = 0\<rparr>"

text \<open>What SQLAlchemy raises when PostgreSQL refuses a row: a repeated primary key, or a value too long for its column.\<close>

definition dbapi_error :: "string \<Rightarrow> pyexn" where
  "dbapi_error m = \<lparr>etype = ''DBAPIError'', emro = [Dbapi_Error, Py_Exception, Base_Exception], estr = m, eretry = 0\<rparr>"

definition execute_sql_script :: "(nat list \<Rightarrow> 'd mig_db \<Rightarrow> pyexn + 'd mig_db) \<Rightarrow> nat list \<Rightarrow> 'd mig_db \<Rightarrow> pyexn + 'd mig_db" where
  "execute_sql_script script raw_sql db = (if list_all is_space raw_sql then Inr db else script raw_sql db)"

definition create_schema_migrations :: "'d mig_db \<Rightarrow> 'd mig_db" where
  "create_schema_migrations db = (case md_log db of None \<Rightarrow> db\<lparr>md_log := Some []\<rparr> | Some _ \<Rightarrow> db)"

definition insert_migration :: "string \<Rightarrow> string \<Rightarrow> 'd mig_db \<Rightarrow> pyexn + 'd mig_db" where
  "insert_migration version checksum db =
     (case md_log db of
        None \<Rightarrow> Inl (dbapi_error ''relation schema_migrations does not exist'')
      | Some rows \<Rightarrow>
          if 255 < length version then Inl (dbapi_error ''value too long for type character varying(255)'')
          else if map_of rows version \<noteq> None then Inl (dbapi_error ''duplicate key value violates unique constraint'')
          else Inr (db\<lparr>md_log := Some (rows @ [(version, checksum)])\<rparr>))"

definition modified_error :: "string \<Rightarrow> pyexn" where
  "modified_error version =
     runtime_error (''Applied migration '' @ version @ '' has been modified; create a new migration instead'')"

text \<open>The loop of \<^verbatim>\<open>_apply_migration_files\<close> over the files; \<open>applied\<close> was read before it.\<close>

definition apply_file ::
    "(nat list \<Rightarrow> 'd mig_db \<Rightarrow> pyexn + 'd mig_db) \<Rightarrow> dict \<Rightarrow> migration_file \<Rightarrow> 'd mig_db \<Rightarrow> pyexn + 'd mig_db" where
  "apply_file script applied migration_file db =
     (let version = mf_name migration_file; raw_bytes = mf_bytes migration_file in
      case decode_utf8 raw_bytes of
        None \<Rightarrow> Inl decode_error
      | Some raw_sql \<Rightarrow>
          let checksum = sha256_hexdigest raw_bytes in
          (case map_of applied version of
             Some c \<Rightarrow> if c \<noteq> checksum then Inl (modified_error version) else Inr db
           | None \<Rightarrow>
               (case execute_sql_script script raw_sql db of
                  Inl e \<Rightarrow> Inl e
                | Inr db' \<Rightarrow> insert_migration version checksum db')))"

fun apply_files ::
    "(nat list \<Rightarrow> 'd mig_db \<Rightarrow> pyexn + 'd mig_db) \<Rightarrow> dict \<Rightarrow> migration_file list \<Rightarrow> 'd mig_db \<Rightarrow> pyexn + 'd mig_db" where
  "apply_files script applied [] db = Inr db"
| "apply_files script applied (f # fs) db =
     (case apply_file script applied f db of Inl e \<Rightarrow> Inl e | Inr db' \<Rightarrow> apply_files script applied fs db')"

definition apply_migration_files ::
    "(nat list \<Rightarrow> 'd mig_db \<Rightarrow> pyexn + 'd mig_db) \<Rightarrow> migration_file list \<Rightarrow> 'd mig_db \<Rightarrow> pyexn + 'd mig_db" where
  "apply_migration_files script migration_files db =
     (let db' = create_schema_migrations db in
      apply_files script (case md_log db' of None \<Rightarrow> [] | Some rows \<Rightarrow> rows) migration_files db')"

subsection \<open>Transactions and attempts\<close>

definition in_transaction :: "fault \<Rightarrow> ('d mig_db \<Rightarrow> pyexn + 'd mig_db) \<Rightarrow> 'd mig_db \<Rightarrow> (pyexn + unit) \<times> 'd mig_db" where
  "in_transaction fault body db =
     (case fault of
        Fails_Before e \<Rightarrow> (Inl e, db)
      | No_Fault \<Rightarrow> (case body db of Inl e \<Rightarrow> (Inl e, db) | Inr db' \<Rightarrow> (Inr (), db'))
      | Fails_After e \<Rightarrow> (case body db of Inl e' \<Rightarrow> (Inl e', db) | Inr db' \<Rightarrow> (Inl e, db')))"

text \<open>The two operations: \<^verbatim>\<open>init_db\<close>, the check of the engine, the transaction.\<close>

definition attempt_on_engine :: "fault \<Rightarrow> ('d mig_db \<Rightarrow> pyexn + 'd mig_db) \<Rightarrow> 'd migrator \<Rightarrow> (pyexn + unit) \<times> 'd migrator" where
  "attempt_on_engine fault body s =
     (let s1 = s\<lparr>mi_engine := True\<rparr> in
      if \<not> mi_engine s1 then (Inl (runtime_error ''Engine not initialized''), s1)
      else case in_transaction fault body (mi_db s1) of (r, db) \<Rightarrow> (r, s1\<lparr>mi_db := db\<rparr>))"

definition close_engine :: "pyexn option \<Rightarrow> 'd migrator \<Rightarrow> (pyexn + unit) \<times> 'd migrator" where
  "close_engine dispose s =
     (if \<not> mi_engine s then (Inr (), s)
      else case dispose of Some e \<Rightarrow> (Inl e, s) | None \<Rightarrow> (Inr (), s\<lparr>mi_engine := False\<rparr>))"

definition retry_error :: pyexn where
  "retry_error = timeout_error ''Migration database setup did not succeed within 600 seconds''"

definition sleep_time :: "int \<Rightarrow> int" where
  "sleep_time remaining = min (1000000 * migration_retry_delay_seconds) remaining"

text \<open>The \<^verbatim>\<open>while True\<close> of \<^verbatim>\<open>_run_with_retry\<close>: \<open>None\<close> means that the given number of attempts was
  not enough.\<close>

primrec retry_from ::
    "nat \<Rightarrow> retry_env \<Rightarrow> int \<Rightarrow> (nat \<Rightarrow> 'd migrator \<Rightarrow> (pyexn + unit) \<times> 'd migrator) \<Rightarrow> nat \<Rightarrow> 'd migrator \<Rightarrow>
       ((pyexn + unit) \<times> 'd migrator) option" where
  "retry_from 0 env deadline operation n s = None"
| "retry_from (Suc fuel) env deadline operation n s =
     (case operation n s of
        (Inr _, s1) \<Rightarrow> Some (Inr (), s1)
      | (Inl error, s1) \<Rightarrow>
          if \<not> is_exception error then Some (Inl error, s1)
          else (case close_engine (re_dispose env n) s1 of
            (Inl e, s2) \<Rightarrow> Some (Inl e, s2)
          | (Inr _, s2) \<Rightarrow>
              if \<not> is_retryable_migration_error error then Some (Inl error, s2)
              else let remaining = deadline - re_clock env n in
                if remaining \<le> 0 then Some (Inl retry_error, s2)
                else (case re_cancel env n of
                  Some e \<Rightarrow> Some (Inl e, s2)
                | None \<Rightarrow> retry_from fuel env deadline operation (Suc n) s2)))"

definition run_with_retry ::
    "nat \<Rightarrow> retry_env \<Rightarrow> (nat \<Rightarrow> 'd migrator \<Rightarrow> (pyexn + unit) \<times> 'd migrator) \<Rightarrow> 'd migrator \<Rightarrow>
       ((pyexn + unit) \<times> 'd migrator) option" where
  "run_with_retry fuel env operation s =
     retry_from fuel env (re_start env + 1000000 * max_migration_wait_seconds) operation 0 s"

text \<open>\<^verbatim>\<open>sorted(migrations_dir.glob("*.sql"))\<close> on the directory's entries in any order.\<close>

definition sql_files :: "migration_file list \<Rightarrow> migration_file list" where
  "sql_files dir = sort_key mf_name (filter (\<lambda>f. drop (length (mf_name f) - 4) (mf_name f) = ''.sql'') dir)"

definition run_migrations ::
    "nat \<Rightarrow> retry_env \<Rightarrow> (nat list \<Rightarrow> 'd mig_db \<Rightarrow> pyexn + 'd mig_db) \<Rightarrow> migration_file list \<Rightarrow> 'd migrator \<Rightarrow>
       ((pyexn + unit) \<times> 'd migrator) option" where
  "run_migrations fuel env script dir s =
     run_with_retry fuel env (\<lambda>n. attempt_on_engine (re_fault env n) (apply_migration_files script (sql_files dir))) s"

definition create_tables_from_models ::
    "nat \<Rightarrow> retry_env \<Rightarrow> ('d mig_db \<Rightarrow> pyexn + 'd mig_db) \<Rightarrow> 'd migrator \<Rightarrow> ((pyexn + unit) \<times> 'd migrator) option" where
  "create_tables_from_models fuel env create_all s =
     run_with_retry fuel env (\<lambda>n. attempt_on_engine (re_fault env n) create_all) s"

end
