(* ===== verification/Migrations_Theorems.thy ===== *)
theory Migrations_Theorems
  imports Migrations
begin

section \<open>What the migration runner promises\<close>

text \<open>
  That migrations compose: a database brought up to date release by release is the one that the last release alone
  makes; that a run which is retried through failures, also of a commit that did take effect, applies
  every file once or changes nothing; and that the retries end.
\<close>

subsection \<open>One file after the other\<close>

text \<open>Scripts do not touch \<^verbatim>\<open>schema_migrations\<close>.\<close>

definition leaves_log :: "(nat list \<Rightarrow> 'd mig_db \<Rightarrow> pyexn + 'd mig_db) \<Rightarrow> bool" where
  "leaves_log script = (\<forall>raw db db'. script raw db = Inr db' \<longrightarrow> md_log db' = md_log db)"

text \<open>A file that the table \<open>rows\<close> shows as applied and unmodified.\<close>

definition up_to_date :: "dict \<Rightarrow> migration_file \<Rightarrow> bool" where
  "up_to_date rows f =
     (decode_utf8 (mf_bytes f) \<noteq> None \<and> map_of rows (mf_name f) = Some (sha256_hexdigest (mf_bytes f)))"

lemma apply_files_append:
  "apply_files script applied (fs @ gs) db =
     (case apply_files script applied fs db of Inl e \<Rightarrow> Inl e | Inr db' \<Rightarrow> apply_files script applied gs db')"
  by (induction fs arbitrary: db) (auto split: sum.splits)

lemma apply_files_cong:
  "(\<And>f. f \<in> set fs \<Longrightarrow> map_of applied (mf_name f) = map_of applied' (mf_name f)) \<Longrightarrow>
     apply_files script applied fs db = apply_files script applied' fs db"
proof (induction fs arbitrary: db)
  case (Cons f fs)
  from Cons.prems [of f] have "apply_file script applied f db = apply_file script applied' f db"
    by (simp add: apply_file_def Let_def split: option.split)
  with Cons show ?case by (simp split: sum.split)
qed simp

lemma apply_up_to_date: "list_all (up_to_date applied) fs \<Longrightarrow> apply_files script applied fs db = Inr db"
  by (induction fs) (auto simp: up_to_date_def apply_file_def Let_def)

text \<open>What one file adds to the table.\<close>

lemma apply_file_log:
  assumes "leaves_log script" and "apply_file script applied f db = Inr db'" and "md_log db = Some rows"
  shows "\<exists>new. md_log db' = Some (rows @ new) \<and> set (map fst new) \<subseteq> {mf_name f} \<and>
     (map_of applied (mf_name f) = map_of rows (mf_name f) \<longrightarrow> up_to_date (rows @ new) f)"
proof -
  have "md_log db1 = Some rows" if "execute_sql_script script raw db = Inr db1" for raw db1
    using that assms(1,3) by (auto simp: execute_sql_script_def leaves_log_def split: if_splits)
  then show ?thesis
    using assms(2,3)
    by (auto 4 4 simp: apply_file_def insert_migration_def up_to_date_def Let_def map_add_def split: option.splits if_splits sum.splits)
qed

lemma apply_files_log:
  assumes "leaves_log script" and "apply_files script applied fs db = Inr db'" and "md_log db = Some rows"
    and "distinct (map mf_name fs)" and "\<And>f. f \<in> set fs \<Longrightarrow> map_of applied (mf_name f) = map_of rows (mf_name f)"
  shows "\<exists>new. md_log db' = Some (rows @ new) \<and> set (map fst new) \<subseteq> mf_name ` set fs \<and> list_all (up_to_date (rows @ new)) fs"
  using assms(2-)
proof (induction fs arbitrary: db rows)
  case (Cons f fs)
  from Cons.prems(1) obtain db1 where 1: "apply_file script applied f db = Inr db1" "apply_files script applied fs db1 = Inr db'"
    by (auto split: sum.splits)
  from apply_file_log [OF assms(1) 1(1) Cons.prems(2)] Cons.prems(4) obtain n1 where
    n1: "md_log db1 = Some (rows @ n1)" "set (map fst n1) \<subseteq> {mf_name f}" "up_to_date (rows @ n1) f" by auto
  have "map_of applied (mf_name g) = map_of (rows @ n1) (mf_name g)" if "g \<in> set fs" for g
  proof -
    from that Cons.prems(3) have "mf_name g \<noteq> mf_name f" by (metis distinct.simps(2) image_eqI image_set list.simps(9))
    with n1(2) have "map_of n1 (mf_name g) = None" by (auto simp: map_of_eq_None_iff)
    with that Cons.prems(4) show ?thesis by (simp add: map_add_def split: option.split)
  qed
  from Cons.IH [OF 1(2) n1(1) _ this] Cons.prems(3) obtain n2 where
    n2: "md_log db' = Some ((rows @ n1) @ n2)" "set (map fst n2) \<subseteq> mf_name ` set fs" "list_all (up_to_date ((rows @ n1) @ n2)) fs"
    by auto
  have "up_to_date ((rows @ n1) @ n2) f"
    using n1(3) by (auto simp: up_to_date_def map_add_def split: option.splits)
  with n1(2) n2 show ?case by (intro exI [of _ "n1 @ n2"]) auto
qed simp

lemma create_log: "\<exists>rows. md_log (create_schema_migrations db) = Some rows"
  by (auto simp: create_schema_migrations_def split: option.splits)

lemma create_again: "md_log db = Some rows \<Longrightarrow> create_schema_migrations db = db"
  by (simp add: create_schema_migrations_def)

lemma apply_migrations_log:
  assumes "leaves_log script" and "distinct (map mf_name fs)" and "apply_migration_files script fs db = Inr db'"
    and "md_log (create_schema_migrations db) = Some rows"
  shows "\<exists>new. md_log db' = Some (rows @ new) \<and> set (map fst new) \<subseteq> mf_name ` set fs \<and> list_all (up_to_date (rows @ new)) fs"
proof -
  from assms(3,4) have "apply_files script rows fs (create_schema_migrations db) = Inr db'"
    by (simp add: apply_migration_files_def Let_def)
  from apply_files_log [OF assms(1) this assms(4,2)] show ?thesis by blast
qed

lemma apply_migrations_recorded:
  assumes "leaves_log script" and "distinct (map mf_name fs)" and "apply_migration_files script fs db = Inr db'"
  shows "\<exists>rows. md_log db' = Some rows \<and> list_all (up_to_date rows) fs"
  using apply_migrations_log [OF assms] create_log [of db] by blast

lemma apply_migrations_again:
  assumes "leaves_log script" and "distinct (map mf_name fs)" and "apply_migration_files script fs db = Inr db'"
  shows "apply_migration_files script fs db' = Inr db'"
  using apply_migrations_recorded [OF assms] by (auto simp: apply_migration_files_def create_again apply_up_to_date)

subsection \<open>The properties\<close>

lemma migrations_append:
  assumes "leaves_log script" and "distinct (map mf_name (fs @ gs))"
  shows "apply_migration_files script (fs @ gs) db =
     (case apply_migration_files script fs db of Inl e \<Rightarrow> Inl e | Inr db' \<Rightarrow> apply_migration_files script gs db')"
proof -
  obtain rows where rows: "md_log (create_schema_migrations db) = Some rows" using create_log by blast
  show ?thesis
  proof (cases "apply_migration_files script fs db")
    case (Inl e)
    with rows show ?thesis by (simp add: apply_migration_files_def apply_files_append)
  next
    case (Inr db')
    from assms(2) have d: "distinct (map mf_name fs)" by simp
    from apply_migrations_log [OF assms(1) d Inr rows] obtain new where
      n: "md_log db' = Some (rows @ new)" "set (map fst new) \<subseteq> mf_name ` set fs" by blast
    have "map_of rows (mf_name g) = map_of (rows @ new) (mf_name g)" if "g \<in> set gs" for g
    proof -
      from that assms(2) have "mf_name g \<notin> mf_name ` set fs" by auto
      with n(2) have "map_of new (mf_name g) = None" by (auto simp: map_of_eq_None_iff)
      then show ?thesis by (simp add: map_add_def split: option.split)
    qed
    from apply_files_cong [OF this] Inr rows n(1) show ?thesis
      by (simp add: apply_migration_files_def apply_files_append create_again)
  qed
qed

text \<open>C26: a release brings the files that were there before and new ones behind them. Running one release after
  another gives the same database, or the same error, as running the last release alone: the files that an earlier
  run has applied are found in its table and neither run nor recorded again.\<close>

theorem migrations_compose:
  assumes "leaves_log script" and "distinct (map mf_name (fs @ gs))"
  shows "apply_migration_files script (fs @ gs) db =
     (case apply_migration_files script fs db of Inl e \<Rightarrow> Inl e | Inr db' \<Rightarrow> apply_migration_files script (fs @ gs) db')"
proof (cases "apply_migration_files script fs db")
  case (Inl e)
  then show ?thesis by (simp add: migrations_append [OF assms])
next
  case (Inr db')
  have "distinct (map mf_name fs)" using assms(2) by simp
  from apply_migrations_again [OF assms(1) this Inr] Inr show ?thesis
    by (simp add: migrations_append [OF assms])
qed

definition first_file :: migration_file where
  "first_file = \<lparr>mf_name = ''001.sql'', mf_bytes = ''A''\<rparr>"

definition second_file :: migration_file where
  "second_file = \<lparr>mf_name = ''002.sql'', mf_bytes = ''B''\<rparr>"

text \<open>A PostgreSQL that notes the scripts it ran.\<close>

definition note_script :: "nat list \<Rightarrow> nat list list mig_db \<Rightarrow> pyexn + nat list list mig_db" where
  "note_script raw db = Inr (db\<lparr>md_data := md_data db @ [raw]\<rparr>)"

definition blank_db :: "nat list list mig_db" where
  "blank_db = \<lparr>md_log = None, md_data = []\<rparr>"

lemma note_leaves_log [simp]: "leaves_log note_script"
  by (simp add: leaves_log_def note_script_def)

lemmas migration_runs = apply_migration_files_def apply_file_def create_schema_migrations_def insert_migration_def
  execute_sql_script_def decode_utf8_def first_file_def second_file_def blank_db_def note_script_def is_space_def

theorem migrations_compose_witness:
  "case apply_migration_files note_script [first_file] blank_db of
     Inl e \<Rightarrow> False
   | Inr db' \<Rightarrow> (case apply_migration_files note_script [first_file, second_file] db' of
       Inl e \<Rightarrow> False | Inr db'' \<Rightarrow> md_data db'' = [[65], [66]])"
proof -
  have "\<exists>db'. apply_migration_files note_script [first_file] blank_db = Inr db'"
    by (simp add: migration_runs)
  then obtain db' where 1: "apply_migration_files note_script [first_file] blank_db = Inr db'" by blast
  have "\<exists>db''. apply_migration_files note_script [first_file, second_file] blank_db = Inr db'' \<and> md_data db'' = [[65], [66]]"
    by (simp add: migration_runs)
  with migrations_compose [OF note_leaves_log, of "[first_file]" "[second_file]" blank_db] 1 show ?thesis
    by (auto simp: first_file_def second_file_def split: sum.splits)
qed

text \<open>A database at any moment of the attempts: as it was, or with all files applied, once.\<close>

definition settled :: "(nat list \<Rightarrow> 'd mig_db \<Rightarrow> pyexn + 'd mig_db) \<Rightarrow> migration_file list \<Rightarrow> 'd mig_db \<Rightarrow> pyexn + unit \<Rightarrow> 'd mig_db \<Rightarrow> bool" where
  "settled script files db r db' =
     (apply_migration_files script files db = Inr db' \<and>
        (\<exists>rows. md_log db' = Some rows \<and> list_all (up_to_date rows) files) \<or> isl r \<and> db' = db)"

lemma settled_applied:
  assumes "leaves_log script" and "distinct (map mf_name files)" and "apply_migration_files script files db = Inr db'"
  shows "settled script files db r db'"
  using apply_migrations_recorded [OF assms] assms(3) by (simp add: settled_def)

lemma settled_step:
  assumes "leaves_log script" and "distinct (map mf_name files)" and "settled script files db (Inl e0) (mi_db s)"
    and "attempt_on_engine fault (apply_migration_files script files) s = (r, s1)"
  shows "settled script files db r (mi_db s1)"
proof -
  have same: "settled script files db (Inl e) (mi_db s)" for e
    using assms(3) by (auto simp: settled_def)
  have done_: "settled script files db r' m" if "apply_migration_files script files (mi_db s) = Inr m" for r' m
  proof -
    from assms(3) consider "apply_migration_files script files db = Inr (mi_db s)" | "mi_db s = db"
      by (auto simp: settled_def)
    then have "apply_migration_files script files db = Inr m"
      using that apply_migrations_again [OF assms(1,2)] by cases auto
    then show ?thesis by (rule settled_applied [OF assms(1,2)])
  qed
  from assms(4) show ?thesis
    by (cases fault) (auto simp: attempt_on_engine_def in_transaction_def intro: same done_ split: sum.splits prod.splits)
qed

lemma close_engine_db: "close_engine d s = (r, s') \<Longrightarrow> mi_db s' = mi_db s"
  by (auto simp: close_engine_def split: if_splits option.splits)

lemma settled_retry:
  assumes "leaves_log script" and "distinct (map mf_name files)" and "settled script files db (Inl e0) (mi_db s)"
    and "retry_from fuel env deadline (\<lambda>n. attempt_on_engine (re_fault env n) (apply_migration_files script files)) n s = Some (r, s')"
  shows "settled script files db r (mi_db s')"
  using assms(3,4)
proof (induction fuel arbitrary: n s e0)
  case (Suc fuel)
  obtain x s1 where a: "attempt_on_engine (re_fault env n) (apply_migration_files script files) s = (x, s1)" by fastforce
  from settled_step [OF assms(1,2) Suc.prems(1) a] have x: "settled script files db x (mi_db s1)" .
  show ?case
  proof (cases x)
    case (Inr u)
    with Suc.prems(2) a x show ?thesis by auto
  next
    case (Inl e)
    obtain c s2 where b: "close_engine (re_dispose env n) s1 = (c, s2)" by fastforce
    from close_engine_db [OF b] x Inl have s2: "settled script files db (Inl e') (mi_db s2)" for e'
      by (auto simp: settled_def)
    have s1: "settled script files db (Inl e') (mi_db s1)" for e'
      using x Inl by (auto simp: settled_def)
    from Suc.prems(2) a b Inl s1 s2 Suc.IH [OF s2] show ?thesis
      by (auto simp: Let_def split: if_splits sum.splits option.splits)
  qed
qed simp

lemma distinct_sorted: "distinct (map mf_name files) \<Longrightarrow> distinct (map mf_name (sql_files files))"
  by (auto simp: sql_files_def distinct_map intro: inj_on_subset)

text \<open>C27: however often a run is retried, and whatever failures hit it, also a commit that took effect but
  whose answer was lost: in the end the database is as it was, or all files have been applied to it, each
  once and in order, and the table shows them. A run that returns has applied them.\<close>

theorem run_migrations_all_or_nothing:
  assumes "leaves_log script" and "distinct (map mf_name dir)" and "run_migrations fuel env script dir s = Some (r, s')"
  shows "settled script (sql_files dir) (mi_db s) r (mi_db s')"
  using settled_retry [OF assms(1) distinct_sorted [OF assms(2)] _ assms(3) [unfolded run_migrations_def run_with_retry_def]]
  by (auto simp: settled_def)

text \<open>A connection that loses the answer to the first commit; the clock shows a second more at every
  reading.\<close>

definition lost_error :: pyexn where
  "lost_error = \<lparr>etype = ''OSError'', emro = [Os_Error, Py_Exception, Base_Exception], estr = ''lost'', eretry = 0\<rparr>"

definition shaky :: retry_env where
  "shaky = \<lparr>re_start = 0, re_clock = (\<lambda>n. 11000000 * int n), re_fault = (\<lambda>n. if n = 0 then Fails_After lost_error else No_Fault),
     re_dispose = (\<lambda>_. None), re_cancel = (\<lambda>_. None)\<rparr>"

definition fresh_migrator :: "nat list list migrator" where
  "fresh_migrator = \<lparr>mi_db = blank_db, mi_engine = False\<rparr>"

lemma sql_one: "sql_files [f] = (if drop (length (mf_name f) - 4) (mf_name f) = ''.sql'' then [f] else [])"
  by (simp add: sql_files_def)

theorem run_migrations_all_or_nothing_witness:
  "\<exists>s'. run_migrations 2 shaky note_script [first_file] fresh_migrator = Some (Inr (), s') \<and>
     apply_migration_files note_script [first_file] blank_db = Inr (mi_db s')" (is "\<exists>s'. ?run = _ \<and> _")
proof -
  have "\<exists>s'. ?run = Some (Inr (), s')"
    by (simp add: run_migrations_def run_with_retry_def numeral_2_eq_2 sql_one attempt_on_engine_def in_transaction_def
        close_engine_def is_retryable_migration_error_def lost_error_def shaky_def fresh_migrator_def migration_runs
        max_migration_wait_seconds_def Let_def)
  then obtain s' where e: "?run = Some (Inr (), s')" by blast
  have "settled note_script [first_file] blank_db (Inr ()) (mi_db s')"
    using run_migrations_all_or_nothing [OF note_leaves_log _ e] by (simp add: sql_one fresh_migrator_def first_file_def)
  with e show ?thesis by (auto simp: settled_def)
qed

text \<open>C28: if the table shows a file with another checksum than its contents have now, no run over it succeeds,
  and the database stays as it was, whatever other files are pending.\<close>

theorem modified_migration_refused:
  assumes "leaves_log script" and "distinct (map mf_name dir)" and "f \<in> set (sql_files dir)"
    and "md_log (mi_db s) = Some rows" and "map_of rows (mf_name f) = Some c" and "c \<noteq> sha256_hexdigest (mf_bytes f)"
    and "run_migrations fuel env script dir s = Some (r, s')"
  shows "isl r \<and> mi_db s' = mi_db s"
proof -
  have "apply_migration_files script (sql_files dir) (mi_db s) \<noteq> Inr db'" for db'
  proof
    assume "apply_migration_files script (sql_files dir) (mi_db s) = Inr db'"
    from apply_migrations_log [OF assms(1) distinct_sorted [OF assms(2)] this] create_again [OF assms(4)] assms(4)
    obtain new where "list_all (up_to_date (rows @ new)) (sql_files dir)" by fastforce
    with assms(3,5,6) show False
      by (auto simp: list_all_iff up_to_date_def map_add_def split: option.splits)
  qed
  moreover have "settled script (sql_files dir) (mi_db s) r (mi_db s')"
    using settled_retry [OF assms(1) distinct_sorted [OF assms(2)] _ assms(7) [unfolded run_migrations_def run_with_retry_def]]
    by (auto simp: settled_def)
  ultimately show ?thesis by (simp add: settled_def)
qed

definition changed_migrator :: "nat list list migrator" where
  "changed_migrator = \<lparr>mi_db = \<lparr>md_log = Some [(''001.sql'', ''x'')], md_data = []\<rparr>, mi_engine = False\<rparr>"

theorem modified_migration_refused_witness:
  "\<exists>r s'. run_migrations 61 shaky note_script [first_file] changed_migrator = Some (r, s') \<and> isl r \<and> mi_db s' = mi_db changed_migrator"
    (is "\<exists>r s'. ?run = _ \<and> _")
proof -
  have differs: "''x'' \<noteq> sha256_hexdigest ''A''"
  proof
    assume "''x'' = sha256_hexdigest ''A''"
    from arg_cong [OF this, of length] show False by (simp add: length_sha256)
  qed
  then have "\<exists>r s'. ?run = Some (r, s')"
    by (simp add: run_migrations_def run_with_retry_def numeral_eq_Suc sql_one attempt_on_engine_def in_transaction_def
        close_engine_def is_retryable_migration_error_def modified_error_def runtime_error_def shaky_def changed_migrator_def
        migration_runs retryable_messages_def lower_char_def Let_def)
  then obtain r s' where e: "?run = Some (r, s')" by blast
  have "isl r \<and> mi_db s' = mi_db changed_migrator"
    using modified_migration_refused [OF note_leaves_log _ _ _ _ _ e, of first_file "[(''001.sql'', ''x'')]" "''x''"] differs
    by (simp add: changed_migrator_def sql_one first_file_def)
  with e show ?thesis by blast
qed

text \<open>The clock does not run backwards, and the sleep takes as long as it was asked to.\<close>

definition honest_clock :: "retry_env \<Rightarrow> bool" where
  "honest_clock env =
     (re_start env \<le> re_clock env 0 \<and>
      (\<forall>n. re_clock env n + sleep_time (re_start env + 600000000 - re_clock env n) \<le> re_clock env (Suc n)))"

lemma honest_progress: "honest_clock env \<Longrightarrow> min (re_start env + 10000000 * int n) (re_start env + 600000000) \<le> re_clock env n"
proof (induction n)
  case (Suc n)
  then have "re_clock env n + sleep_time (re_start env + 600000000 - re_clock env n) \<le> re_clock env (Suc n)"
    by (simp add: honest_clock_def)
  with Suc show ?case
    by (auto simp: sleep_time_def migration_retry_delay_seconds_def min_def split: if_splits)
qed (simp add: honest_clock_def)

lemma retry_ends:
  assumes "honest_clock env" and "fuel + n = 61" and "n \<le> 60"
  shows "retry_from fuel env (re_start env + 600000000) operation n s \<noteq> None"
  using assms(2,3)
proof (induction fuel arbitrary: n s)
  case (Suc fuel)
  show ?case
  proof (cases "n = 60")
    case True
    with honest_progress [OF assms(1), of 60] have "re_start env + 600000000 - re_clock env n \<le> 0" by simp
    then show ?thesis by (simp split: prod.split sum.split)
  next
    case False
    with Suc.prems Suc.IH [of "Suc n"] show ?thesis by (auto simp: Let_def split: prod.splits sum.splits option.splits)
  qed
qed simp

lemma retry_more: "retry_from fuel env d operation n s = Some r \<Longrightarrow> retry_from (fuel + k) env d operation n s = Some r"
  by (induction fuel arbitrary: n s) (auto simp: Let_def split: prod.splits sum.splits option.splits if_splits)

text \<open>C29: the retries end: whatever the operation does and whatever errors it raises, after at most 61 attempts
  \<^verbatim>\<open>_run_with_retry\<close> has returned or raised, if the clock does not run backwards and a sleep is not cut short.\<close>

theorem migration_retries_end:
  assumes "honest_clock env"
  shows "\<exists>r. \<forall>fuel \<ge> 61. run_with_retry fuel env operation s = Some r"
proof -
  have "retry_from 61 env (re_start env + 600000000) operation 0 s \<noteq> None"
    by (rule retry_ends [OF assms]) simp_all
  then obtain r where r: "retry_from 61 env (re_start env + 600000000) operation 0 s = Some r" by blast
  have "run_with_retry fuel env operation s = Some r" if "61 \<le> fuel" for fuel
    using retry_more [OF r, of "fuel - 61"] that by (simp add: run_with_retry_def max_migration_wait_seconds_def)
  then show ?thesis by blast
qed

theorem migration_retries_end_witness:
  "\<exists>r. \<forall>fuel \<ge> 61. run_with_retry fuel shaky (\<lambda>n s. (Inl lost_error, s)) fresh_migrator = Some r"
  by (rule migration_retries_end) (auto simp: honest_clock_def shaky_def sleep_time_def migration_retry_delay_seconds_def)

end
