(* ===== verification/Spec2Isabelle.thy ===== *)
theory Spec2Isabelle
  imports Registry_Theorems Recovery_Theorems Task_Theorems Worker_Theorems Manager_Theorems
    App_Theorems Requests_Theorems System_Identities Serializer Migrations_Theorems
begin

text \<open>
  A model of the service apps/reddit-kafka, which streams the comments of subreddits into Kafka from any
  number of instances, with theorems about it. Redis coordinates the instances, PostgreSQL keeps
  durable copies. Paths below are relative to src/apps/reddit-kafka/src.

  \<^bold>\<open>How code becomes a definition.\<close> A coroutine is a program (theory Effects): a tree that returns,
  raises, awaits a call to a service and goes on with its answer or exception, or reads and
  writes the attributes of its object. Between two calls it runs without interruption. The services themselves (Redis,
  PostgreSQL, Reddit, Kafka, the serializer, the clock, \<^verbatim>\<open>uuid4\<close>, the event loop) are a parameter
  \<open>S\<close>, of which only \<open>documented_services S V\<close> is assumed (theory Services): every answer is one
  that the service's documentation allows, and any call to a store may fail with or without having taken effect.
  \<open>ref_services\<close> is an instance that can be executed, on which the witnesses run. Redis' commands and the
  statements the code sends to PostgreSQL have their documented meaning in theories
  Redis\_Store and Postgres\_Store; the Lua scripts of the source are translated in
  Lua\_Scripts and proved to have closed forms.

  \<^bold>\<open>Running.\<close> \<open>run\<close> executes one program alone, \<open>pool_run\<close> (Interleaving) any number of programs in
  any order of their calls. \<open>wp\<close> gives what a program establishes alone; \<open>issues\<close>, \<open>raises\<close> and \<open>keeps\<close>
  what holds of it whatever runs beside it; \<open>rg\<close> (Rely) what it guarantees among the other
  tasks of its object.

  \<^bold>\<open>Parts.\<close>
  \<^item> Keys, Key\_Space, Frames, Redis\_Calls: the names of the keys, which type of value each holds (\<open>sound\<close>),
    and which keys a program may write.
  \<^item> Registry (repositories/stream\_registry.py): every method. Registry\_Inv: identifiers, claims and
    metadata stay consistent. Registry\_Spec: the contract of each method. Registry\_Race: creation is an election (Election).
  \<^item> Lock, Lock\_Race (stream/lock.py): the lease on a subreddit; the locale \<open>lease\<close> is its interface.
  \<^item> Error\_Handler, Circuit\_Breaker, Py\_Exn, Json\_Text (stream/error\_handler.py, circuit\_breaker.py, exceptions.py).
  \<^item> Comment\_Message, Iso\_Time (models/reddit\_comment.py): validation, and timestamps in ISO 8601.
  \<^item> Worker (stream/worker.py); Worker\_Acks: deliveries and checkpoints; Worker\_Lease: its lease.
  \<^item> Manager (stream/manager.py); Manager\_Spec: starting and adopting; Manager\_Run: how a stream's task ends.
  \<^item> Cleanup, Flusher (tasks/), Checkpoints: the background tasks and the way of a checkpoint to PostgreSQL.
  \<^item> Config (config.py): the settings and how they are read; Config\_Theorems: from which environments.
  \<^item> App (app.py, db.py, redis\_client.py): the clients, the endpoints, readiness, startup and shutdown; Parts: how
    the program of one object becomes one of a process. Serializer (serializers/avro\_serializer.py).
  \<^item> Telemetry (observability/telemetry.py): the request middleware, setting up and tearing down, and the life of a
    process around that of its application.
  \<^item> Requests: an HTTP request from the router to its answer; the documentation pages and the redirection of trailing
    slashes that FastAPI adds are among its answers. Metrics (observability/metrics.py): what is declared and what
    the page shows; Metrics\_Theorems: what programs record.
  \<^item> System: all processes at once, each with its HTTP requests, managers, workers and tasks. Identities and
    System\_Identities: no interleaving of them changes the identity that a subreddit was given. One lemma about pools
    (the locale \<open>discipline\<close> of Interleaving), interpreted for the calls that programs make, the metrics they record and
    the identities they heed, carries a property of single steps to every schedule.
  \<^item> Migrations (migrations.py), a process of its own; Bytes\_Text: UTF-8 and SHA-256 as it uses them.
  The properties are the theorems marked C1, C2, ... in the theories ending in \_Theorems, in Lock\_Race, Serializer
  and in this one, each with a witness that applies it at a concrete run.

  \<^bold>\<open>Bounds.\<close> A loop that may run for ever counts rounds down and raises \<open>out_of_rounds\<close>, which no handler
  catches, for "still running"; the properties hold for every number of rounds. The wait for a batch of
  deliveries is given as many rounds as it can need, and \<open>delivery_wait_ends\<close> shows that they are enough.
  The migration runner gets a number of attempts as fuel; \<open>migration_retries_end\<close> shows that 61 are enough and
  that more change nothing.
  Integers of the source are unbounded, as Python's; durations are in milliseconds or microseconds. Characters are
  those of \<^verbatim>\<open>char\<close>, code points below 256.

  \<^bold>\<open>Not modelled.\<close> Logging but for the payload of a line, and tracing spans but for that of a request; the \<^verbatim>\<open>NOW()\<close> columns, which nothing reads;
  stream configurations that are not flat objects of strings. A session of one statement is one
  transaction.
  FastAPI's routing and validation, the text of the page of metrics, and the bodies of answers to requests.
  Each of AWS Glue, the Avro packages, what pydantic makes of a setting's text, the scripts of migrations
  and FastAPI's handling of a request is a parameter of the definitions that use it.
  The task that \<^verbatim>\<open>stop_stream\<close> awaits is a program of its own where programs interleave; for the call alone,
  \<open>ending_task\<close> is what that task does once it is cancelled at its wait.
\<close>

section \<open>The whole system\<close>

text \<open>
  The properties of all processes together (theory System): any number of activities, each an
  endpoint, a background task, a manager's task, a worker, a startup or a shutdown of any
  process, in any interleaving of their calls, where any call may fail.
\<close>

abbreviation activities :: "(nat \<times> app_env \<times> activity) list \<Rightarrow> (system, unit) prog list" where
  "activities \<equiv> map (\<lambda>(k, env, a). activity_of k env a)"

definition idle_system :: system where
  "idle_system = \<lparr>sy_app = (\<lambda>_. serving_app), sy_worker = (\<lambda>_ _. new_worker),
     sy_request = (\<lambda>_ _. \<lparr>cx_request_id = [], cx_route = None, cx_span = None\<rparr>)\<rparr>"

definition post_python :: activity where
  "post_python = Http_Request 0 \<lparr>fw_match = (\<lambda>_. (Some ''/streams'', Create_Stream ''python'')), fw_headers = (\<lambda>_. [])\<rparr>
     \<lparr>rq_method = ''POST'', rq_path = ''/streams'', rq_headers = []\<rparr>"

text \<open>C1: the processes leave each other's leases alone: whatever activities run, in whatever
  interleaving, a lock's holder keeps it, with the end of its lease unchanged, at
  every moment before that end, unless an activity was given the holder's own token.\<close>

theorem system_respects_leases:
  assumes "documented_services S V" and "sound (rdb (V w))"
    and "holder (rdb (V w)) sub = Some tok" and "lease_end (rdb (V w)) sub = Some d"
    and "list_all (\<lambda>(k, env, a). other_token sub tok env a) acts"
    and "pool_run S sch (activities acts, l, w) = (ps', l', w')" and "rclock (rdb (V w')) < d"
  shows "holder (rdb (V w')) sub = Some tok \<and> lease_end (rdb (V w')) sub = Some d"
proof -
  have "\<forall>p \<in> set (activities acts). issues (foreign_call sub tok) p"
    using assms(5) by (auto simp: list_all_iff intro!: foreign_activity)
  from documented_services.pool_issues [OF assms(1) this stable_leased _ assms(6), of d] assms(2-4,7)
  show ?thesis by (simp add: leased_def)
qed

definition other_acts :: "(nat \<times> app_env \<times> activity) list" where
  "other_acts = [(0, aenv1, post_python), (0, aenv1, Reconciler 2 1000), (1, aenv1, Start_Up),
     (1, aenv1, Worker_Task 0 ''python'' (Some ''n:y'')), (1, aenv1, Stream_Task ''s1''), (2, aenv1, Shut_Down), (2, aenv1, Cleanup_Task 1 1000)]"

theorem system_respects_leases_witness:
  "case pool_run ref_services [0, 1, 1, 0, 2, 0, 1, 3, 2, 2, 3, 5, 5, 4, 6, 3, 0] (activities other_acts, idle_system, leased_world) of
     (_, _, w') \<Rightarrow> holder (rdb (rview w')) ''python'' = Some ''w1:x''" (is "case ?run of (_, _, w') \<Rightarrow> _")
proof -
  obtain ps' l' w' where e: "?run = (ps', l', w')" by (rule prod_cases3)
  have w: "sound (rdb (rview leased_world))" "holder (rdb (rview leased_world)) ''python'' = Some ''w1:x''"
    "lease_end (rdb (rview leased_world)) ''python'' = Some 60000" "horizon leased_world = 0"
    by (simp_all add: leased_world_def grant_lease_def holder_def lease_end_def horizon_def ref_run sound_put_lease)
  have acts: "list_all (\<lambda>(k, env, a). other_token ''python'' ''w1:x'' env a) other_acts"
    by (simp add: other_acts_def post_python_def others_instance_def)
  from pool_clock [OF e] w(4) have "rclock (rdb (rview w')) < 60000" by simp
  from system_respects_leases [OF ref.documented_services_axioms w(1-3) acts e this] show ?thesis
    unfolding e by simp
qed

text \<open>C3: every key of Redis that the service uses always holds a value of the type its name stands for, and only
  locks and error lists ever have a deadline, locks always: whatever activities run in whatever
  interleaving, none sends a command that could change this.\<close>

theorem system_keeps_types:
  assumes "documented_services S V" and "sound (rdb (V w))"
    and "pool_run S sch (activities acts, l, w) = (ps', l', w')"
  shows "sound (rdb (V w'))"
proof -
  have "\<forall>p \<in> set (activities acts). issues service_call p"
    by (auto intro: service_activity)
  from documented_services.pool_issues [OF assms(1) this stable_sound assms(2,3)] show ?thesis by blast
qed

theorem system_keeps_types_witness:
  "case pool_run ref_services [0, 1, 2, 3, 3, 3, 3, 4, 5, 6, 0] (activities other_acts, idle_system, leased_world) of
     (_, _, w') \<Rightarrow> sound (rdb (rview w'))" (is "case ?run of (_, _, w') \<Rightarrow> _")
proof -
  obtain ps' l' w' where e: "?run = (ps', l', w')" by (rule prod_cases3)
  have "sound (rdb (rview leased_world))"
    by (simp add: leased_world_def grant_lease_def ref_run sound_put_lease)
  from system_keeps_types [OF ref.documented_services_axioms this e] show ?thesis
    unfolding e by simp
qed

text \<open>C5: Recording a metric never raises and the page of metrics stays small: whatever activities run in whatever interleaving, every
  metric recorded is one that \<^verbatim>\<open>ApplicationMetrics\<close> declares, by an operation of its kind and with its labels, and
  each child the page shows, those of \<^verbatim>\<open>errors\<close> and of the requests apart, is one of a fixed list of 101.\<close>

theorem system_records_declared:
  assumes "documented_services S V" and "metrics (V w) = []"
    and "pool_run S sch (activities acts, l, w) = (ps', l', w')"
  shows "list_all declared (metrics (V w')) \<and>
     set (children (metrics (V w'))) \<subseteq>
       set bounded_children \<union> {(n, ls). n = ''errors'' \<or> n \<in> set (map fa_attribute http_families)} \<and>
     length bounded_children = 101"
proof -
  have "list_all (emits activity_metric) (activities acts)"
    by (auto simp: list_all_iff intro: emits_activity)
  from pool_emits [OF assms(1) this _ assms(3)] assms(2)
  have m: "list_all activity_metric (metrics (V w'))" by simp
  then have "list_all declared (metrics (V w'))"
    by (auto simp: list_all_iff activity_metric_def recordable_def http_recordable_def)
  with children_recordable [OF m] show ?thesis using bounded_children_length by simp
qed

theorem system_records_declared_witness:
  "case pool_run ref_services [0, 1, 2, 3, 3, 3, 3, 4, 5, 6, 0] (activities other_acts, idle_system, ref_start empty_view []) of
     (_, _, w') \<Rightarrow> list_all declared (metrics (rview w'))" (is "case ?run of (_, _, w') \<Rightarrow> _")
proof -
  obtain ps' l' w' where e: "?run = (ps', l', w')" by (rule prod_cases3)
  have "metrics (rview (ref_start empty_view [])) = []" by (simp add: ref_run)
  from system_records_declared [OF ref.documented_services_axioms this e] show ?thesis
    unfolding e by simp
qed

text \<open>C4: an identity is for ever: whatever activities run in whatever interleaving, with whatever calls failing, every subreddit that had a
  stream identity keeps it, and every claim of a subreddit and every stream's metadata name the identity that
  their subreddit has.\<close>

theorem system_keeps_identities:
  assumes "documented_services S V" and "agreed (V w)"
    and "pool_run S sch (activities acts, l, w) = (ps', l', w')"
  shows "agreed (V w') \<and> (\<forall>sub i. ident (rdb (V w)) sub = Some i \<longrightarrow> ident (rdb (V w')) sub = Some i)"
proof -
  have "\<forall>p \<in> set (activities acts). heeds p"
    by (auto intro: heeds_activity)
  from pool_identities [OF assms(1) this assms(2,3)] show ?thesis
    by (auto simp: map_le_def dom_def)
qed

definition named_world :: ref_world where
  "named_world = ref_start (with_rdb (put_key (identity_key ''python'') (VStr ''s1'')) empty_view) []"

theorem system_keeps_identities_witness:
  "case pool_run ref_services [0, 1, 0, 0, 2, 3, 3, 0, 0, 4, 5, 6, 0, 0] (activities other_acts, idle_system, named_world) of
     (_, _, w') \<Rightarrow> ident (rdb (rview w')) ''python'' = Some ''s1''" (is "case ?run of (_, _, w') \<Rightarrow> _")
proof -
  obtain ps' l' w' where e: "?run = (ps', l', w')" by (rule prod_cases3)
  have "agreed (rview named_world)" and "ident (rdb (rview named_world)) ''python'' = Some ''s1''"
    by (simp_all add: named_world_def agreed_def ref_run) (simp_all add: claim_def meta_field_def ref_run)
  with system_keeps_identities [OF ref.documented_services_axioms _ e] show ?thesis
    unfolding e by simp
qed

end
